(* ===== verification/Prelude.thy ===== *)
theory Prelude
  imports Main "HOL-Library.Word" "HOL-Library.Multiset"
begin

text \<open>
  What every component shares: the fixed-width integer types, the error type of
  \<^verbatim>\<open>include/blockchain/error.hpp\<close> and its \<^verbatim>\<open>Result<T>\<close>, the decimal printing of
  \<^verbatim>\<open>std::to_string\<close>, and the generic lemmas on results, lists and words that the
  component proofs use through the collections declared here.
\<close>

unbundle bit_operations_syntax

named_theorems result_simps \<open>rewriting of sequenced fallible computations\<close>
named_theorems wire_simps \<open>what the serializers append to a buffer\<close>
named_theorems wire_length \<open>lengths of serialized values\<close>

section \<open>Integer and byte types\<close>

type_synonym u8 = "8 word"
type_synonym u16 = "16 word"
type_synonym u32 = "32 word"
type_synonym u64 = "64 word"

text \<open>
  \<^verbatim>\<open>std::byte\<close> is an 8-bit value; \<^verbatim>\<open>std::vector<std::byte>\<close> and
  \<^verbatim>\<open>std::span<const std::byte>\<close> are lists of them. A digest is a
  \<^verbatim>\<open>std::array<std::byte, 32>\<close>; the length is carried by the predicate \<open>wf_hash\<close>,
  which every producer of a digest is shown to establish.
\<close>

type_synonym byte = u8
type_synonym bytes = "byte list"
type_synonym Hash256 = "byte list"

definition wf_hash :: "Hash256 \<Rightarrow> bool" where
  "wf_hash h \<longleftrightarrow> length h = 32"

text \<open>\<^verbatim>\<open>UINT32_MAX\<close> and \<^verbatim>\<open>UINT64_MAX\<close> of \<^verbatim>\<open><cstdint>\<close>.\<close>

abbreviation (input) UINT32_MAX :: u32 where "UINT32_MAX \<equiv> 0xffffffff"
abbreviation (input) UINT64_MAX :: u64 where "UINT64_MAX \<equiv> 0xffffffffffffffff"

section \<open>Errors and results\<close>

datatype ErrorCode =
    kParseError
  | kInvalidMessage
  | kInvalidTransaction
  | kInvalidBlock
  | kInvalidStateTransition
  | kStorageCorruption
  | kUnsupportedVersion
  | kResourceLimitExceeded
  | kPolicyRejected
  | kPeerMisbehavior
  | kInvalidConfig

fun error_code_to_string :: "ErrorCode \<Rightarrow> string" where
  "error_code_to_string kParseError = ''ParseError''"
| "error_code_to_string kInvalidMessage = ''InvalidMessage''"
| "error_code_to_string kInvalidTransaction = ''InvalidTransaction''"
| "error_code_to_string kInvalidBlock = ''InvalidBlock''"
| "error_code_to_string kInvalidStateTransition = ''InvalidStateTransition''"
| "error_code_to_string kStorageCorruption = ''StorageCorruption''"
| "error_code_to_string kUnsupportedVersion = ''UnsupportedVersion''"
| "error_code_to_string kResourceLimitExceeded = ''ResourceLimitExceeded''"
| "error_code_to_string kPolicyRejected = ''PolicyRejected''"
| "error_code_to_string kPeerMisbehavior = ''PeerMisbehavior''"
| "error_code_to_string kInvalidConfig = ''InvalidConfig''"

record Error =
  err_code :: ErrorCode
  err_message :: string

text \<open>\<^verbatim>\<open>operator==\<close> on errors compares the code alone.\<close>

definition error_eq :: "Error \<Rightarrow> Error \<Rightarrow> bool" where
  "error_eq lhs rhs \<longleftrightarrow> err_code lhs = err_code rhs"

text \<open>\<^verbatim>\<open>Result<T> = std::expected<T, Error>\<close>: the left summand is the error.\<close>

type_synonym 'a Result = "Error + 'a"

definition make_error :: "ErrorCode \<Rightarrow> string \<Rightarrow> 'a Result" where
  "make_error c detail = Inl \<lparr>err_code = c, err_message = detail\<rparr>"

text \<open>The one-argument overload of \<^verbatim>\<open>make_error\<close> uses the code's name as the message.\<close>

definition make_error_code :: "ErrorCode \<Rightarrow> 'a Result" where
  "make_error_code c = Inl \<lparr>err_code = c, err_message = error_code_to_string c\<rparr>"

text \<open>
  \<open>bindR m k\<close> is the idiom \<^verbatim>\<open>auto x = m; if (!x) return std::unexpected(x.error()); k(*x)\<close>.
\<close>

fun bindR :: "'a Result \<Rightarrow> ('a \<Rightarrow> 'b Result) \<Rightarrow> 'b Result" where
  "bindR (Inl e) k = Inl e"
| "bindR (Inr x) k = k x"

text \<open>
  \<open>foldR\<close> is a loop over a range whose body may \<^verbatim>\<open>return\<close> an error: the state is threaded
  through the elements in order and the first error ends the loop.
\<close>

fun foldR :: "('s \<Rightarrow> 'a \<Rightarrow> 's Result) \<Rightarrow> 's \<Rightarrow> 'a list \<Rightarrow> 's Result" where
  "foldR f s [] = Inr s"
| "foldR f s (x # xs) = bindR (f s x) (\<lambda>s'. foldR f s' xs)"

definition is_ok :: "'a Result \<Rightarrow> bool" where
  "is_ok r \<longleftrightarrow> (case r of Inl _ \<Rightarrow> False | Inr _ \<Rightarrow> True)"

text \<open>The failure code of a result, if it failed: what callers and tests inspect.\<close>

definition code_of :: "'a Result \<Rightarrow> ErrorCode option" where
  "code_of r = (case r of Inl e \<Rightarrow> Some (err_code e) | Inr _ \<Rightarrow> None)"

lemma bindR_eq_Inr [result_simps]:
  "bindR m k = Inr y \<longleftrightarrow> (\<exists>x. m = Inr x \<and> k x = Inr y)"
  by (cases m) auto

lemma bindR_eq_Inl:
  "bindR m k = Inl e \<longleftrightarrow> m = Inl e \<or> (\<exists>x. m = Inr x \<and> k x = Inl e)"
  by (cases m) auto

lemma bindR_cong [fundef_cong]:
  "m = m' \<Longrightarrow> (\<And>x. m' = Inr x \<Longrightarrow> k x = k' x) \<Longrightarrow> bindR m k = bindR m' k'"
  by (cases m') auto

lemma bindR_assoc: "bindR (bindR m f) g = bindR m (\<lambda>x. bindR (f x) g)"
  by (cases m) auto

lemma foldR_append: "foldR f s (xs @ ys) = bindR (foldR f s xs) (\<lambda>s'. foldR f s' ys)"
  by (induction xs arbitrary: s) (auto simp: bindR_assoc)

lemma foldR_cong [fundef_cong]:
  "s = s' \<Longrightarrow> xs = xs' \<Longrightarrow> (\<And>a x. x \<in> set xs' \<Longrightarrow> f a x = f' a x) \<Longrightarrow> foldR f s xs = foldR f' s' xs'"
  by (induction xs arbitrary: xs' s s') (auto intro: bindR_cong)

text \<open>The loop rule: an invariant kept by every successful step holds when the loop ends.\<close>

lemma foldR_invariant:
  assumes "foldR f s xs = Inr s'" and "P s"
    and "\<And>s x s'. x \<in> set xs \<Longrightarrow> P s \<Longrightarrow> f s x = Inr s' \<Longrightarrow> P s'"
  shows "P s'"
  using assms
proof (induction xs arbitrary: s)
  case (Cons x xs)
  from Cons.prems(1) obtain s1 where s1: "f s x = Inr s1" "foldR f s1 xs = Inr s'"
    by (auto simp: bindR_eq_Inr)
  then have "P s1" using Cons.prems(2,3) by force
  with s1(2) show ?case by (rule Cons.IH) (use Cons.prems(3) in auto)
qed simp

text \<open>The error a loop ends with is the error of one of its steps.\<close>

lemma foldR_error:
  assumes "foldR f s xs = Inl e" and "\<And>s x. x \<in> set xs \<Longrightarrow> f s x = Inl e \<Longrightarrow> Q"
  shows Q
  using assms
proof (induction xs arbitrary: s)
  case (Cons x xs)
  then show ?case by (cases "f s x") force+
qed simp

lemma make_error_neq [simp]:
  "make_error c s \<noteq> Inr x" "Inr x \<noteq> make_error c s"
  by (simp_all add: make_error_def)

lemma if_make_error [result_simps]:
  "(if b then make_error c s else m) = Inr x \<longleftrightarrow> \<not> b \<and> m = Inr x"
  by simp

lemma bindR_make_error [simp]: "bindR (make_error c s) k = make_error c s"
  by (simp add: make_error_def)

lemma code_of_simps [simp]:
  "code_of (Inr x) = None"
  "code_of (Inl e) = Some (err_code e)"
  "code_of (make_error c s) = Some c"
  by (simp_all add: code_of_def make_error_def)

lemma is_ok_simps [simp]: "is_ok (Inr x)" "\<not> is_ok (Inl e)" "\<not> is_ok (make_error c s)"
  by (simp_all add: is_ok_def make_error_def)

lemma is_ok_iff: "is_ok r \<longleftrightarrow> (\<exists>x. r = Inr x)"
  by (cases r) auto

text \<open>The codes a sequence or a loop can fail with are those of its steps.\<close>

definition fails_with :: "ErrorCode set \<Rightarrow> 'a Result \<Rightarrow> bool" where
  "fails_with C r \<longleftrightarrow> (\<forall>c. code_of r = Some c \<longrightarrow> c \<in> C)"

lemma fails_with_simps [simp]:
  "fails_with C (Inr x)" "fails_with C (make_error c s) \<longleftrightarrow> c \<in> C"
  "fails_with C (Inl e) \<longleftrightarrow> err_code e \<in> C"
  by (auto simp: fails_with_def)

lemma fails_with_bindR:
  "fails_with C m \<Longrightarrow> (\<And>x. m = Inr x \<Longrightarrow> fails_with C (k x)) \<Longrightarrow> fails_with C (bindR m k)"
  by (cases m) auto

lemma fails_with_foldR:
  "(\<And>s x. x \<in> set xs \<Longrightarrow> fails_with C (f s x)) \<Longrightarrow> fails_with C (foldR f s xs)"
  by (induction xs arbitrary: s) (auto intro!: fails_with_bindR)

lemma fails_with_mono: "fails_with C r \<Longrightarrow> C \<subseteq> D \<Longrightarrow> fails_with D r"
  by (auto simp: fails_with_def)

lemma fails_withD: "fails_with C r \<Longrightarrow> r = Inl e \<Longrightarrow> err_code e \<in> C"
  by simp

lemma code_of_None: "code_of r = None \<longleftrightarrow> is_ok r"
  by (cases r) auto

text \<open>A loop that only checks its elements.\<close>

lemma foldR_check:
  "(\<And>x. f () x = Inr () \<longleftrightarrow> Q x) \<Longrightarrow> foldR f () xs = Inr () \<longleftrightarrow> (\<forall>x \<in> set xs. Q x)"
  by (induction xs) (auto simp: bindR_eq_Inr)

section \<open>Decimal printing\<close>

text \<open>\<^verbatim>\<open>std::to_string\<close> of an unsigned integer.\<close>

definition digit_char :: "nat \<Rightarrow> char" where
  "digit_char d = char_of (48 + d)"

fun to_string_nat :: "nat \<Rightarrow> string" where
  "to_string_nat n =
     (if n < 10 then [digit_char n] else to_string_nat (n div 10) @ [digit_char (n mod 10)])"

declare to_string_nat.simps [simp del]

lemma to_string_nat_not_empty: "to_string_nat n \<noteq> []"
  by (subst to_string_nat.simps) simp

section \<open>Lemmas on words\<close>

lemma bit_byte_beyond [simp]: "8 \<le> n \<Longrightarrow> \<not> bit (b :: byte) n"
  using bit_imp_le_length [of b n] by auto

lemma and_mask_byte: "x AND 0xff = take_bit 8 (x :: 'a::len word)"
  by (simp add: take_bit_eq_mask mask_eq_exp_minus_1)

lemma ucast_take_bit_byte [simp]: "ucast (take_bit 8 x) = (ucast (x :: 'a::len word) :: byte)"
  by (rule bit_eqI) (auto simp: bit_simps)

lemma ucast_ucast_byte:
  "8 \<le> LENGTH('a) \<Longrightarrow> ucast (ucast x :: byte) = take_bit 8 (x :: 'a::len word)"
  by (rule bit_eqI) (auto simp: bit_simps)

text \<open>Reassembling a value from its low bits and the field above them.\<close>

lemma take_bit_OR_push_bit:
  "take_bit n v OR push_bit n (take_bit m (drop_bit n v)) = take_bit (n + m) (v :: 'a::len word)"
  by (rule bit_eqI) (auto simp: bit_simps)

lemma take_bit_full_word: "LENGTH('a) \<le> n \<Longrightarrow> take_bit n (v :: 'a::len word) = v"
  by transfer (simp add: min_absorb2)

lemma unat_add_no_wrap:
  "unat (a :: 'a::len word) + unat b < 2 ^ LENGTH('a) \<Longrightarrow> unat (a + b) = unat a + unat b"
  by (simp add: unat_word_ariths)

lemma unat_u32_less: "unat (m :: u32) < 4294967296"
  using unsigned_less [of m, where 'a = nat] by simp

lemma unat_u64_less: "unat (m :: u64) < 18446744073709551616"
  using unsigned_less [of m, where 'a = nat] by simp

lemma unat_of_nat_less: "n < 2 ^ LENGTH('a) \<Longrightarrow> unat (of_nat n :: 'a::len word) = n"
  by (simp add: unat_of_nat)

lemma unat_ucast_u32_u64 [simp]: "unat (ucast (a :: u32) :: u64) = unat a"
  using unat_u32_less [of a] by (simp add: unsigned_ucast_eq take_bit_nat_eq_self)

lemma unat_add_u32_u64: "unat ((ucast (a :: u32) :: u64) + ucast (b :: u32)) = unat a + unat b"
  using unat_u32_less [of a] unat_u32_less [of b] by (subst unat_add_no_wrap) simp_all

section \<open>Lemmas on lists\<close>

lemma upt_4 [simp]: "[0..<4] = [0, 1, 2, 3]"
  by (simp add: upt_rec)

lemma upt_8: "[0..<8] = [0, 1, 2, 3, 4, 5, 6, 7]"
  by (simp add: upt_rec)

lemma map_nth_drop_upt:
  "p + n \<le> length xs \<Longrightarrow> map (\<lambda>i. xs ! (p + i)) [0..<n] = take n (drop p xs)"
  by (rule nth_equalityI) auto

lemma sum_list_nat_mono:
  "(\<And>x. x \<in> set xs \<Longrightarrow> f x \<le> (g x :: nat)) \<Longrightarrow> sum_list (map f xs) \<le> sum_list (map g xs)"
  by (induction xs) (auto simp: add_mono)

section \<open>Transition systems\<close>

text \<open>
  The states a component can be brought into: an initial state followed by any number of
  steps. The locale is the interface between a component's operations and its invariant; a
  component interprets it with its own step relation.
\<close>

inductive reachable :: "('s \<Rightarrow> bool) \<Rightarrow> ('s \<Rightarrow> 's \<Rightarrow> bool) \<Rightarrow> 's \<Rightarrow> bool" for init step where
  reach_init: "init s \<Longrightarrow> reachable init step s"
| reach_step: "reachable init step s \<Longrightarrow> step s s' \<Longrightarrow> reachable init step s'"

locale inv_system =
  fixes init :: "'s \<Rightarrow> bool" and step :: "'s \<Rightarrow> 's \<Rightarrow> bool" and inv :: "'s \<Rightarrow> bool"
  assumes init_inv: "init s \<Longrightarrow> inv s"
    and step_inv: "inv s \<Longrightarrow> step s s' \<Longrightarrow> inv s'"
begin

lemma reachable_inv: "reachable init step s \<Longrightarrow> inv s"
  by (induction rule: reachable.induct) (auto intro: init_inv step_inv)

end

end
