(* ===== verification/Byte_IO.thy ===== *)
theory Byte_IO
  imports Prelude
begin

text \<open>
  \<^verbatim>\<open>src/serialization/byte_io.cpp\<close>: the canonical byte encoding. A \<open>ByteWriter\<close> is its
  growing buffer, a \<open>ByteReader\<close> the span it reads and its position. Every getter
  returns the value and the advanced reader, or the error.

  The locale \<open>codec\<close> is the contract between a serializer and its parser: one law,
  \<open>get_iff\<close>, says that the parser succeeds exactly on the bytes the serializer writes, for
  the values it accepts, and consumes nothing else. Round trips, canonicity, injectivity
  and rejection of truncated input are proved once from it, and so is the loop that reads
  a counted sequence. It is interpreted below for the primitive values and, in the other
  theories, for every structure that travels on the wire or is stored on disk.
\<close>

section \<open>The writer\<close>

record ByteWriter =
  buffer :: bytes

definition new_writer :: ByteWriter where
  "new_writer = \<lparr>buffer = []\<rparr>"

definition push_back :: "byte \<Rightarrow> ByteWriter \<Rightarrow> ByteWriter" where
  "push_back b w = w\<lparr>buffer := buffer w @ [b]\<rparr>"

definition put_u8 :: "u8 \<Rightarrow> ByteWriter \<Rightarrow> ByteWriter" where
  "put_u8 value w = push_back value w"

definition put_u16 :: "u16 \<Rightarrow> ByteWriter \<Rightarrow> ByteWriter" where
  "put_u16 value w =
     push_back (ucast (drop_bit 8 value AND 0xff)) (push_back (ucast (value AND 0xff)) w)"

definition put_u32 :: "u32 \<Rightarrow> ByteWriter \<Rightarrow> ByteWriter" where
  "put_u32 value w =
     foldl (\<lambda>w shift. push_back (ucast (drop_bit shift value AND 0xff)) w) w [0, 8, 16, 24]"

definition put_u64 :: "u64 \<Rightarrow> ByteWriter \<Rightarrow> ByteWriter" where
  "put_u64 value w =
     foldl (\<lambda>w shift. push_back (ucast (drop_bit shift value AND 0xff)) w) w
       [0, 8, 16, 24, 32, 40, 48, 56]"

definition put_hash :: "Hash256 \<Rightarrow> ByteWriter \<Rightarrow> ByteWriter" where
  "put_hash hash w = w\<lparr>buffer := buffer w @ hash\<rparr>"

definition put_bytes :: "bytes \<Rightarrow> ByteWriter \<Rightarrow> ByteWriter" where
  "put_bytes bs w = w\<lparr>buffer := buffer w @ bs\<rparr>"

definition put_var_bytes :: "bytes \<Rightarrow> ByteWriter \<Rightarrow> ByteWriter" where
  "put_var_bytes bs w = put_bytes bs (put_u32 (of_nat (length bs)) w)"

section \<open>The reader\<close>

record ByteReader =
  rd_data :: bytes
  rd_pos :: nat

definition reader_of :: "bytes \<Rightarrow> ByteReader" where
  "reader_of data = \<lparr>rd_data = data, rd_pos = 0\<rparr>"

definition remaining :: "ByteReader \<Rightarrow> nat" where
  "remaining r = length (rd_data r) - rd_pos r"

definition at_end :: "ByteReader \<Rightarrow> bool" where
  "at_end r \<longleftrightarrow> rd_pos r = length (rd_data r)"

text \<open>The reader's class invariant: the position never passes the end of the span.\<close>

definition wf_reader :: "ByteReader \<Rightarrow> bool" where
  "wf_reader r \<longleftrightarrow> rd_pos r \<le> length (rd_data r)"

definition advance :: "nat \<Rightarrow> ByteReader \<Rightarrow> ByteReader" where
  "advance n r = r\<lparr>rd_pos := rd_pos r + n\<rparr>"

definition ensure :: "nat \<Rightarrow> ByteReader \<Rightarrow> unit Result" where
  "ensure n r =
     (if n > remaining r
      then make_error kParseError (''unexpected end of input: need '' @ to_string_nat n @
             '' byte(s), have '' @ to_string_nat (remaining r))
      else Inr ())"

type_synonym 'a parser = "ByteReader \<Rightarrow> ('a \<times> ByteReader) Result"

definition get_u8 :: "u8 parser" where
  "get_u8 r = bindR (ensure 1 r) (\<lambda>_. Inr (rd_data r ! rd_pos r, advance 1 r))"

definition get_u16 :: "u16 parser" where
  "get_u16 r = bindR (ensure 2 r) (\<lambda>_.
     Inr (ucast (rd_data r ! rd_pos r) OR push_bit 8 (ucast (rd_data r ! (rd_pos r + 1))),
          advance 2 r))"

definition get_u32 :: "u32 parser" where
  "get_u32 r = bindR (ensure 4 r) (\<lambda>_.
     Inr (foldl (\<lambda>value i. value OR push_bit (i * 8) (ucast (rd_data r ! (rd_pos r + i)))) 0
            [0..<4],
          advance 4 r))"

definition get_u64 :: "u64 parser" where
  "get_u64 r = bindR (ensure 8 r) (\<lambda>_.
     Inr (foldl (\<lambda>value i. value OR push_bit (i * 8) (ucast (rd_data r ! (rd_pos r + i)))) 0
            [0..<8],
          advance 8 r))"

definition get_hash :: "Hash256 parser" where
  "get_hash r = bindR (ensure 32 r) (\<lambda>_.
     Inr (map (\<lambda>i. rd_data r ! (rd_pos r + i)) [0..<32], advance 32 r))"

definition get_bytes :: "nat \<Rightarrow> bytes parser" where
  "get_bytes n r = bindR (ensure n r) (\<lambda>_.
     Inr (take n (drop (rd_pos r) (rd_data r)), advance n r))"

definition get_length :: "u32 \<Rightarrow> u32 parser" where
  "get_length max_count r = bindR (get_u32 r) (\<lambda>(len, r).
     if len > max_count
     then make_error kResourceLimitExceeded (''length prefix '' @ to_string_nat (unat len) @
            '' exceeds maximum '' @ to_string_nat (unat max_count))
     else Inr (len, r))"

definition get_var_bytes :: "u32 \<Rightarrow> bytes parser" where
  "get_var_bytes max_len r = bindR (get_length max_len r) (\<lambda>(len, r).
     get_bytes (unat len) r)"

definition expect_end :: "ByteReader \<Rightarrow> unit Result" where
  "expect_end r =
     (if \<not> at_end r
      then make_error kParseError (''trailing bytes after value: '' @
             to_string_nat (remaining r) @ '' left'')
      else Inr ())"

text \<open>
  Idioms of the callers: the loop \<^verbatim>\<open>for (i = 0; i < count; ++i) { ... push_back(*item); }\<close>,
  that loop after \<^verbatim>\<open>get_length(max)\<close>, and a parse of a whole span followed by \<^verbatim>\<open>expect_end\<close>.
\<close>

fun get_loop :: "'a parser \<Rightarrow> nat \<Rightarrow> 'a list \<Rightarrow> 'a list parser" where
  "get_loop get 0 acc r = Inr (acc, r)"
| "get_loop get (Suc n) acc r = bindR (get r) (\<lambda>(item, r). get_loop get n (acc @ [item]) r)"

definition get_counted :: "u32 \<Rightarrow> 'a parser \<Rightarrow> 'a list parser" where
  "get_counted max_count get r =
     bindR (get_length max_count r) (\<lambda>(n, r). get_loop get (unat n) [] r)"

definition parse_all :: "'a parser \<Rightarrow> bytes \<Rightarrow> 'a Result" where
  "parse_all get bs =
     bindR (get (reader_of bs)) (\<lambda>(x, r). bindR (expect_end r) (\<lambda>_. Inr x))"

section \<open>What is written\<close>

definition enc_u16 :: "u16 \<Rightarrow> bytes" where
  "enc_u16 v = [ucast v, ucast (drop_bit 8 v)]"

definition enc_u32 :: "u32 \<Rightarrow> bytes" where
  "enc_u32 v = map (\<lambda>s. ucast (drop_bit s v)) [0, 8, 16, 24]"

definition enc_u64 :: "u64 \<Rightarrow> bytes" where
  "enc_u64 v = map (\<lambda>s. ucast (drop_bit s v)) [0, 8, 16, 24, 32, 40, 48, 56]"

definition enc_var_bytes :: "bytes \<Rightarrow> bytes" where
  "enc_var_bytes bs = enc_u32 (of_nat (length bs)) @ bs"

definition enc_counted :: "('a \<Rightarrow> bytes) \<Rightarrow> 'a list \<Rightarrow> bytes" where
  "enc_counted enc xs = enc_u32 (of_nat (length xs)) @ concat (map enc xs)"

lemma buffer_new_writer [wire_simps]: "buffer new_writer = []"
  by (simp add: new_writer_def)

lemma buffer_push_back [wire_simps]: "buffer (push_back b w) = buffer w @ [b]"
  by (simp add: push_back_def)

lemma buffer_put_u8 [wire_simps]: "buffer (put_u8 v w) = buffer w @ [v]"
  by (simp add: put_u8_def wire_simps)

lemma buffer_put_u16 [wire_simps]: "buffer (put_u16 v w) = buffer w @ enc_u16 v"
  by (simp add: put_u16_def enc_u16_def wire_simps and_mask_byte)

lemma buffer_put_u32 [wire_simps]: "buffer (put_u32 v w) = buffer w @ enc_u32 v"
  by (simp add: put_u32_def enc_u32_def wire_simps and_mask_byte)

lemma buffer_put_u64 [wire_simps]: "buffer (put_u64 v w) = buffer w @ enc_u64 v"
  by (simp add: put_u64_def enc_u64_def wire_simps and_mask_byte)

lemma buffer_put_hash [wire_simps]: "buffer (put_hash h w) = buffer w @ h"
  by (simp add: put_hash_def)

lemma buffer_put_bytes [wire_simps]: "buffer (put_bytes bs w) = buffer w @ bs"
  by (simp add: put_bytes_def)

lemma buffer_put_var_bytes [wire_simps]:
  "buffer (put_var_bytes bs w) = buffer w @ enc_var_bytes bs"
  by (simp add: put_var_bytes_def enc_var_bytes_def wire_simps)

lemma buffer_foldl_put [wire_simps]:
  assumes "\<And>x w. buffer (put x w) = buffer w @ enc x"
  shows "buffer (foldl (\<lambda>w x. put x w) w xs) = buffer w @ concat (map enc xs)"
  by (induction xs arbitrary: w) (auto simp: assms)

lemma length_enc [simp, wire_length]:
  "length (enc_u16 a) = 2" "length (enc_u32 b) = 4" "length (enc_u64 c) = 8"
  "length (enc_var_bytes bs) = 4 + length bs"
  by (simp_all add: enc_u16_def enc_u32_def enc_u64_def enc_var_bytes_def)

section \<open>What is consumed\<close>

definition consumes :: "ByteReader \<Rightarrow> bytes \<Rightarrow> ByteReader \<Rightarrow> bool" where
  "consumes r bs r' \<longleftrightarrow> r' = advance (length bs) r \<and>
     take (length bs) (drop (rd_pos r) (rd_data r)) = bs"

lemma reader_simps [simp]:
  "rd_data (reader_of bs) = bs" "rd_pos (reader_of bs) = 0"
  "rd_data (advance n r) = rd_data r" "rd_pos (advance n r) = rd_pos r + n"
  by (simp_all add: reader_of_def advance_def)

lemma consumes_Nil [simp]: "consumes r [] r' \<longleftrightarrow> r' = r"
  by (simp add: consumes_def advance_def)

lemma consumes_append:
  "consumes r (bs @ cs) r' \<longleftrightarrow> (\<exists>r1. consumes r bs r1 \<and> consumes r1 cs r')"
proof -
  have split: "take (length bs + length cs) xs = bs @ cs \<longleftrightarrow>
      take (length bs) xs = bs \<and> take (length cs) (drop (length bs) xs) = cs" for xs :: bytes
  proof
    assume eq: "take (length bs + length cs) xs = bs @ cs"
    then have "length bs \<le> length xs" by (metis length_append length_take le_add1 min.bounded_iff)
    with eq show "take (length bs) xs = bs \<and> take (length cs) (drop (length bs) xs) = cs"
      by (simp add: take_add)
  qed (simp add: take_add)
  show ?thesis
    by (auto simp: consumes_def advance_def split add.commute add.left_commute)
qed


lemma consumes_wf: "consumes r bs r' \<Longrightarrow> wf_reader r \<Longrightarrow> wf_reader r'"
proof -
  assume c: "consumes r bs r'" and wf: "wf_reader r"
  then have "length bs \<le> length (drop (rd_pos r) (rd_data r))"
    by (metis consumes_def length_take min.cobounded2 min.commute)
  with c wf show ?thesis by (simp add: consumes_def wf_reader_def advance_def)
qed

lemma consumes_data: "consumes r bs r' \<Longrightarrow> rd_data r' = rd_data r"
  by (simp add: consumes_def advance_def)

lemma consumes_reader_of:
  "consumes (reader_of data) bs r \<longleftrightarrow> (\<exists>rest. data = bs @ rest) \<and> r = advance (length bs) (reader_of data)"
  by (auto simp: consumes_def) (metis append_take_drop_id)

lemma consumes_all_iff: "(\<exists>r. consumes (reader_of data) bs r \<and> at_end r) \<longleftrightarrow> data = bs"
  by (auto simp: consumes_reader_of at_end_def)

lemma consumes_trans: "consumes r bs r1 \<Longrightarrow> consumes r1 cs r' \<Longrightarrow> consumes r (bs @ cs) r'"
  by (auto simp: consumes_append)

lemma ensure_ok [result_simps]: "ensure n r = Inr u \<longleftrightarrow> n \<le> remaining r"
  by (auto simp: ensure_def)

lemma ensure_error: "ensure n r = Inl e \<Longrightarrow> err_code e = kParseError"
  by (auto simp: ensure_def make_error_def split: if_splits)

lemma expect_end_ok [result_simps]: "expect_end r = Inr u \<longleftrightarrow> at_end r"
  by (auto simp: expect_end_def)

lemma take_remaining:
  "length (take n (drop (rd_pos r) (rd_data r))) = n \<longleftrightarrow> n \<le> remaining r"
  by (auto simp: remaining_def)

section \<open>The contract of a serializer and its parser\<close>

locale codec =
  fixes enc :: "'a \<Rightarrow> bytes"
    and get :: "'a parser"
    and ok :: "'a \<Rightarrow> bool"
  assumes get_iff: "get r = Inr (x, r') \<longleftrightarrow> ok x \<and> consumes r (enc x) r'"
begin

lemma round_trip:
  "ok x \<Longrightarrow> get (reader_of (enc x @ rest)) =
     Inr (x, advance (length (enc x)) (reader_of (enc x @ rest)))"
  by (auto simp: get_iff consumes_reader_of)

lemma never_overreads: "get r = Inr (x, r') \<Longrightarrow> wf_reader r \<Longrightarrow> wf_reader r'"
  by (auto simp: get_iff dest: consumes_wf)

lemma parse_all_iff: "parse_all get bs = Inr x \<longleftrightarrow> ok x \<and> bs = enc x"
  by (auto simp: parse_all_def result_simps get_iff consumes_reader_of at_end_def)

lemma parse_all_enc: "ok x \<Longrightarrow> parse_all get (enc x) = Inr x"
  by (simp add: parse_all_iff)

lemma prefix_free: "ok x \<Longrightarrow> ok y \<Longrightarrow> enc x @ s = enc y @ t \<Longrightarrow> x = y \<and> s = t"
proof -
  assume "ok x" "ok y" and eq: "enc x @ s = enc y @ t"
  then have "Inr (x, advance (length (enc x)) (reader_of (enc x @ s))) =
      (Inr (y, advance (length (enc y)) (reader_of (enc y @ t))) :: ('a \<times> ByteReader) Result)"
    using round_trip [of x s] round_trip [of y t] by simp
  then have "x = y" by simp
  with eq show ?thesis by simp
qed

lemma enc_inject: "ok x \<Longrightarrow> ok y \<Longrightarrow> enc x = enc y \<longleftrightarrow> x = y"
  using prefix_free [of x y "[]" "[]"] by auto

text \<open>A truncated encoding is rejected, whatever value it was cut from.\<close>

lemma truncated_rejected:
  assumes "ok x" and "enc x = p @ q" and "q \<noteq> []"
  shows "\<not> is_ok (get (reader_of p))"
proof
  assume "is_ok (get (reader_of p))"
  then obtain y r where "get (reader_of p) = Inr (y, r)" by (auto simp: is_ok_iff)
  then obtain s where "ok y" and s: "p = enc y @ s" by (auto simp: get_iff consumes_reader_of)
  with assms prefix_free [of x y "[]" "s @ q"] show False by simp
qed

lemma get_loop_iff:
  "get_loop get n acc r = Inr (ys, r') \<longleftrightarrow>
     (\<exists>xs. ys = acc @ xs \<and> length xs = n \<and> list_all ok xs \<and> consumes r (concat (map enc xs)) r')"
proof (induction n arbitrary: acc r ys r')
  case (Suc n)
  show ?case
  proof
    assume "get_loop get (Suc n) acc r = Inr (ys, r')"
    then obtain x r1 where "ok x" and c: "consumes r (enc x) r1"
      and "get_loop get n (acc @ [x]) r1 = Inr (ys, r')"
      by (auto simp: result_simps get_iff)
    then obtain xs where "ys = acc @ x # xs" "length xs = n" "list_all ok xs"
      "consumes r1 (concat (map enc xs)) r'" by (auto simp: Suc.IH)
    with c \<open>ok x\<close> show "\<exists>xs. ys = acc @ xs \<and> length xs = Suc n \<and> list_all ok xs \<and>
        consumes r (concat (map enc xs)) r'"
      by (intro exI [of _ "x # xs"]) (auto simp: consumes_append)
  next
    assume "\<exists>xs. ys = acc @ xs \<and> length xs = Suc n \<and> list_all ok xs \<and>
        consumes r (concat (map enc xs)) r'"
    then obtain x xs where "ys = acc @ x # xs" "length xs = n" "ok x" "list_all ok xs"
      "consumes r (enc x @ concat (map enc xs)) r'" by (auto simp: length_Suc_conv)
    moreover from this obtain r1 where "consumes r (enc x) r1"
      "consumes r1 (concat (map enc xs)) r'" by (auto simp: consumes_append)
    ultimately have "get r = Inr (x, r1)" "get_loop get n (acc @ [x]) r1 = Inr (ys, r')"
      by (simp_all add: get_iff Suc.IH)
    then show "get_loop get (Suc n) acc r = Inr (ys, r')" by simp
  qed
qed auto

end

section \<open>The primitive values keep the contract\<close>

text \<open>Each getter reads a fixed number of bytes and assembles them: \<open>dec\<close> inverts \<open>enc\<close>.\<close>

lemma fixed_width_get_iff:
  assumes get: "\<And>r. get r = bindR (ensure n r) (\<lambda>_. Inr (dec (take n (drop (rd_pos r) (rd_data r))), advance n r))"
    and enc_dec: "\<And>bs. length bs = n \<Longrightarrow> enc (dec bs) = bs \<and> ok (dec bs)"
    and dec_enc: "\<And>x. ok x \<Longrightarrow> length (enc x) = n \<and> dec (enc x) = x"
  shows "get r = Inr (x, r') \<longleftrightarrow> ok x \<and> consumes r (enc x) r'"
proof
  assume "get r = Inr (x, r')"
  then have "n \<le> remaining r" "x = dec (take n (drop (rd_pos r) (rd_data r)))" "r' = advance n r"
    by (auto simp: get result_simps)
  moreover from this have "length (take n (drop (rd_pos r) (rd_data r))) = n"
    by (simp only: take_remaining)
  ultimately show "ok x \<and> consumes r (enc x) r'"
    using enc_dec [of "take n (drop (rd_pos r) (rd_data r))"] by (simp add: consumes_def)
next
  assume "ok x \<and> consumes r (enc x) r'"
  then have "take n (drop (rd_pos r) (rd_data r)) = enc x" and "r' = advance n r"
    and "length (enc x) = n" "dec (enc x) = x"
    using dec_enc [of x] by (auto simp: consumes_def)
  then show "get r = Inr (x, r')"
    using take_remaining [of n r] by (simp add: get result_simps)
qed


definition dec_u16 :: "bytes \<Rightarrow> u16" where
  "dec_u16 bs = ucast (bs ! 0) OR push_bit 8 (ucast (bs ! 1))"

definition dec_u32 :: "bytes \<Rightarrow> u32" where
  "dec_u32 bs = foldl (\<lambda>value i. value OR push_bit (i * 8) (ucast (bs ! i))) 0 [0..<4]"

definition dec_u64 :: "bytes \<Rightarrow> u64" where
  "dec_u64 bs = foldl (\<lambda>value i. value OR push_bit (i * 8) (ucast (bs ! i))) 0 [0..<8]"

lemma dec_enc_u16 [simp]: "dec_u16 (enc_u16 v) = v"
  using take_bit_OR_push_bit [of 8 v 8]
  by (simp add: dec_u16_def enc_u16_def ucast_ucast_byte take_bit_full_word)

lemma dec_enc_u32 [simp]: "dec_u32 (enc_u32 v) = v"
  using take_bit_OR_push_bit [of 8 v 8] take_bit_OR_push_bit [of 16 v 8]
    take_bit_OR_push_bit [of 24 v 8]
  by (simp add: dec_u32_def enc_u32_def ucast_ucast_byte take_bit_full_word)

lemma dec_enc_u64 [simp]: "dec_u64 (enc_u64 v) = v"
  using take_bit_OR_push_bit [of 8 v 8] take_bit_OR_push_bit [of 16 v 8]
    take_bit_OR_push_bit [of 24 v 8] take_bit_OR_push_bit [of 32 v 8]
    take_bit_OR_push_bit [of 40 v 8] take_bit_OR_push_bit [of 48 v 8]
    take_bit_OR_push_bit [of 56 v 8]
  by (simp add: dec_u64_def enc_u64_def upt_8 ucast_ucast_byte take_bit_full_word)

lemma length_4_conv: "length bs = 4 \<longleftrightarrow> (\<exists>a b c d. bs = [a, b, c, d])"
  by (auto simp: length_Suc_conv numeral_eq_Suc)

lemma length_8_conv: "length bs = 8 \<longleftrightarrow> (\<exists>a b c d e f g h. bs = [a, b, c, d, e, f, g, h])"
  by (auto simp: length_Suc_conv numeral_eq_Suc)

lemma enc_dec_u32 [simp]: "length bs = 4 \<Longrightarrow> enc_u32 (dec_u32 bs) = bs"
  by (auto simp: length_4_conv dec_u32_def enc_u32_def bit_simps intro!: bit_eqI)

lemma enc_dec_u64 [simp]: "length bs = 8 \<Longrightarrow> enc_u64 (dec_u64 bs) = bs"
  by (auto simp: length_8_conv dec_u64_def enc_u64_def upt_8 bit_simps intro!: bit_eqI)


lemma ensure_take_nth:
  "n \<le> remaining r \<Longrightarrow> i < n \<Longrightarrow>
     take n (drop (rd_pos r) (rd_data r)) ! i = rd_data r ! (rd_pos r + i)"
  by (simp add: remaining_def)

lemma get_u8_take:
  "get_u8 r = bindR (ensure 1 r) (\<lambda>_. Inr (hd (take 1 (drop (rd_pos r) (rd_data r))), advance 1 r))"
  by (cases "1 \<le> remaining r") (auto simp: get_u8_def ensure_def remaining_def hd_drop_conv_nth)

lemma get_u16_take:
  "get_u16 r = bindR (ensure 2 r) (\<lambda>_.
     Inr (dec_u16 (take 2 (drop (rd_pos r) (rd_data r))), advance 2 r))"
  by (cases "2 \<le> remaining r") (auto simp: get_u16_def dec_u16_def ensure_def remaining_def)

lemma get_u32_take:
  "get_u32 r = bindR (ensure 4 r) (\<lambda>_.
     Inr (dec_u32 (take 4 (drop (rd_pos r) (rd_data r))), advance 4 r))"
  by (cases "4 \<le> remaining r") (auto simp: get_u32_def dec_u32_def ensure_def remaining_def)

lemma get_u64_take:
  "get_u64 r = bindR (ensure 8 r) (\<lambda>_.
     Inr (dec_u64 (take 8 (drop (rd_pos r) (rd_data r))), advance 8 r))"
  by (cases "8 \<le> remaining r") (auto simp: get_u64_def dec_u64_def ensure_def remaining_def upt_8)

lemma get_hash_take:
  "get_hash r = bindR (ensure 32 r) (\<lambda>_.
     Inr (take 32 (drop (rd_pos r) (rd_data r)), advance 32 r))"
  by (cases "32 \<le> remaining r")
    (auto simp: get_hash_def ensure_def remaining_def map_nth_drop_upt)

lemma enc_dec_u16 [simp]: "length bs = 2 \<Longrightarrow> enc_u16 (dec_u16 bs) = bs"
  by (auto simp: numeral_2_eq_2 length_Suc_conv dec_u16_def enc_u16_def bit_simps intro!: bit_eqI)

interpretation u8_codec: codec "\<lambda>v. [v]" get_u8 "\<lambda>_. True"
  by unfold_locales
    (rule fixed_width_get_iff [where dec = hd, OF get_u8_take], auto simp: length_Suc_conv)

interpretation u16_codec: codec enc_u16 get_u16 "\<lambda>_. True"
  by unfold_locales (rule fixed_width_get_iff [OF get_u16_take], auto)

interpretation u32_codec: codec enc_u32 get_u32 "\<lambda>_. True"
  by unfold_locales (rule fixed_width_get_iff [OF get_u32_take], auto)

interpretation u64_codec: codec enc_u64 get_u64 "\<lambda>_. True"
  by unfold_locales (rule fixed_width_get_iff [OF get_u64_take], auto)

interpretation hash_codec: codec "\<lambda>h. h" get_hash wf_hash
  by unfold_locales
    (rule fixed_width_get_iff [where dec = "\<lambda>bs. bs", OF get_hash_take], auto simp: wf_hash_def)

interpretation bytes_codec: codec "\<lambda>bs. bs" "get_bytes n" "\<lambda>bs. length bs = n" for n
  by unfold_locales
    (rule fixed_width_get_iff [where dec = "\<lambda>bs. bs", OF get_bytes_def], auto)

interpretation length_codec: codec enc_u32 "get_length m" "\<lambda>n. n \<le> m" for m
  by unfold_locales
    (auto simp: get_length_def result_simps u32_codec.get_iff not_less)

lemma var_bytes_ok: "length bs \<le> unat m \<Longrightarrow> (of_nat (length bs) :: u32) \<le> m"
  using unat_u32_less [of m] by (simp add: word_le_nat_alt unat_of_nat_less)

interpretation var_bytes_codec:
  codec enc_var_bytes "get_var_bytes m" "\<lambda>bs. length bs \<le> unat m" for m
proof unfold_locales
  fix r bs r'
  show "get_var_bytes m r = Inr (bs, r') \<longleftrightarrow> length bs \<le> unat m \<and> consumes r (enc_var_bytes bs) r'"
  proof
    assume "get_var_bytes m r = Inr (bs, r')"
    then obtain n r1 where "n \<le> m" "consumes r (enc_u32 n) r1" "length bs = unat n" "consumes r1 bs r'"
      by (auto simp: get_var_bytes_def result_simps length_codec.get_iff bytes_codec.get_iff)
    then show "length bs \<le> unat m \<and> consumes r (enc_var_bytes bs) r'"
      by (auto simp: enc_var_bytes_def consumes_append word_le_nat_alt)
  next
    assume "length bs \<le> unat m \<and> consumes r (enc_var_bytes bs) r'"
    moreover from this obtain r1 where "consumes r (enc_u32 (of_nat (length bs))) r1" "consumes r1 bs r'"
      by (auto simp: enc_var_bytes_def consumes_append)
    ultimately have "get_length m r = Inr (of_nat (length bs), r1)"
      and "get_bytes (unat (of_nat (length bs) :: u32)) r1 = Inr (bs, r')"
      using unat_u32_less [of m]
      by (simp_all add: length_codec.get_iff bytes_codec.get_iff var_bytes_ok unat_of_nat_less)
    then show "get_var_bytes m r = Inr (bs, r')" by (simp add: get_var_bytes_def)
  qed
qed

context codec
begin

lemma counted_iff:
  "get_counted m get r = Inr (xs, r') \<longleftrightarrow>
     (length xs \<le> unat m \<and> list_all ok xs) \<and> consumes r (enc_counted enc xs) r'"
proof
  assume "get_counted m get r = Inr (xs, r')"
  then obtain n r1 where "n \<le> m" "consumes r (enc_u32 n) r1" "length xs = unat n" "list_all ok xs"
    "consumes r1 (concat (map enc xs)) r'"
    by (auto simp: get_counted_def result_simps length_codec.get_iff get_loop_iff)
  then show "(length xs \<le> unat m \<and> list_all ok xs) \<and> consumes r (enc_counted enc xs) r'"
    by (auto simp: enc_counted_def consumes_append word_le_nat_alt)
next
  assume a: "(length xs \<le> unat m \<and> list_all ok xs) \<and> consumes r (enc_counted enc xs) r'"
  then obtain r1 where r1: "consumes r (enc_u32 (of_nat (length xs))) r1"
      "consumes r1 (concat (map enc xs)) r'"
    by (auto simp: enc_counted_def consumes_append)
  have "(of_nat (length xs) :: u32) \<le> m" "unat (of_nat (length xs) :: u32) = length xs"
    using a unat_u32_less [of m] by (auto simp: word_le_nat_alt unat_of_nat_less)
  moreover from this r1 have "get_length m r = Inr (of_nat (length xs), r1)"
    by (simp add: length_codec.get_iff)
  moreover have "get_loop get (length xs) [] r1 = Inr (xs, r')"
    using a r1 by (simp add: get_loop_iff)
  ultimately show "get_counted m get r = Inr (xs, r')" by (simp add: get_counted_def)
qed

lemma counted_codec:
  "codec (enc_counted enc) (get_counted m get) (\<lambda>xs. length xs \<le> unat m \<and> list_all ok xs)"
  by (rule codec.intro) (rule counted_iff)

end

lemmas codec_iffs = u8_codec.get_iff u16_codec.get_iff u32_codec.get_iff u64_codec.get_iff
  hash_codec.get_iff length_codec.get_iff bytes_codec.get_iff var_bytes_codec.get_iff

section \<open>Error codes of the readers\<close>

text \<open>
  A getter fails for one of two reasons: the input ends too early, or a length prefix is
  above its maximum. \<open>reader_error\<close> is the set of those codes.
\<close>

abbreviation reader_error :: "'a Result \<Rightarrow> bool" where
  "reader_error \<equiv> fails_with {kParseError, kResourceLimitExceeded}"

lemma reader_error_ensure [simp]: "reader_error (ensure n r)"
  by (auto simp: ensure_def)

lemma reader_error_expect_end [simp]: "reader_error (expect_end r)"
  by (auto simp: expect_end_def)

lemma reader_error_getters [simp]:
  "reader_error (get_u8 r)" "reader_error (get_u16 r)" "reader_error (get_u32 r)"
  "reader_error (get_u64 r)" "reader_error (get_hash r)" "reader_error (get_bytes n r)"
  by (simp_all add: get_u8_def get_u16_def get_u32_def get_u64_def get_hash_def get_bytes_def
      fails_with_bindR)

lemma reader_error_get_length [simp]: "reader_error (get_length m r)"
  by (auto simp: get_length_def intro!: fails_with_bindR split: prod.splits)

lemma reader_error_get_var_bytes [simp]: "reader_error (get_var_bytes m r)"
  by (auto simp: get_var_bytes_def intro!: fails_with_bindR split: prod.splits)

lemma reader_error_get_loop:
  "(\<And>r. reader_error (get r)) \<Longrightarrow> reader_error (get_loop get n acc r)"
  by (induction n arbitrary: acc r) (auto intro!: fails_with_bindR split: prod.splits)

lemma reader_error_get_counted:
  "(\<And>r. reader_error (get r)) \<Longrightarrow> reader_error (get_counted m get r)"
  by (auto simp: get_counted_def intro!: fails_with_bindR reader_error_get_loop split: prod.splits)

end
