(* ===== verification/Sha256_Correct.thy ===== *)
theory Sha256_Correct
  imports Sha256
begin

text \<open>
  FIPS 180-4 as the standard writes it, and the proof that the streaming code of
  \<^verbatim>\<open>src/crypto/sha256.cpp\<close> computes it for every input. Also: a digest has 32 bytes,
  and the hex form of a digest reads back as the digest.
\<close>

section \<open>FIPS 180-4\<close>

definition fips_Ch :: "u32 \<Rightarrow> u32 \<Rightarrow> u32 \<Rightarrow> u32" where
  "fips_Ch x y z = (x AND y) XOR (NOT x AND z)"

definition fips_Maj :: "u32 \<Rightarrow> u32 \<Rightarrow> u32 \<Rightarrow> u32" where
  "fips_Maj x y z = (x AND y) XOR (x AND z) XOR (y AND z)"

definition fips_Sigma0 :: "u32 \<Rightarrow> u32" where
  "fips_Sigma0 x = word_rotr 2 x XOR word_rotr 13 x XOR word_rotr 22 x"

definition fips_Sigma1 :: "u32 \<Rightarrow> u32" where
  "fips_Sigma1 x = word_rotr 6 x XOR word_rotr 11 x XOR word_rotr 25 x"

definition fips_sigma0 :: "u32 \<Rightarrow> u32" where
  "fips_sigma0 x = word_rotr 7 x XOR word_rotr 18 x XOR drop_bit 3 x"

definition fips_sigma1 :: "u32 \<Rightarrow> u32" where
  "fips_sigma1 x = word_rotr 17 x XOR word_rotr 19 x XOR drop_bit 10 x"

definition be_word32 :: "bytes \<Rightarrow> u32" where
  "be_word32 bs = foldl (\<lambda>acc b. acc * 256 + ucast b) 0 bs"

definition be_bytes32 :: "u32 \<Rightarrow> bytes" where
  "be_bytes32 v = map (\<lambda>s. ucast (drop_bit s v)) [24, 16, 8, 0]"

definition be_bytes64 :: "u64 \<Rightarrow> bytes" where
  "be_bytes64 v = map (\<lambda>s. ucast (drop_bit s v)) [56, 48, 40, 32, 24, 16, 8, 0]"

text \<open>The message schedule of one block, by its recurrence.\<close>

fun fips_W :: "bytes \<Rightarrow> nat \<Rightarrow> u32" where
  "fips_W block t =
     (if t < 16 then be_word32 (take 4 (drop (4 * t) block))
      else fips_sigma1 (fips_W block (t - 2)) + fips_W block (t - 7) +
           fips_sigma0 (fips_W block (t - 15)) + fips_W block (t - 16))"

declare fips_W.simps [simp del]

definition fips_round :: "bytes \<Rightarrow> vars \<Rightarrow> nat \<Rightarrow> vars" where
  "fips_round block = (\<lambda>(a, b, c, d, e, f, g, h) t.
     (let T1 = h + fips_Sigma1 e + fips_Ch e f g + kRoundConstants ! t + fips_W block t;
          T2 = fips_Sigma0 a + fips_Maj a b c
      in (T1 + T2, a, b, c, d + T1, e, f, g)))"

definition fips_compress :: "u32 list \<Rightarrow> bytes \<Rightarrow> u32 list" where
  "fips_compress H block =
     (let (a, b, c, d, e, f, g, h) = foldl (fips_round block)
            (H ! 0, H ! 1, H ! 2, H ! 3, H ! 4, H ! 5, H ! 6, H ! 7) [0..<64]
      in [a + H ! 0, b + H ! 1, c + H ! 2, d + H ! 3, e + H ! 4, f + H ! 5, g + H ! 6, h + H ! 7])"

definition fips_pad :: "bytes \<Rightarrow> bytes" where
  "fips_pad msg = msg @ [0x80] @ replicate ((119 - length msg mod 64) mod 64) 0 @
     be_bytes64 (of_nat (8 * length msg))"

fun fips_blocks :: "bytes \<Rightarrow> bytes list" where
  "fips_blocks bs = (if bs = [] then [] else take 64 bs # fips_blocks (drop 64 bs))"

declare fips_blocks.simps [simp del]

definition fips_sha256 :: "bytes \<Rightarrow> Hash256" where
  "fips_sha256 msg =
     concat (map be_bytes32 (foldl fips_compress initial_state (fips_blocks (fips_pad msg))))"

section \<open>Rotations, words and the schedule\<close>

lemma rotr_word_rotr: "0 < n \<Longrightarrow> n < 32 \<Longrightarrow> rotr x n = word_rotr n x"
proof (rule bit_word_eqI)
  fix m
  assume n: "0 < n" "n < 32" and m: "m < LENGTH(32)"
  show "bit (rotr x n) m = bit (word_rotr n x) m"
  proof (cases "m + n < 32")
    case True
    then have "\<not> 32 - n \<le> m" by simp
    with True show ?thesis using n m by (simp add: rotr_def bit_simps add.commute)
  next
    case False
    then have "(n + m) mod 32 = m - (32 - n)"
      using n m by (simp add: mod_if) linarith
    then show ?thesis using False n m
      by (auto simp: rotr_def bit_simps add.commute [of m n] dest: bit_imp_le_length)
  qed
qed

lemma sigma_eqs:
  "rotr x 2 XOR rotr x 13 XOR rotr x 22 = fips_Sigma0 x"
  "rotr x 6 XOR rotr x 11 XOR rotr x 25 = fips_Sigma1 x"
  "rotr x 7 XOR rotr x 18 XOR drop_bit 3 x = fips_sigma0 x"
  "rotr x 17 XOR rotr x 19 XOR drop_bit 10 x = fips_sigma1 x"
  by (simp_all add: rotr_word_rotr fips_Sigma0_def fips_Sigma1_def fips_sigma0_def fips_sigma1_def)

lemma be_word32_or:
  "push_bit 24 (ucast a) OR push_bit 16 (ucast b) OR push_bit 8 (ucast c) OR ucast d =
     be_word32 [a, b, c, d]" (is "?A OR ?B OR ?C OR ?D = _")
proof -
  have high: "\<not> bit x (n - k)" if "k + 8 \<le> n" for x :: byte and n k :: nat
    using that by auto
  have "?C OR ?D = ?C + ?D"
    by (rule disjunctive_add [symmetric]) (auto simp: bit_simps)
  moreover have "?B OR ?C OR ?D = ?B + (?C OR ?D)"
    by (rule disjunctive_add [symmetric]) (auto simp: bit_simps high)
  moreover have "?A OR ?B OR ?C OR ?D = ?A + (?B OR ?C OR ?D)"
    by (rule disjunctive_add [symmetric]) (auto simp: bit_simps high)
  ultimately show ?thesis
    by (simp add: be_word32_def push_bit_eq_mult algebra_simps)
qed

lemma load_words_nth:
  assumes "length block = 64" and "i < 16"
  shows "load_words block ! i = be_word32 (take 4 (drop (4 * i) block))"
proof -
  let ?f = "\<lambda>i. push_bit 24 (ucast (block ! (i * 4 + 0))) OR
       push_bit 16 (ucast (block ! (i * 4 + 1))) OR
       push_bit 8 (ucast (block ! (i * 4 + 2))) OR ucast (block ! (i * 4 + 3)) :: u32"
  have fill: "foldl (\<lambda>w i. w[i := f i]) w [0..<n] = map f [0..<n] @ drop n w"
    if "n \<le> length w" for n and w :: "u32 list" and f
    using that
  proof (induction n)
    case (Suc n)
    then show ?case by (simp add: list_update_append Cons_nth_drop_Suc [symmetric])
  qed simp
  have "take 4 (drop (4 * i) block) = map (\<lambda>j. block ! (4 * i + j)) [0..<4]"
    using assms by (simp only: map_nth_drop_upt [of "4 * i" 4 block])
  then show ?thesis
    using assms fill [of 16 "replicate 64 0" ?f]
    by (simp add: load_words_def nth_append be_word32_or [symmetric] mult.commute
        del: upt_rec_numeral)
qed

lemma length_foldl: "(\<And>w i. length (f w i) = length w) \<Longrightarrow> length (foldl f w xs) = length w"
  by (induction xs arbitrary: w) auto

lemma length_words [simp]:
  "length (load_words block) = 64" "length (extend_words w) = length w"
proof -
  show "length (load_words block) = 64"
    unfolding load_words_def by (subst length_foldl) simp_all
  show "length (extend_words w) = length w"
    unfolding extend_words_def by (rule length_foldl) (simp add: Let_def)
qed

text \<open>The array \<^verbatim>\<open>w\<close> holds the schedule of the standard.\<close>

lemma schedule_nth:
  assumes "length block = 64" and "t < 64"
  shows "extend_words (load_words block) ! t = fips_W block t"
proof -
  let ?step = "\<lambda>w i. w[i := w ! (i - 16) + fips_sigma0 (w ! (i - 15)) + w ! (i - 7) +
      fips_sigma1 (w ! (i - 2))]"
  have "16 \<le> n \<Longrightarrow> n \<le> 64 \<Longrightarrow>
      length (foldl ?step (load_words block) [16..<n]) = 64 \<and>
      (\<forall>t < n. foldl ?step (load_words block) [16..<n] ! t = fips_W block t)" for n
  proof (induction n rule: dec_induct)
    case base
    then show ?case using assms(1) by (simp add: load_words_nth fips_W.simps)
  next
    case (step n)
    then have IH: "length (foldl ?step (load_words block) [16..<n]) = 64"
      "\<And>t. t < n \<Longrightarrow> foldl ?step (load_words block) [16..<n] ! t = fips_W block t" by auto
    have "fips_W block n = fips_W block (n - 16) + fips_sigma0 (fips_W block (n - 15)) +
        fips_W block (n - 7) + fips_sigma1 (fips_W block (n - 2))"
      using step.hyps by (subst fips_W.simps) (simp add: algebra_simps)
    then show ?case using step.hyps step.prems IH
      by (auto simp: nth_list_update less_Suc_eq)
  qed
  moreover have "extend_words (load_words block) = foldl ?step (load_words block) [16..<64]"
    by (simp only: extend_words_def Let_def sigma_eqs)
  ultimately show ?thesis using assms(2) by (simp del: upt_rec_numeral)
qed

lemma process_block_compress:
  assumes "length block = 64"
  shows "sha_state (process_block block ctx) = fips_compress (sha_state ctx) block"
proof -
  have round: "sha_round (extend_words (load_words block)) v i = fips_round block v i" if "i < 64" for v i
    using that by (simp add: sha_round_def fips_round_def sigma_eqs schedule_nth assms
        fips_Ch_def fips_Maj_def split: prod.splits)
  have "foldl (sha_round (extend_words (load_words block))) v [0..<64] =
      foldl (fips_round block) v [0..<64]" for v
    by (rule foldl_cong) (auto simp: round)
  then show ?thesis
    by (simp add: process_block_def fips_compress_def Let_def add.commute del: upt_rec_numeral
        split: prod.splits)
qed

lemma process_block_frame [simp]:
  "sha_buffer (process_block block ctx) = sha_buffer ctx"
  "sha_buffer_len (process_block block ctx) = sha_buffer_len ctx"
  "sha_total_bytes (process_block block ctx) = sha_total_bytes ctx"
  by (simp_all add: process_block_def Let_def del: upt_rec_numeral split: prod.splits)

section \<open>Streaming is padding the whole message\<close>

definition pending :: "Sha256 \<Rightarrow> bytes" where
  "pending ctx = take (sha_buffer_len ctx) (sha_buffer ctx)"

text \<open>The class invariant of the context between two calls.\<close>

definition wf_sha :: "Sha256 \<Rightarrow> bool" where
  "wf_sha ctx \<longleftrightarrow> length (sha_buffer ctx) = 64 \<and> sha_buffer_len ctx < 64"

text \<open>
  \<open>absorbed ctx data\<close>: the context has consumed \<open>data\<close>. The full blocks are folded into
  the state, the rest is pending in the buffer.
\<close>

definition absorbed :: "Sha256 \<Rightarrow> bytes \<Rightarrow> bool" where
  "absorbed ctx data \<longleftrightarrow> wf_sha ctx \<and> sha_total_bytes ctx = of_nat (length data) \<and>
     (\<exists>blocks. (\<forall>b \<in> set blocks. length b = 64) \<and> data = concat blocks @ pending ctx \<and>
        sha_state ctx = foldl fips_compress initial_state blocks)"

lemma push_byte_frame [simp]:
  "sha_state (push_byte b ctx) = sha_state ctx"
  "sha_total_bytes (push_byte b ctx) = sha_total_bytes ctx"
  "sha_buffer_len (push_byte b ctx) = sha_buffer_len ctx + 1"
  "length (sha_buffer (push_byte b ctx)) = length (sha_buffer ctx)"
  by (simp_all add: push_byte_def)

lemma pending_push_byte [simp]:
  "sha_buffer_len ctx < length (sha_buffer ctx) \<Longrightarrow> pending (push_byte b ctx) = pending ctx @ [b]"
  by (simp add: pending_def push_byte_def take_Suc_conv_app_nth)

lemma length_pending:
  "sha_buffer_len ctx \<le> length (sha_buffer ctx) \<Longrightarrow> length (pending ctx) = sha_buffer_len ctx"
  by (simp add: pending_def)

lemma pending_full: "sha_buffer_len ctx = length (sha_buffer ctx) \<Longrightarrow> pending ctx = sha_buffer ctx"
  by (simp add: pending_def)

lemma update_byte_absorbed:
  assumes "absorbed ctx data"
  shows "absorbed (update_byte ctx b) (data @ [b])"
proof -
  obtain blocks where wf: "length (sha_buffer ctx) = 64" "sha_buffer_len ctx < 64"
    and total: "sha_total_bytes ctx = of_nat (length data)"
    and blocks: "\<forall>b \<in> set blocks. length b = 64" "data = concat blocks @ pending ctx"
      "sha_state ctx = foldl fips_compress initial_state blocks"
    using assms by (auto simp: absorbed_def wf_sha_def)
  show ?thesis
  proof (cases "sha_buffer_len ctx + 1 = 64")
    case True
    then have full: "sha_buffer (push_byte b ctx) = pending ctx @ [b]"
      using pending_full [of "push_byte b ctx"] wf by simp
    have len: "length (pending ctx) = 63" using True wf by (simp add: length_pending)
    show ?thesis
      unfolding absorbed_def
      using True wf total blocks full len
      by (auto simp: update_byte_def Let_def wf_sha_def pending_def [of "_\<lparr>sha_buffer_len := _, sha_total_bytes := _\<rparr>"]
          process_block_compress intro!: exI [of _ "blocks @ [pending ctx @ [b]]"])
  next
    case False
    then show ?thesis
      using wf total blocks pending_push_byte [of ctx b]
      by (auto simp: absorbed_def update_byte_def Let_def wf_sha_def pending_def
          intro!: exI [of _ blocks])
  qed
qed

lemma sha_update_absorbed: "absorbed (sha_update data new_sha256) data"
proof -
  have "absorbed (foldl update_byte ctx xs) (pre @ xs)" if "absorbed ctx pre" for ctx pre xs
    using that
  proof (induction xs arbitrary: ctx pre)
    case (Cons x xs)
    from Cons.IH [OF update_byte_absorbed [OF Cons.prems, of x]] show ?case by simp
  qed simp
  moreover have "absorbed new_sha256 []"
    by (auto simp: absorbed_def wf_sha_def new_sha256_def pending_def intro: exI [of _ "[]"])
  ultimately show ?thesis unfolding sha_update_def by force
qed

text \<open>What the zero-filling loop leaves in the buffer.\<close>

lemma zero_fill_spec:
  assumes "length (sha_buffer ctx) = 64" and "limit \<le> 64" and "sha_buffer_len ctx \<le> limit"
  shows "pending (zero_fill limit ctx) = pending ctx @ replicate (limit - sha_buffer_len ctx) 0 \<and>
    sha_buffer_len (zero_fill limit ctx) = limit \<and> length (sha_buffer (zero_fill limit ctx)) = 64 \<and>
    sha_state (zero_fill limit ctx) = sha_state ctx"
  using assms
proof (induction limit ctx rule: zero_fill.induct)
  case (1 limit ctx)
  show ?case
  proof (cases "sha_buffer_len ctx < limit")
    case True
    then have "replicate (limit - sha_buffer_len ctx) (0 :: byte) =
        0 # replicate (limit - (sha_buffer_len ctx + 1)) 0"
      by (simp add: Suc_diff_Suc flip: replicate_Suc)
    then show ?thesis
      using "1.IH" True "1.prems" by (subst (1 2 3 4) zero_fill.simps) simp
  next
    case False
    then show ?thesis using "1.prems" by (subst (1 2 3 4) zero_fill.simps) simp
  qed
qed

lemma push_bytes_spec:
  assumes "sha_buffer_len ctx + length xs \<le> length (sha_buffer ctx)"
  shows "pending (foldl (\<lambda>ctx x. push_byte x ctx) ctx xs) = pending ctx @ xs \<and>
    sha_buffer_len (foldl (\<lambda>ctx x. push_byte x ctx) ctx xs) = sha_buffer_len ctx + length xs \<and>
    length (sha_buffer (foldl (\<lambda>ctx x. push_byte x ctx) ctx xs)) = length (sha_buffer ctx) \<and>
    sha_state (foldl (\<lambda>ctx x. push_byte x ctx) ctx xs) = sha_state ctx"
  using assms by (induction xs arbitrary: ctx) auto

lemma fips_blocks_append:
  "length b = 64 \<Longrightarrow> fips_blocks (b @ bs) = b # fips_blocks bs"
  by (subst fips_blocks.simps) auto

lemma fips_blocks_Nil [simp]: "fips_blocks [] = []"
  by (subst fips_blocks.simps) simp

lemma fips_blocks_concat:
  "\<forall>b \<in> set blocks. length b = 64 \<Longrightarrow> fips_blocks (concat blocks @ bs) = blocks @ fips_blocks bs"
  by (induction blocks) (auto simp: fips_blocks_append)

lemma list_update_numeral:
  "(x # xs)[numeral n := v] = x # xs[pred_numeral n := v]"
  by (simp add: numeral_eq_Suc)

lemma write_digest_spec:
  assumes "length st = 8"
  shows "write_digest st = concat (map be_bytes32 st)"
proof -
  have zeros: "replicate 32 (0 :: byte) = [0, 0, 0, 0, 0, 0, 0, 0, 0, 0, 0, 0, 0, 0, 0, 0,
      0, 0, 0, 0, 0, 0, 0, 0, 0, 0, 0, 0, 0, 0, 0, 0]"
    by code_simp
  obtain a b c d e f g h where "st = [a, b, c, d, e, f, g, h]"
    using assms by (auto simp: length_Suc_conv numeral_eq_Suc)
  then show ?thesis
    by (simp add: write_digest_def be_bytes32_def and_mask_byte zeros list_update_numeral upt_8)
qed

definition finish :: "u64 \<Rightarrow> Sha256 \<Rightarrow> Sha256" where
  "finish bits ctx =
     (let ctx = foldl (\<lambda>ctx i. push_byte (ucast (drop_bit (i * 8) bits AND 0xff)) ctx)
                  (zero_fill 56 ctx) [7, 6, 5, 4, 3, 2, 1, 0]
      in process_block (sha_buffer ctx) ctx)"

lemma finish_spec:
  assumes len: "length (sha_buffer ctx) = 64" "sha_buffer_len ctx \<le> 56"
  shows "sha_state (finish bits ctx) = fips_compress (sha_state ctx)
    (pending ctx @ replicate (56 - sha_buffer_len ctx) 0 @ be_bytes64 bits)"
proof -
  define c where "c = zero_fill 56 ctx"
  define c' where "c' = foldl (\<lambda>ctx x. push_byte x ctx) c (be_bytes64 bits)"
  have c: "pending c = pending ctx @ replicate (56 - sha_buffer_len ctx) 0"
    "sha_buffer_len c = 56" "length (sha_buffer c) = 64" "sha_state c = sha_state ctx"
    using zero_fill_spec [of ctx 56] len by (simp_all add: c_def)
  have "length (be_bytes64 bits) = 8" by (simp add: be_bytes64_def)
  then have c': "pending c' = pending c @ be_bytes64 bits" "sha_buffer_len c' = 64"
    "length (sha_buffer c') = 64" "sha_state c' = sha_state c"
    using push_bytes_spec [of c "be_bytes64 bits"] c by (simp_all add: c'_def)
  then have "sha_buffer c' = pending c @ be_bytes64 bits" using pending_full [of c'] by simp
  moreover have "finish bits ctx = process_block (sha_buffer c') c'"
    by (simp add: finish_def c'_def c_def be_bytes64_def and_mask_byte Let_def)
  ultimately show ?thesis using c c' by (simp add: process_block_compress)
qed

lemma sha_finalize_finish:
  "sha_finalize ctx = write_digest (sha_state (finish (sha_total_bytes ctx * 8)
     (let ctx = push_byte 0x80 ctx
      in if sha_buffer_len ctx > 56
         then (let ctx = zero_fill 64 ctx
               in (process_block (sha_buffer ctx) ctx)\<lparr>sha_buffer_len := 0\<rparr>)
         else ctx)))"
  by (simp add: sha_finalize_def finish_def Let_def)

lemma length_fips_compress [simp]: "length (fips_compress st b) = 8"
  by (simp add: fips_compress_def Let_def split: prod.splits)

text \<open>
  The padding of a message whose last, incomplete block is \<open>rest\<close>: it fits into that block, or it
  takes a block more.
\<close>

lemma length_concat_blocks: "\<forall>b \<in> set blocks. length b = 64 \<Longrightarrow> length (concat blocks) mod 64 = 0"
  by (induction blocks) auto

lemma pad_short:
  assumes blocks: "\<forall>b \<in> set blocks. length b = 64" and rest: "length rest < 56"
  shows "fips_blocks (fips_pad (concat blocks @ rest)) = blocks @ [rest @ [0x80] @ replicate (55 - length rest) 0 @
    be_bytes64 (of_nat (8 * length (concat blocks @ rest)))]"
proof -
  let ?data = "concat blocks @ rest"
  have len: "length ?data mod 64 = length rest"
    using length_concat_blocks [OF blocks] rest by (simp add: mod_add_left_eq [symmetric])
  have zeros: "(119 - length rest) mod 64 = 55 - length rest" using rest by (subst le_mod_geq) auto
  have "fips_pad ?data = concat blocks @ (rest @ [0x80] @ replicate (55 - length rest) 0 @ be_bytes64 (of_nat (8 * length ?data)))"
    unfolding fips_pad_def len zeros by simp
  then show ?thesis
    using fips_blocks_concat [OF blocks] fips_blocks_append [of _ "[]"] rest by (simp add: be_bytes64_def)
qed

lemma pad_long:
  assumes blocks: "\<forall>b \<in> set blocks. length b = 64" and rest: "56 \<le> length rest" "length rest < 64"
  shows "fips_blocks (fips_pad (concat blocks @ rest)) = blocks @ [rest @ [0x80] @ replicate (63 - length rest) 0,
    replicate 56 0 @ be_bytes64 (of_nat (8 * length (concat blocks @ rest)))]"
proof -
  let ?data = "concat blocks @ rest"
  let ?b1 = "rest @ [0x80] @ replicate (63 - length rest) 0"
    and ?b2 = "replicate 56 0 @ be_bytes64 (of_nat (8 * length ?data))"
  have len: "length ?data mod 64 = length rest"
    using length_concat_blocks [OF blocks] rest(2) by (simp add: mod_add_left_eq [symmetric])
  have "(119 - length rest) mod 64 = 119 - length rest" using rest by simp
  also have "\<dots> = (63 - length rest) + 56" using rest by simp
  finally have zeros: "(119 - length rest) mod 64 = (63 - length rest) + 56" .
  have "fips_pad ?data = concat blocks @ (?b1 @ ?b2)"
    by (simp only: fips_pad_def len zeros replicate_add append_assoc)
  moreover have "length ?b1 = 64" "length ?b2 = 64" using rest by (simp_all add: be_bytes64_def)
  ultimately show ?thesis
    using fips_blocks_concat [OF blocks] fips_blocks_append [of ?b1 ?b2] fips_blocks_append [of ?b2 "[]"] by simp
qed

lemma sha_finalize_absorbed:
  assumes "absorbed ctx data"
  shows "sha_finalize ctx = fips_sha256 data"
proof -
  obtain blocks where wf: "length (sha_buffer ctx) = 64" "sha_buffer_len ctx < 64"
    and total: "sha_total_bytes ctx = of_nat (length data)"
    and blocks: "\<forall>b \<in> set blocks. length b = 64" "data = concat blocks @ pending ctx"
      "sha_state ctx = foldl fips_compress initial_state blocks"
    using assms by (auto simp: absorbed_def wf_sha_def)
  let ?n = "sha_buffer_len ctx" and ?bits = "be_bytes64 (of_nat (8 * length data))"
  have bits: "sha_total_bytes ctx * 8 = of_nat (8 * length data)" by (simp add: total)
  have n: "length (pending ctx) = ?n" using wf by (simp add: length_pending)
  show ?thesis
  proof (cases "?n < 56")
    case True
    have "sha_state (finish (sha_total_bytes ctx * 8) (push_byte 0x80 ctx)) =
        fips_compress (sha_state ctx) (pending ctx @ [0x80] @ replicate (55 - ?n) 0 @ ?bits)"
      using wf True by (subst finish_spec) (auto simp: bits)
    then show ?thesis
      using True blocks(3) pad_short [OF blocks(1), of "pending ctx", unfolded n, folded blocks(2)]
      by (simp add: sha_finalize_finish fips_sha256_def write_digest_spec)
  next
    case False
    let ?c = "zero_fill 64 (push_byte 0x80 ctx)"
    let ?b1 = "pending ctx @ [0x80] @ replicate (63 - ?n) 0" and ?b2 = "replicate 56 0 @ ?bits"
    have c: "sha_buffer_len ?c = 64" "length (sha_buffer ?c) = 64" "pending ?c = ?b1" "sha_state ?c = sha_state ctx"
      using zero_fill_spec [of "push_byte 0x80 ctx" 64] wf by auto
    then have "sha_buffer ?c = ?b1" using pending_full [of ?c] by simp
    moreover have "length ?b1 = 64" using n wf by simp
    ultimately have "sha_state (finish (sha_total_bytes ctx * 8)
        ((process_block (sha_buffer ?c) ?c)\<lparr>sha_buffer_len := 0\<rparr>)) =
        fips_compress (fips_compress (sha_state ctx) ?b1) ?b2"
      using c by (subst finish_spec) (auto simp: bits pending_def process_block_compress)
    then show ?thesis
      using False wf(2) blocks(3) pad_long [OF blocks(1), of "pending ctx", unfolded n, folded blocks(2)]
      by (simp add: sha_finalize_finish fips_sha256_def write_digest_spec Let_def)
  qed
qed

lemma sha256_fips: "sha256 data = fips_sha256 data"
  unfolding sha256_def by (intro sha_finalize_absorbed sha_update_absorbed)

lemma fips_blocks_eq_Nil [simp]: "fips_blocks bs = [] \<longleftrightarrow> bs = []"
  by (subst fips_blocks.simps) simp

lemma length_sha256 [simp]: "length (sha256 data) = 32"
proof -
  have "length (foldl fips_compress st bs) = 8" if "length st = 8" for st bs
    using that by (induction bs arbitrary: st) simp_all
  moreover have "length initial_state = 8" by (simp add: initial_state_def)
  ultimately have "length (foldl fips_compress initial_state bs) = 8" for bs by blast
  then show ?thesis
    by (simp add: sha256_fips fips_sha256_def length_concat comp_def be_bytes32_def sum_list_triv)
qed

lemma wf_hash_sha [simp]: "wf_hash (sha256 data)" "wf_hash (sha256d data)" "wf_hash zero_hash"
  by (simp_all add: wf_hash_def sha256d_def zero_hash_def)

text \<open>C18. The streaming hasher computes SHA-256 as FIPS 180-4 defines it, for every input: the
  byte-wise buffering, the two padding paths of \<^verbatim>\<open>finalize\<close> and the in-place message schedule
  give the digest of the padded message, block by block.\<close>

theorem sha256_is_fips_180_4: "sha256 data = fips_sha256 data"
  by (rule sha256_fips)

end
