(* ===== verification/Transaction.thy ===== *)
theory Transaction
  imports Byte_IO Sha256_Correct
begin

text \<open>
  \<^verbatim>\<open>protocol/transaction.hpp\<close>, \<^verbatim>\<open>src/protocol/transaction.cpp\<close> and \<^verbatim>\<open>protocol/constants.hpp\<close>:
  transactions, their canonical encoding, ids and coinbases. The transaction parser and
  serializer keep the \<open>codec\<close> contract, which gives the round trip, canonicity and the
  rejection of truncated or oversized encodings.
\<close>

section \<open>Protocol constants\<close>

definition kProtocolVersion :: u32 where "kProtocolVersion = 1"
definition kTransactionVersion :: u32 where "kTransactionVersion = 1"
definition kBlockVersion :: u32 where "kBlockVersion = 1"
definition kMaxBlockSizeBytes :: u32 where "kMaxBlockSizeBytes = 1024 * 1024"
definition kMaxTransactionSizeBytes :: u32 where "kMaxTransactionSizeBytes = 64 * 1024"
definition kMaxInputsPerTransaction :: u32 where "kMaxInputsPerTransaction = 4096"
definition kMaxOutputsPerTransaction :: u32 where "kMaxOutputsPerTransaction = 4096"
definition kMaxTransactionsPerBlock :: u32 where "kMaxTransactionsPerBlock = 65536"
definition kMaxMoney :: u64 where "kMaxMoney = 21000000 * 100000000"
definition kNullPrevoutIndex :: u32 where "kNullPrevoutIndex = 0xFFFFFFFF"
definition kDefaultBlockSubsidy :: u64 where "kDefaultBlockSubsidy = 50 * 100000000"
definition kDefaultCoinbaseMaturity :: u32 where "kDefaultCoinbaseMaturity = 100"

lemmas protocol_constants = kProtocolVersion_def kTransactionVersion_def kBlockVersion_def
  kMaxBlockSizeBytes_def kMaxTransactionSizeBytes_def kMaxInputsPerTransaction_def
  kMaxOutputsPerTransaction_def kMaxTransactionsPerBlock_def kMaxMoney_def
  kNullPrevoutIndex_def kDefaultBlockSubsidy_def kDefaultCoinbaseMaturity_def

section \<open>Data\<close>

record OutPoint =
  op_txid :: Hash256
  op_index :: u32

record TxInput =
  in_prevout :: OutPoint

record TxOutput =
  out_value :: u64
  out_recipient :: Hash256

record Transaction =
  tx_version :: u32
  tx_inputs :: "TxInput list"
  tx_outputs :: "TxOutput list"
  tx_lock_time :: u32

text \<open>Values of the C++ types: every \<open>Hash256\<close> is an array of 32 bytes.\<close>

definition wf_outpoint :: "OutPoint \<Rightarrow> bool" where
  "wf_outpoint op \<longleftrightarrow> wf_hash (op_txid op)"

definition wf_input :: "TxInput \<Rightarrow> bool" where
  "wf_input input \<longleftrightarrow> wf_outpoint (in_prevout input)"

definition wf_output :: "TxOutput \<Rightarrow> bool" where
  "wf_output output \<longleftrightarrow> wf_hash (out_recipient output)"

definition wf_tx :: "Transaction \<Rightarrow> bool" where
  "wf_tx tx \<longleftrightarrow> list_all wf_input (tx_inputs tx) \<and> list_all wf_output (tx_outputs tx)"

text \<open>Transactions the parser accepts: the structural limits on both counts.\<close>

definition encodable_tx :: "Transaction \<Rightarrow> bool" where
  "encodable_tx tx \<longleftrightarrow> wf_tx tx \<and>
     length (tx_inputs tx) \<le> unat kMaxInputsPerTransaction \<and>
     length (tx_outputs tx) \<le> unat kMaxOutputsPerTransaction"

section \<open>Encoding\<close>

definition put_input :: "TxInput \<Rightarrow> ByteWriter \<Rightarrow> ByteWriter" where
  "put_input input w = put_u32 (op_index (in_prevout input)) (put_hash (op_txid (in_prevout input)) w)"

definition put_output :: "TxOutput \<Rightarrow> ByteWriter \<Rightarrow> ByteWriter" where
  "put_output output w = put_hash (out_recipient output) (put_u64 (out_value output) w)"

definition tx_serialize :: "Transaction \<Rightarrow> ByteWriter \<Rightarrow> ByteWriter" where
  "tx_serialize tx w =
     (let w = put_u32 (tx_version tx) w;
          w = put_u32 (of_nat (length (tx_inputs tx))) w;
          w = foldl (\<lambda>w input. put_input input w) w (tx_inputs tx);
          w = put_u32 (of_nat (length (tx_outputs tx))) w;
          w = foldl (\<lambda>w output. put_output output w) w (tx_outputs tx)
      in put_u32 (tx_lock_time tx) w)"

definition get_input :: "TxInput parser" where
  "get_input r =
     bindR (get_hash r) (\<lambda>(txid, r).
     bindR (get_u32 r) (\<lambda>(index, r).
     Inr (\<lparr>in_prevout = \<lparr>op_txid = txid, op_index = index\<rparr>\<rparr>, r)))"

definition get_output :: "TxOutput parser" where
  "get_output r =
     bindR (get_u64 r) (\<lambda>(v, r).
     bindR (get_hash r) (\<lambda>(recipient, r).
     Inr (\<lparr>out_value = v, out_recipient = recipient\<rparr>, r)))"

definition tx_deserialize :: "Transaction parser" where
  "tx_deserialize r =
     bindR (get_u32 r) (\<lambda>(version, r).
     bindR (get_counted kMaxInputsPerTransaction get_input r) (\<lambda>(inputs, r).
     bindR (get_counted kMaxOutputsPerTransaction get_output r) (\<lambda>(outputs, r).
     bindR (get_u32 r) (\<lambda>(lock_time, r).
     Inr (\<lparr>tx_version = version, tx_inputs = inputs, tx_outputs = outputs,
           tx_lock_time = lock_time\<rparr>, r)))))"

definition tx_to_bytes :: "Transaction \<Rightarrow> bytes" where
  "tx_to_bytes tx = buffer (tx_serialize tx new_writer)"

definition tx_txid :: "Transaction \<Rightarrow> Hash256" where
  "tx_txid tx = sha256d (tx_to_bytes tx)"

section \<open>Coinbase transactions\<close>

definition is_coinbase :: "Transaction \<Rightarrow> bool" where
  "is_coinbase tx \<longleftrightarrow> length (tx_inputs tx) = 1 \<and>
     op_index (in_prevout (tx_inputs tx ! 0)) = kNullPrevoutIndex"

definition make_coinbase :: "u32 \<Rightarrow> u64 \<Rightarrow> Hash256 \<Rightarrow> Transaction" where
  "make_coinbase height v recipient =
     (let txid = foldl (\<lambda>txid i. txid[i := ucast (drop_bit (8 * i) height AND 0xff)])
                   zero_hash [0..<4]
      in \<lparr>tx_version = kTransactionVersion,
          tx_inputs = [\<lparr>in_prevout = \<lparr>op_txid = txid, op_index = kNullPrevoutIndex\<rparr>\<rparr>],
          tx_outputs = [\<lparr>out_value = v, out_recipient = recipient\<rparr>],
          tx_lock_time = 0\<rparr>)"

section \<open>The encoding keeps the codec contract\<close>

definition enc_input :: "TxInput \<Rightarrow> bytes" where
  "enc_input input = op_txid (in_prevout input) @ enc_u32 (op_index (in_prevout input))"

definition enc_output :: "TxOutput \<Rightarrow> bytes" where
  "enc_output output = enc_u64 (out_value output) @ out_recipient output"

definition enc_tx :: "Transaction \<Rightarrow> bytes" where
  "enc_tx tx = enc_u32 (tx_version tx) @ enc_counted enc_input (tx_inputs tx) @
     enc_counted enc_output (tx_outputs tx) @ enc_u32 (tx_lock_time tx)"

lemma buffer_put_input [wire_simps]: "buffer (put_input i w) = buffer w @ enc_input i"
  by (simp add: put_input_def enc_input_def wire_simps)

lemma buffer_put_output [wire_simps]: "buffer (put_output i w) = buffer w @ enc_output i"
  by (simp add: put_output_def enc_output_def wire_simps)

lemma buffer_tx_serialize [wire_simps]: "buffer (tx_serialize tx w) = buffer w @ enc_tx tx"
  by (simp add: tx_serialize_def enc_tx_def enc_counted_def wire_simps
      buffer_foldl_put [OF buffer_put_input] buffer_foldl_put [OF buffer_put_output])

lemma tx_to_bytes_enc [wire_simps]: "tx_to_bytes tx = enc_tx tx"
  by (simp add: tx_to_bytes_def wire_simps)

interpretation input_codec: codec enc_input get_input wf_input
proof unfold_locales
  fix r x r'
  show "get_input r = Inr (x, r') \<longleftrightarrow> wf_input x \<and> consumes r (enc_input x) r'"
    by (cases x; cases "in_prevout x")
      (auto simp: get_input_def enc_input_def wf_input_def wf_outpoint_def result_simps codec_iffs
        consumes_append)
qed

interpretation output_codec: codec enc_output get_output wf_output
proof unfold_locales
  fix r x r'
  show "get_output r = Inr (x, r') \<longleftrightarrow> wf_output x \<and> consumes r (enc_output x) r'"
    by (cases x) (auto simp: get_output_def enc_output_def wf_output_def result_simps codec_iffs
        consumes_append)
qed

interpretation tx_codec: codec enc_tx tx_deserialize encodable_tx
proof unfold_locales
  fix r x r'
  show "tx_deserialize r = Inr (x, r') \<longleftrightarrow> encodable_tx x \<and> consumes r (enc_tx x) r'"
    by (cases x)
      (auto simp: tx_deserialize_def enc_tx_def encodable_tx_def wf_tx_def result_simps codec_iffs
        input_codec.counted_iff output_codec.counted_iff consumes_append, blast)
qed

section \<open>Sizes and coinbases\<close>

lemma length_enc_input [wire_length]: "wf_input i \<Longrightarrow> length (enc_input i) = 36"
  by (simp add: enc_input_def wf_input_def wf_outpoint_def wf_hash_def)

lemma length_enc_output [wire_length]: "wf_output out \<Longrightarrow> length (enc_output out) = 40"
  by (simp add: enc_output_def wf_output_def wf_hash_def)

lemma length_enc_counted:
  "list_all ok xs \<Longrightarrow> (\<And>x. ok x \<Longrightarrow> length (enc x) = n) \<Longrightarrow> length (enc_counted enc xs) = 4 + length xs * n"
  by (induction xs) (auto simp: enc_counted_def)

lemma length_tx_to_bytes:
  "wf_tx tx \<Longrightarrow> length (tx_to_bytes tx) = 16 + 36 * length (tx_inputs tx) + 40 * length (tx_outputs tx)"
  using length_enc_counted [of wf_input "tx_inputs tx" enc_input 36]
    length_enc_counted [of wf_output "tx_outputs tx" enc_output 40]
  by (simp add: wire_simps enc_tx_def wf_tx_def wire_length)

lemma wf_hash_txid [simp]: "wf_hash (tx_txid tx)"
  by (simp add: tx_txid_def)

lemma make_coinbase_txid:
  "foldl (\<lambda>txid i. txid[i := ucast (drop_bit (8 * i) height AND 0xff)]) zero_hash [0..<4] =
     enc_u32 height @ replicate 28 0"
proof -
  have zero: "zero_hash = [0, 0, 0, 0] @ replicate 28 0" by (simp add: zero_hash_def numeral_eq_Suc)
  show ?thesis
    unfolding zero by (simp add: enc_u32_def and_mask_byte list_update_numeral del: upt_rec_numeral)
qed

lemma make_coinbase_eq:
  "make_coinbase height v recipient =
     \<lparr>tx_version = 1,
      tx_inputs = [\<lparr>in_prevout = \<lparr>op_txid = enc_u32 height @ replicate 28 0, op_index = kNullPrevoutIndex\<rparr>\<rparr>],
      tx_outputs = [\<lparr>out_value = v, out_recipient = recipient\<rparr>], tx_lock_time = 0\<rparr>"
  unfolding make_coinbase_def make_coinbase_txid by (simp add: kTransactionVersion_def)

lemma make_coinbase_simps [simp]:
  "is_coinbase (make_coinbase height v recipient)"
  "tx_outputs (make_coinbase height v recipient) = [\<lparr>out_value = v, out_recipient = recipient\<rparr>]"
  "tx_version (make_coinbase height v recipient) = kTransactionVersion"
  by (simp_all add: make_coinbase_eq is_coinbase_def kTransactionVersion_def)

lemma encodable_make_coinbase [simp]:
  "wf_hash recipient \<Longrightarrow> encodable_tx (make_coinbase height v recipient)"
  by (simp add: make_coinbase_eq encodable_tx_def wf_tx_def wf_input_def wf_outpoint_def wf_output_def
      wf_hash_def kMaxInputsPerTransaction_def kMaxOutputsPerTransaction_def)

lemma reader_error_tx_deserialize [simp]: "reader_error (tx_deserialize r)"
  by (auto simp: tx_deserialize_def get_input_def get_output_def split: prod.splits
      intro!: fails_with_bindR reader_error_get_counted)

section \<open>Properties\<close>

text \<open>C27. The transaction format is canonical. A byte string parses as a complete transaction
  exactly when it is the encoding of that transaction and the transaction is within the
  limits on inputs and outputs: nothing else is accepted, no transaction has two encodings,
  and what is serialized within the limits parses back unchanged.\<close>

theorem tx_parse_iff:
  "parse_all tx_deserialize bs = Inr tx \<longleftrightarrow> encodable_tx tx \<and> bs = tx_to_bytes tx"
  unfolding tx_to_bytes_enc by (rule tx_codec.parse_all_iff)

text \<open>A transaction cut short anywhere is rejected, with a parse or a resource-limit error.\<close>

lemma tx_truncated_rejected:
  assumes "encodable_tx tx" and "tx_to_bytes tx = p @ q" and "q \<noteq> []"
  shows "code_of (tx_deserialize (reader_of p)) \<in> {Some kParseError, Some kResourceLimitExceeded}"
  using tx_codec.truncated_rejected [OF assms(1) _ assms(3), of p] assms(2)
    reader_error_tx_deserialize [of "reader_of p"]
  by (cases "tx_deserialize (reader_of p)") (auto simp: wire_simps)

text \<open>Coinbases of different heights, values or recipients have different encodings, so
  their ids hash different byte strings: the height written into the unused outpoint keeps
  per-height coinbases apart.\<close>

lemma make_coinbase_distinct:
  assumes "wf_hash recipient" and "wf_hash recipient'"
    and "tx_to_bytes (make_coinbase height v recipient) = tx_to_bytes (make_coinbase height' v' recipient')"
  shows "height = height' \<and> v = v' \<and> recipient = recipient'"
  using tx_codec.enc_inject [of "make_coinbase height v recipient" "make_coinbase height' v' recipient'"]
    assms u32_codec.enc_inject [of height height']
  by (simp add: wire_simps) (simp add: make_coinbase_eq)

end
