(* ===== verification/Block.thy ===== *)
theory Block
  imports Transaction
begin

text \<open>
  \<^verbatim>\<open>protocol/block.hpp\<close> and \<^verbatim>\<open>src/protocol/block.cpp\<close>: headers, blocks, their encoding and the
  Merkle root over the transaction ids. The root is compared with a reference definition
  by level and position, and shown to commit to the transactions of a block.
\<close>

section \<open>Data\<close>

record BlockHeader =
  hdr_version :: u32
  hdr_prev_block :: Hash256
  hdr_merkle_root :: Hash256
  hdr_timestamp :: u64
  hdr_height :: u32

record Block =
  blk_header :: BlockHeader
  blk_transactions :: "Transaction list"

definition wf_header :: "BlockHeader \<Rightarrow> bool" where
  "wf_header h \<longleftrightarrow> wf_hash (hdr_prev_block h) \<and> wf_hash (hdr_merkle_root h)"

definition encodable_block :: "Block \<Rightarrow> bool" where
  "encodable_block b \<longleftrightarrow> wf_header (blk_header b) \<and>
     length (blk_transactions b) \<le> unat kMaxTransactionsPerBlock \<and>
     list_all encodable_tx (blk_transactions b)"

section \<open>Encoding\<close>

definition header_serialize :: "BlockHeader \<Rightarrow> ByteWriter \<Rightarrow> ByteWriter" where
  "header_serialize h w =
     (let w = put_u32 (hdr_version h) w;
          w = put_hash (hdr_prev_block h) w;
          w = put_hash (hdr_merkle_root h) w;
          w = put_u64 (hdr_timestamp h) w
      in put_u32 (hdr_height h) w)"

definition header_deserialize :: "BlockHeader parser" where
  "header_deserialize r =
     bindR (get_u32 r) (\<lambda>(version, r).
     bindR (get_hash r) (\<lambda>(prev_block, r).
     bindR (get_hash r) (\<lambda>(merkle_root, r).
     bindR (get_u64 r) (\<lambda>(timestamp, r).
     bindR (get_u32 r) (\<lambda>(height, r).
     Inr (\<lparr>hdr_version = version, hdr_prev_block = prev_block, hdr_merkle_root = merkle_root,
           hdr_timestamp = timestamp, hdr_height = height\<rparr>, r))))))"

definition header_hash :: "BlockHeader \<Rightarrow> Hash256" where
  "header_hash h = sha256d (buffer (header_serialize h new_writer))"

definition block_serialize :: "Block \<Rightarrow> ByteWriter \<Rightarrow> ByteWriter" where
  "block_serialize b w =
     (let w = header_serialize (blk_header b) w;
          w = put_u32 (of_nat (length (blk_transactions b))) w
      in foldl (\<lambda>w tx. tx_serialize tx w) w (blk_transactions b))"

definition block_deserialize :: "Block parser" where
  "block_deserialize r =
     bindR (header_deserialize r) (\<lambda>(header, r).
     bindR (get_counted kMaxTransactionsPerBlock tx_deserialize r) (\<lambda>(transactions, r).
     Inr (\<lparr>blk_header = header, blk_transactions = transactions\<rparr>, r)))"

definition block_to_bytes :: "Block \<Rightarrow> bytes" where
  "block_to_bytes b = buffer (block_serialize b new_writer)"

section \<open>The Merkle root\<close>

definition hash_pair :: "Hash256 \<Rightarrow> Hash256 \<Rightarrow> Hash256" where
  "hash_pair a b = sha256d (buffer (put_hash b (put_hash a new_writer)))"

fun pair_up :: "Hash256 list \<Rightarrow> Hash256 list" where
  "pair_up (a # b # rest) = hash_pair a b # pair_up rest"
| "pair_up _ = []"

definition pad_level :: "Hash256 list \<Rightarrow> Hash256 list" where
  "pad_level level = (if length level mod 2 \<noteq> 0 then level @ [last level] else level)"

definition merkle_next :: "Hash256 list \<Rightarrow> Hash256 list" where
  "merkle_next level = pair_up (pad_level level)"

lemma length_pair_up [simp]: "length (pair_up xs) = length xs div 2"
  by (induction xs rule: pair_up.induct) auto

lemma length_merkle_next [simp]: "length (merkle_next level) = (length level + 1) div 2"
  by (auto simp: merkle_next_def pad_level_def)

function merkle_reduce :: "Hash256 list \<Rightarrow> Hash256" where
  "merkle_reduce level = (if length level > 1 then merkle_reduce (merkle_next level) else hd level)"
  by pat_completeness auto
termination
  by (relation "measure length") auto

declare merkle_reduce.simps [simp del]

definition compute_merkle_root :: "Transaction list \<Rightarrow> Hash256" where
  "compute_merkle_root transactions =
     (if transactions = [] then zero_hash else merkle_reduce (map tx_txid transactions))"

section \<open>The encodings keep the codec contract\<close>

definition enc_header :: "BlockHeader \<Rightarrow> bytes" where
  "enc_header h = enc_u32 (hdr_version h) @ hdr_prev_block h @ hdr_merkle_root h @
     enc_u64 (hdr_timestamp h) @ enc_u32 (hdr_height h)"

definition enc_block :: "Block \<Rightarrow> bytes" where
  "enc_block b = enc_header (blk_header b) @ enc_counted enc_tx (blk_transactions b)"

lemma buffer_header_serialize [wire_simps]: "buffer (header_serialize h w) = buffer w @ enc_header h"
  by (simp add: header_serialize_def enc_header_def wire_simps Let_def)

lemma buffer_block_serialize [wire_simps]: "buffer (block_serialize b w) = buffer w @ enc_block b"
  by (simp add: block_serialize_def enc_block_def enc_counted_def wire_simps Let_def
      buffer_foldl_put [OF buffer_tx_serialize])

lemma block_to_bytes_enc [wire_simps]: "block_to_bytes b = enc_block b"
  by (simp add: block_to_bytes_def wire_simps)

interpretation header_codec: codec enc_header header_deserialize wf_header
proof unfold_locales
  fix r x r'
  show "header_deserialize r = Inr (x, r') \<longleftrightarrow> wf_header x \<and> consumes r (enc_header x) r'"
    by (cases x) (auto simp: header_deserialize_def enc_header_def wf_header_def result_simps
        codec_iffs consumes_append, blast)
qed

interpretation block_codec: codec enc_block block_deserialize encodable_block
proof unfold_locales
  fix r x r'
  show "block_deserialize r = Inr (x, r') \<longleftrightarrow> encodable_block x \<and> consumes r (enc_block x) r'"
    by (cases x) (auto simp: block_deserialize_def enc_block_def encodable_block_def result_simps
        header_codec.get_iff tx_codec.counted_iff consumes_append)
qed

lemma length_header_bytes: "wf_header h \<Longrightarrow> length (buffer (header_serialize h new_writer)) = 80"
  by (simp add: wire_simps enc_header_def wf_header_def wf_hash_def)

lemma wf_hash_header [simp]: "wf_hash (header_hash h)"
  by (simp add: header_hash_def)

section \<open>The Merkle root by level and position\<close>

text \<open>
  The reference definition: node \<open>i\<close> of level \<open>d + 1\<close> hashes nodes \<open>2 i\<close> and \<open>2 i + 1\<close> of level
  \<open>d\<close>, with the last node standing in for a missing right child. Level \<open>d\<close> over \<open>n\<close> leaves
  is \<open>merkle_width n d\<close> nodes wide.
\<close>

fun merkle_width :: "nat \<Rightarrow> nat \<Rightarrow> nat" where
  "merkle_width n 0 = n"
| "merkle_width n (Suc d) = (merkle_width n d + 1) div 2"

fun merkle_node :: "Hash256 list \<Rightarrow> nat \<Rightarrow> nat \<Rightarrow> Hash256" where
  "merkle_node leaves 0 i = leaves ! i"
| "merkle_node leaves (Suc d) i =
     hash_pair (merkle_node leaves d (2 * i))
       (merkle_node leaves d (min (2 * i + 1) (merkle_width (length leaves) d - 1)))"

lemma hash_pair_append: "hash_pair a b = sha256d (a @ b)"
  by (simp add: hash_pair_def wire_simps)

lemma nth_pair_up:
  "i < length xs div 2 \<Longrightarrow> pair_up xs ! i = hash_pair (xs ! (2 * i)) (xs ! (2 * i + 1))"
  by (induction xs arbitrary: i rule: pair_up.induct) (auto simp: nth_Cons split: nat.splits)

lemma nth_merkle_next:
  assumes "i < (length xs + 1) div 2"
  shows "merkle_next xs ! i = hash_pair (xs ! (2 * i)) (xs ! (min (2 * i + 1) (length xs - 1)))"
proof -
  have "i < length (pad_level xs) div 2" "2 * i < length xs" using assms by (auto simp: pad_level_def)
  moreover have "pad_level xs ! (2 * i + 1) = xs ! min (2 * i + 1) (length xs - 1)"
  proof (cases "2 * i + 1 < length xs")
    case True
    then show ?thesis by (auto simp: pad_level_def nth_append min_def)
  next
    case False
    with assms have "length xs = 2 * i + 1" "xs \<noteq> []" by auto
    then show ?thesis by (simp add: pad_level_def nth_append last_conv_nth)
  qed
  ultimately show ?thesis
    by (auto simp: merkle_next_def nth_pair_up pad_level_def nth_append)
qed

lemma length_merkle_levels: "length ((merkle_next ^^ d) xs) = merkle_width (length xs) d"
  by (induction d) auto

lemma nth_merkle_levels:
  "i < merkle_width (length xs) d \<Longrightarrow> (merkle_next ^^ d) xs ! i = merkle_node xs d i"
proof (induction d arbitrary: i)
  case (Suc d)
  let ?w = "merkle_width (length xs) d"
  have "2 * i < ?w" "min (2 * i + 1) (?w - 1) < ?w" using Suc.prems by auto
  with Suc show ?case by (simp add: nth_merkle_next length_merkle_levels)
qed simp

fun merkle_depth :: "nat \<Rightarrow> nat" where
  "merkle_depth n = (if n \<le> 1 then 0 else Suc (merkle_depth ((n + 1) div 2)))"

declare merkle_depth.simps [simp del]

lemma merkle_depth_least: "0 < n \<Longrightarrow> n \<le> 2 ^ d \<longleftrightarrow> merkle_depth n \<le> d"
proof (induction n arbitrary: d rule: merkle_depth.induct)
  case (1 n)
  show ?case
  proof (cases "n \<le> 1")
    case True
    with "1.prems" have "n = 1" by simp
    then show ?thesis by (simp add: merkle_depth.simps)
  next
    case False
    then have "n \<le> 2 ^ Suc d' \<longleftrightarrow> (n + 1) div 2 \<le> 2 ^ d'" for d' by auto
    with False "1.IH" show ?thesis by (subst merkle_depth.simps) (cases d; simp)
  qed
qed

lemma merkle_width_Suc: "merkle_width n (Suc d) = merkle_width ((n + 1) div 2) d"
  by (induction d) simp_all

lemma merkle_width_depth: "0 < n \<Longrightarrow> merkle_width n (merkle_depth n) = 1"
proof (induction n rule: merkle_depth.induct)
  case (1 n)
  then show ?case
    by (cases "n \<le> 1"; subst merkle_depth.simps)
      (auto simp: merkle_width_Suc simp del: merkle_width.simps(2))
qed

lemma merkle_reduce_levels:
  "merkle_reduce xs = hd ((merkle_next ^^ merkle_depth (length xs)) xs)"
proof (induction xs rule: merkle_reduce.induct)
  case (1 xs)
  then show ?case
    by (cases "length xs > 1"; subst merkle_reduce.simps; subst merkle_depth.simps)
      (auto simp: funpow_Suc_right simp del: funpow.simps)
qed

lemma merkle_reduce_node:
  assumes "xs \<noteq> []"
  shows "merkle_reduce xs = merkle_node xs (merkle_depth (length xs)) 0"
proof -
  let ?top = "(merkle_next ^^ merkle_depth (length xs)) xs"
  have "merkle_width (length xs) (merkle_depth (length xs)) = 1"
    using assms by (intro merkle_width_depth) simp
  then have "length ?top = 1" "?top ! 0 = merkle_node xs (merkle_depth (length xs)) 0"
    using length_merkle_levels [of "merkle_depth (length xs)" xs] nth_merkle_levels [of 0 xs]
    by simp_all
  then show ?thesis by (cases ?top) (simp_all add: merkle_reduce_levels)
qed

section \<open>The Merkle root commits to the transactions\<close>

text \<open>The byte strings hashed on the way from a level to the root.\<close>

fun pair_inputs :: "Hash256 list \<Rightarrow> bytes list" where
  "pair_inputs (a # b # rest) = (a @ b) # pair_inputs rest"
| "pair_inputs _ = []"

function merkle_inputs :: "Hash256 list \<Rightarrow> bytes list" where
  "merkle_inputs level =
     (if length level > 1 then pair_inputs (pad_level level) @ merkle_inputs (merkle_next level) else [])"
  by pat_completeness auto
termination
  by (relation "measure length") auto

declare merkle_inputs.simps [simp del]

definition merkle_preimages :: "Transaction list \<Rightarrow> bytes list" where
  "merkle_preimages txs = map tx_to_bytes txs @ merkle_inputs (map tx_txid txs)"

lemma pair_up_inputs: "pair_up xs = map sha256d (pair_inputs xs)"
  by (induction xs rule: pair_up.induct) (auto simp: hash_pair_append)

lemma pair_inputs_inject:
  "length xs = length ys \<Longrightarrow> even (length xs) \<Longrightarrow> list_all wf_hash xs \<Longrightarrow> list_all wf_hash ys \<Longrightarrow>
     pair_inputs xs = pair_inputs ys \<Longrightarrow> xs = ys"
proof (induction xs arbitrary: ys rule: pair_inputs.induct)
  case (1 a b rest)
  then show ?case
    by (cases ys rule: pair_inputs.cases) (auto simp: wf_hash_def)
qed auto

lemma pad_level_inject: "length xs = length ys \<Longrightarrow> pad_level xs = pad_level ys \<Longrightarrow> xs = ys"
  by (auto simp: pad_level_def split: if_splits)

lemma length_pad_level: "length (pad_level xs) = 2 * ((length xs + 1) div 2)"
  by (auto simp: pad_level_def) presburger+

lemma wf_pad_level: "list_all wf_hash xs \<Longrightarrow> list_all wf_hash (pad_level xs)"
  by (cases "xs = []") (auto simp: pad_level_def list_all_iff)

lemma wf_pair_up: "list_all wf_hash (pair_up xs)"
  by (auto simp: pair_up_inputs list_all_iff)

lemma merkle_reduce_inject:
  assumes "length xs = length ys" "xs \<noteq> []" "list_all wf_hash xs" "list_all wf_hash ys"
    and "inj_on sha256d (set (merkle_inputs xs) \<union> set (merkle_inputs ys))"
    and "merkle_reduce xs = merkle_reduce ys"
  shows "xs = ys"
  using assms
proof (induction xs arbitrary: ys rule: merkle_reduce.induct)
  case (1 xs)
  show ?case
  proof (cases "length xs > 1")
    case True
    let ?S = "set (merkle_inputs xs) \<union> set (merkle_inputs ys)"
    have len: "length ys > 1" using True "1.prems" by simp
    have sub: "set (pair_inputs (pad_level xs)) \<subseteq> ?S" "set (merkle_inputs (merkle_next xs)) \<subseteq> ?S"
      "set (pair_inputs (pad_level ys)) \<subseteq> ?S" "set (merkle_inputs (merkle_next ys)) \<subseteq> ?S"
      using True len by (auto simp: merkle_inputs.simps [of xs] merkle_inputs.simps [of ys])
    have ne: "merkle_next xs \<noteq> []" using True by (auto simp flip: length_greater_0_conv)
    have "merkle_next xs = merkle_next ys"
    proof (rule "1.IH" [OF True _ ne])
      show "inj_on sha256d (set (merkle_inputs (merkle_next xs)) \<union> set (merkle_inputs (merkle_next ys)))"
        by (rule inj_on_subset [OF "1.prems"(5)]) (use sub in blast)
      show "merkle_reduce (merkle_next xs) = merkle_reduce (merkle_next ys)"
        using "1.prems"(6) True len by (simp add: merkle_reduce.simps [of xs] merkle_reduce.simps [of ys])
    qed (use "1.prems" in \<open>auto simp: merkle_next_def wf_pair_up pad_level_def\<close>)
    then have "pair_inputs (pad_level xs) = pair_inputs (pad_level ys)"
      unfolding merkle_next_def pair_up_inputs
      by (rule map_inj_on) (rule inj_on_subset [OF "1.prems"(5)], use sub in blast)
    then have "pad_level xs = pad_level ys"
      using pair_inputs_inject [of "pad_level xs" "pad_level ys"] "1.prems"(1,3,4)
      by (simp add: length_pad_level wf_pad_level)
    with "1.prems"(1) show ?thesis by (rule pad_level_inject)
  next
    case False
    with "1.prems" show ?thesis
      by (cases xs; cases ys) (auto simp: merkle_reduce.simps)
  qed
qed

text \<open>Duplicating the last transaction of an odd level does not change the root.\<close>

lemma pad_level_idem: "odd (length xs) \<Longrightarrow> pad_level (xs @ [last xs]) = pad_level xs"
  by (simp add: pad_level_def odd_iff_mod_2_eq_one)

lemma merkle_reduce_duplicate:
  assumes "odd (length xs)" and "1 < length xs"
  shows "merkle_reduce (xs @ [last xs]) = merkle_reduce xs"
proof -
  have "merkle_next (xs @ [last xs]) = merkle_next xs"
    using assms by (simp add: merkle_next_def pad_level_idem)
  with assms show ?thesis by (subst (1 2) merkle_reduce.simps) auto
qed

section \<open>Properties\<close>

text \<open>C26. The block format is canonical: a byte string parses as a complete block exactly when it
  is the encoding of that block and the block, with each of its transactions, is within the
  structural limits.\<close>

theorem block_parse_iff:
  "parse_all block_deserialize bs = Inr b \<longleftrightarrow> encodable_block b \<and> bs = block_to_bytes b"
  unfolding block_to_bytes_enc by (rule block_codec.parse_all_iff)

text \<open>C29. The level-by-level loop computes the Merkle root of the reference definition, at the
  least depth whose perfect tree holds all the transactions; no transactions give the zero
  hash.\<close>

theorem merkle_root_reference:
  "compute_merkle_root [] = zero_hash \<and>
   compute_merkle_root (tx # txs) =
     merkle_node (map tx_txid (tx # txs)) (LEAST d. length (tx # txs) \<le> 2 ^ d) 0"
proof -
  have "(LEAST d. length (tx # txs) \<le> 2 ^ d) = merkle_depth (length (tx # txs))"
    using merkle_depth_least [of "length (tx # txs)"] by (intro Least_equality) auto
  then show ?thesis by (simp add: compute_merkle_root_def merkle_reduce_node)
qed



text \<open>Repeating the last transaction of an odd-length list leaves the Merkle root
  unchanged, because the loop duplicates the last node itself: the root alone does not tell
  such a block from the original.\<close>

lemma merkle_root_duplicate_last:
  assumes "odd (length txs)" and "1 < length txs"
  shows "compute_merkle_root (txs @ [last txs]) = compute_merkle_root txs"
proof -
  from assms have "txs \<noteq> []" by auto
  with assms show ?thesis
    using merkle_reduce_duplicate [of "map tx_txid txs"]
    by (simp add: compute_merkle_root_def last_map)
qed

end
