(* ===== verification/Std_Map.thy ===== *)
theory Std_Map
  imports Prelude
begin

text \<open>
  The ordered containers of the C++ standard library, as the repository uses them:
  \<^verbatim>\<open>std::map<K, V, Less>\<close> (\<^verbatim>\<open>find\<close>, \<^verbatim>\<open>try_emplace\<close>/\<^verbatim>\<open>emplace\<close>, \<^verbatim>\<open>operator[]\<close> as an
  assignment, \<^verbatim>\<open>erase\<close>, iteration in key order), \<^verbatim>\<open>std::set<K, Less>\<close> (\<^verbatim>\<open>insert(...).second\<close>)
  and \<^verbatim>\<open>std::sort\<close> with a comparator. A map is the list of its pairs in iteration order.
  As in C++, two keys are the same when neither is less than the other.

  The locale \<open>comparator\<close> states what C++ demands of \<open>Less\<close> (a strict order, here a
  total one), and every law of the containers is proved once inside it; the component
  theories interpret it for their comparators.
\<close>

section \<open>Containers\<close>

type_synonym ('k, 'v) std_map = "('k \<times> 'v) list"
type_synonym 'k std_set = "'k list"

definition key_equiv :: "('k \<Rightarrow> 'k \<Rightarrow> bool) \<Rightarrow> 'k \<Rightarrow> 'k \<Rightarrow> bool" where
  "key_equiv lt a b \<longleftrightarrow> \<not> lt a b \<and> \<not> lt b a"

fun map_find :: "('k \<Rightarrow> 'k \<Rightarrow> bool) \<Rightarrow> 'k \<Rightarrow> ('k, 'v) std_map \<Rightarrow> 'v option" where
  "map_find lt k [] = None"
| "map_find lt k ((k', v) # m) = (if key_equiv lt k k' then Some v else map_find lt k m)"

text \<open>\<^verbatim>\<open>try_emplace\<close> and \<^verbatim>\<open>emplace\<close> keep an existing entry.\<close>

fun map_emplace :: "('k \<Rightarrow> 'k \<Rightarrow> bool) \<Rightarrow> 'k \<Rightarrow> 'v \<Rightarrow> ('k, 'v) std_map \<Rightarrow> ('k, 'v) std_map" where
  "map_emplace lt k v [] = [(k, v)]"
| "map_emplace lt k v ((k', v') # m) =
     (if lt k k' then (k, v) # (k', v') # m
      else if lt k' k then (k', v') # map_emplace lt k v m
      else (k', v') # m)"

text \<open>\<^verbatim>\<open>m[k] = v\<close> replaces it.\<close>

fun map_assign :: "('k \<Rightarrow> 'k \<Rightarrow> bool) \<Rightarrow> 'k \<Rightarrow> 'v \<Rightarrow> ('k, 'v) std_map \<Rightarrow> ('k, 'v) std_map" where
  "map_assign lt k v [] = [(k, v)]"
| "map_assign lt k v ((k', v') # m) =
     (if lt k k' then (k, v) # (k', v') # m
      else if lt k' k then (k', v') # map_assign lt k v m
      else (k', v) # m)"

fun map_erase :: "('k \<Rightarrow> 'k \<Rightarrow> bool) \<Rightarrow> 'k \<Rightarrow> ('k, 'v) std_map \<Rightarrow> ('k, 'v) std_map" where
  "map_erase lt k [] = []"
| "map_erase lt k ((k', v') # m) =
     (if key_equiv lt k k' then m else (k', v') # map_erase lt k m)"

text \<open>The set's \<^verbatim>\<open>insert\<close> returns the new set and whether the key was new.\<close>

fun set_insert :: "('k \<Rightarrow> 'k \<Rightarrow> bool) \<Rightarrow> 'k \<Rightarrow> 'k std_set \<Rightarrow> 'k std_set \<times> bool" where
  "set_insert lt k [] = ([k], True)"
| "set_insert lt k (k' # s) =
     (if lt k k' then (k # k' # s, True)
      else if lt k' k then (let (s', b) = set_insert lt k s in (k' # s', b))
      else (k' # s, False))"

fun sort_insert :: "('a \<Rightarrow> 'a \<Rightarrow> bool) \<Rightarrow> 'a \<Rightarrow> 'a list \<Rightarrow> 'a list" where
  "sort_insert lt x [] = [x]"
| "sort_insert lt x (y # ys) = (if lt y x then y # sort_insert lt x ys else x # y # ys)"

text \<open>\<^verbatim>\<open>std::sort(first, last, lt)\<close>.\<close>

definition std_sort :: "('a \<Rightarrow> 'a \<Rightarrow> bool) \<Rightarrow> 'a list \<Rightarrow> 'a list" where
  "std_sort lt xs = foldr (sort_insert lt) xs []"

text \<open>The representation invariant: keys in strictly increasing order.\<close>

definition map_ok :: "('k \<Rightarrow> 'k \<Rightarrow> bool) \<Rightarrow> ('k, 'v) std_map \<Rightarrow> bool" where
  "map_ok lt m \<longleftrightarrow> sorted_wrt lt (map fst m)"

lemma map_ok_Nil [simp]: "map_ok lt []"
  by (simp add: map_ok_def)

lemma map_ok_Cons: "map_ok lt ((k, v) # m) \<longleftrightarrow> (\<forall>k' \<in> fst ` set m. lt k k') \<and> map_ok lt m"
  by (auto simp: map_ok_def)

lemma mset_std_sort [simp]: "mset (std_sort lt xs) = mset xs"
proof -
  have ins: "mset (sort_insert lt x ys) = add_mset x (mset ys)" for x ys
    by (induction ys) auto
  show ?thesis by (induction xs) (auto simp: std_sort_def ins)
qed

lemma set_std_sort [simp]: "set (std_sort lt xs) = set xs"
  by (metis mset_std_sort set_mset_mset)

lemma length_std_sort [simp]: "length (std_sort lt xs) = length xs"
  by (metis mset_std_sort size_mset)

lemma distinct_std_sort [simp]: "distinct (std_sort lt xs) = distinct xs"
  by (metis mset_eq_imp_distinct_iff mset_std_sort)

text \<open>
  With a comparator that is a strict total order on the elements, \<^verbatim>\<open>std::sort\<close> has only one
  possible result: the sorted permutation.
\<close>

lemma sort_insert_set: "set (sort_insert lt x ys) = insert x (set ys)"
  by (induction ys) auto

lemma sort_insert_sorted:
  assumes "sorted_wrt lt ys" and "transp_on (insert x (set ys)) lt" and "\<forall>y \<in> set ys. lt y x \<or> lt x y"
  shows "sorted_wrt lt (sort_insert lt x ys)"
  using assms
proof (induction ys)
  case (Cons y ys)
  have trans: "transp_on (insert x (set ys)) lt"
    by (rule transp_on_subset [OF Cons.prems(2)]) auto
  show ?case
  proof (cases "lt y x")
    case True
    then show ?thesis using Cons.IH [OF _ trans] Cons.prems(1,3) by (auto simp: sort_insert_set)
  next
    case False
    then have xy: "lt x y" using Cons.prems(3) by simp
    have "lt x z" if "z \<in> set ys" for z
      by (rule transp_onD [OF Cons.prems(2) _ _ _ xy]) (use that Cons.prems(1) in auto)
    then show ?thesis using False xy Cons.prems(1) by auto
  qed
qed simp

lemma std_sort_sorted:
  assumes "distinct xs" and "transp_on (set xs) lt" and "totalp_on (set xs) lt"
  shows "sorted_wrt lt (std_sort lt xs)"
  using assms
proof (induction xs)
  case (Cons x xs)
  have "transp_on (set xs) lt" by (rule transp_on_subset [OF Cons.prems(2)]) auto
  moreover have "totalp_on (set xs) lt" by (rule totalp_on_subset [OF Cons.prems(3)]) auto
  ultimately have "sorted_wrt lt (std_sort lt xs)" using Cons by simp
  moreover have "\<forall>y \<in> set xs. lt y x \<or> lt x y"
    using Cons.prems(1) totalp_onD [OF Cons.prems(3), of _ x] by auto
  ultimately have "sorted_wrt lt (sort_insert lt x (std_sort lt xs))"
    using Cons.prems(2) by (intro sort_insert_sorted) simp_all
  then show ?case by (simp add: std_sort_def)
qed (simp add: std_sort_def)

lemma std_sort_id: "sorted_wrt lt xs \<Longrightarrow> (\<And>a b. lt a b \<Longrightarrow> \<not> lt b a) \<Longrightarrow> std_sort lt xs = xs"
proof (induction xs)
  case (Cons x xs)
  then have "std_sort lt (x # xs) = sort_insert lt x xs" by (simp add: std_sort_def)
  also have "\<dots> = x # xs" using Cons.prems by (cases xs) auto
  finally show ?case .
qed (simp add: std_sort_def)

section \<open>Laws of the containers\<close>

locale comparator =
  fixes lt :: "'k \<Rightarrow> 'k \<Rightarrow> bool"
  assumes lt_irrefl: "\<not> lt a a"
    and lt_trans: "lt a b \<Longrightarrow> lt b c \<Longrightarrow> lt a c"
    and lt_total: "a \<noteq> b \<Longrightarrow> lt a b \<or> lt b a"
begin

lemma lt_asym: "lt a b \<Longrightarrow> \<not> lt b a"
  using lt_irrefl lt_trans by blast

lemma key_equiv_eq [simp]: "key_equiv lt a b \<longleftrightarrow> a = b"
  using lt_irrefl lt_total by (auto simp: key_equiv_def)

lemma map_find_map_of [simp]: "map_find lt k m = map_of m k"
  by (induction m) auto

lemma map_ok_notin: "map_ok lt ((k, v) # m) \<Longrightarrow> map_of m k = None"
  using lt_irrefl by (auto simp: map_ok_Cons map_of_eq_None_iff)

lemma map_ok_distinct: "map_ok lt m \<Longrightarrow> distinct (map fst m)"
proof (induction m)
  case (Cons p m)
  then show ?case using lt_irrefl by (cases p) (auto simp: map_ok_Cons)
qed simp

lemma lt_none:
  assumes "lt k k'" and "map_ok lt ((k', v') # m)"
  shows "map_of ((k', v') # m) k = None"
proof -
  have "k \<noteq> k'" using assms(1) lt_irrefl by auto
  moreover have "k \<notin> fst ` set m"
  proof
    assume "k \<in> fst ` set m"
    then have "lt k' k" using assms(2) by (auto simp: map_ok_Cons)
    with assms(1) show False using lt_asym by blast
  qed
  ultimately show ?thesis by (simp add: map_of_eq_None_iff)
qed

lemma keys_emplace: "fst ` set (map_emplace lt k v m) = insert k (fst ` set m)"
proof (induction m)
  case (Cons p m)
  obtain k' v' where p: "p = (k', v')" by (cases p)
  show ?case using Cons lt_total [of k k'] by (auto simp: p)
qed simp

lemma keys_assign: "fst ` set (map_assign lt k v m) = insert k (fst ` set m)"
proof (induction m)
  case (Cons p m)
  obtain k' v' where p: "p = (k', v')" by (cases p)
  show ?case using Cons lt_total [of k k'] by (auto simp: p)
qed simp

lemma set_erase_subset: "set (map_erase lt k m) \<subseteq> set m"
  by (induction m) (auto split: if_splits)

lemma map_ok_emplace [simp]: "map_ok lt m \<Longrightarrow> map_ok lt (map_emplace lt k v m)"
proof (induction m)
  case (Cons p m)
  obtain k' v' where p: "p = (k', v')" by (cases p)
  show ?case using Cons lt_total [of k k']
    by (auto simp: p map_ok_Cons keys_emplace intro: lt_trans)
qed (simp add: map_ok_def)

lemma map_ok_assign [simp]: "map_ok lt m \<Longrightarrow> map_ok lt (map_assign lt k v m)"
proof (induction m)
  case (Cons p m)
  obtain k' v' where p: "p = (k', v')" by (cases p)
  show ?case using Cons lt_total [of k k']
    by (auto simp: p map_ok_Cons keys_assign intro: lt_trans)
qed (simp add: map_ok_def)

lemma map_ok_erase [simp]: "map_ok lt m \<Longrightarrow> map_ok lt (map_erase lt k m)"
proof (induction m)
  case (Cons p m)
  obtain k' v' where p: "p = (k', v')" by (cases p)
  show ?case using Cons set_erase_subset [of k m]
    by (auto simp: p map_ok_Cons)
qed simp

lemma emplace_present: "map_ok lt m \<Longrightarrow> map_of m k = Some u \<Longrightarrow> map_emplace lt k v m = m"
proof (induction m)
  case (Cons p m)
  obtain k' v' where p: "p = (k', v')" by (cases p)
  show ?case using Cons lt_none [of k k' v' m] lt_irrefl
    by (auto simp: p map_ok_Cons split: if_splits)
qed simp

lemma mset_emplace:
  "map_ok lt m \<Longrightarrow> map_of m k = None \<Longrightarrow> mset (map_emplace lt k v m) = add_mset (k, v) (mset m)"
proof (induction m)
  case (Cons p m)
  obtain k' v' where p: "p = (k', v')" by (cases p)
  show ?case using Cons lt_total [of k k']
    by (auto simp: p map_ok_Cons split: if_splits)
qed simp

lemma map_of_emplace:
  "map_ok lt m \<Longrightarrow>
   map_of (map_emplace lt k v m) = (if map_of m k = None then (map_of m)(k \<mapsto> v) else map_of m)"
proof (induction m)
  case (Cons p m)
  obtain k' v' where p: "p = (k', v')" by (cases p)
  show ?case using Cons lt_none [of k k' v' m] lt_total [of k k'] lt_irrefl
    by (auto simp: p map_ok_Cons fun_eq_iff)
qed auto

lemma map_of_assign: "map_ok lt m \<Longrightarrow> map_of (map_assign lt k v m) = (map_of m)(k \<mapsto> v)"
proof (induction m)
  case (Cons p m)
  obtain k' v' where p: "p = (k', v')" by (cases p)
  show ?case using Cons lt_total [of k k'] lt_irrefl
    by (auto simp: p map_ok_Cons fun_eq_iff)
qed auto

lemma map_of_erase: "map_ok lt m \<Longrightarrow> map_of (map_erase lt k m) = (map_of m)(k := None)"
proof (induction m)
  case (Cons p m)
  obtain k' v' where p: "p = (k', v')" by (cases p)
  show ?case using Cons map_ok_notin [of k' v' m]
    by (auto simp: p map_ok_Cons fun_eq_iff)
qed auto

lemma mset_erase:
  "map_ok lt m \<Longrightarrow> map_of m k = Some v \<Longrightarrow> add_mset (k, v) (mset (map_erase lt k m)) = mset m"
proof (induction m)
  case (Cons p m)
  obtain k' v' where p: "p = (k', v')" by (cases p)
  show ?case using Cons by (auto simp: p map_ok_Cons split: if_splits)
qed simp

lemma erase_absent: "map_of m k = None \<Longrightarrow> map_erase lt k m = m"
  by (induction m) (auto split: if_splits)

lemma length_erase: "map_of m k = Some v \<Longrightarrow> Suc (length (map_erase lt k m)) = length m"
  by (induction m) (auto split: if_splits)

lemma length_erase_le: "length (map_erase lt k m) \<le> length m"
  by (induction m) auto

lemma set_erase: "map_ok lt m \<Longrightarrow> set (map_erase lt k m) = {(k', v) \<in> set m. k' \<noteq> k}"
proof (induction m)
  case (Cons p m)
  obtain k' v' where p: "p = (k', v')" by (cases p)
  show ?case using Cons map_ok_notin [of k' v' m]
    by (auto simp: p map_ok_Cons map_of_eq_None_iff image_iff)
qed simp

lemma in_set_map_of: "map_ok lt m \<Longrightarrow> (k, v) \<in> set m \<longleftrightarrow> map_of m k = Some v"
  by (simp add: map_ok_distinct)

text \<open>A map is determined by its contents: iteration order carries no other information.\<close>

lemma map_ok_ext: "map_ok lt m \<Longrightarrow> map_ok lt m' \<Longrightarrow> map_of m = map_of m' \<Longrightarrow> m = m'"
proof (induction m arbitrary: m')
  case Nil
  then show ?case by (cases m') (auto simp: fun_eq_iff split: if_splits)
next
  case (Cons p m)
  obtain k v where p: "p = (k, v)" by (cases p)
  show ?case
  proof (cases m')
    case Nil
    then show ?thesis using Cons.prems by (auto simp: p fun_eq_iff split: if_splits)
  next
    case (Cons q n)
    obtain k' v' where q: "q = (k', v')" by (cases q)
    have eq: "map_of (p # m) = map_of (q # n)" using Cons.prems(3) unfolding Cons .
    have k: "k = k'"
    proof (rule ccontr)
      assume "k \<noteq> k'"
      then consider "lt k k'" | "lt k' k" using lt_total by blast
      then show False
      proof cases
        case 1
        then show False using fun_cong [OF eq, of k] lt_none [of k k' v' n] Cons.prems(2)
          by (simp add: p q \<open>m' = q # n\<close>)
      next
        case 2
        then show False using fun_cong [OF eq, of k'] lt_none [of k' k v m] Cons.prems(1)
          by (simp add: p q)
      qed
    qed
    have v: "v = v'" using fun_cong [OF eq, of k] by (simp add: p q k)
    have "map_of m x = map_of n x" for x
      using fun_cong [OF eq, of x] map_ok_notin [of k v m] map_ok_notin [of k' v' n] Cons.prems
      by (auto simp: p q k \<open>m' = q # n\<close> split: if_splits)
    then have "m = n"
      using Cons.IH Cons.prems by (auto simp: p q \<open>m' = q # n\<close> map_ok_Cons fun_eq_iff)
    then show ?thesis by (simp add: p q k v \<open>m' = q # n\<close>)
  qed
qed

lemma set_insert_new: "sorted_wrt lt s \<Longrightarrow> snd (set_insert lt k s) \<longleftrightarrow> k \<notin> set s"
proof (induction s)
  case (Cons k' s)
  have "lt k k' \<Longrightarrow> k \<notin> set (k' # s)" "lt k' k \<Longrightarrow> k \<noteq> k'"
    using Cons.prems lt_irrefl by (auto dest: lt_asym)
  then show ?case using Cons lt_total [of k k']
    by (auto simp: Let_def split: prod.splits)
qed simp

lemma set_insert_set: "set (fst (set_insert lt k s)) = insert k (set s)"
proof (induction s)
  case (Cons k' s)
  then show ?case using lt_total [of k k'] by (cases "set_insert lt k s") auto
qed simp

lemma set_insert_sorted: "sorted_wrt lt s \<Longrightarrow> sorted_wrt lt (fst (set_insert lt k s))"
proof (induction s)
  case (Cons k' s)
  then show ?case using set_insert_set [of k s] lt_total [of k k']
    by (cases "set_insert lt k s") (auto intro: lt_trans)
qed simp

text \<open>Loops that erase or insert one key per element of a range.\<close>

lemma erase_loop:
  "map_ok lt m \<Longrightarrow> map_ok lt (foldl (\<lambda>m x. map_erase lt (key x) m) m xs) \<and>
     map_of (foldl (\<lambda>m x. map_erase lt (key x) m) m xs) = map_of m |` (- key ` set xs)"
proof (induction xs arbitrary: m)
  case (Cons x xs)
  from Cons.IH [of "map_erase lt (key x) m"] Cons.prems show ?case
    by (auto simp: map_of_erase restrict_map_def fun_eq_iff)
qed (simp add: restrict_map_def)

lemma emplace_loop:
  "map_ok lt m \<Longrightarrow> \<forall>x \<in> set xs. map_of m (key x) = None \<or> map_of m (key x) = Some v \<Longrightarrow>
     map_ok lt (foldl (\<lambda>m x. map_emplace lt (key x) v m) m xs) \<and>
     map_of (foldl (\<lambda>m x. map_emplace lt (key x) v m) m xs) =
       (\<lambda>k. if k \<in> key ` set xs then Some v else map_of m k)"
proof (induction xs arbitrary: m)
  case (Cons x xs)
  have "map_of (map_emplace lt (key x) v m) = (map_of m)(key x \<mapsto> v)"
    using Cons.prems by (auto simp: map_of_emplace fun_eq_iff)
  with Cons.IH [of "map_emplace lt (key x) v m"] Cons.prems show ?case
    by (auto simp: fun_eq_iff)
qed simp

text \<open>The loop that inserts keys until one is already present.\<close>

lemma insert_loop_ok:
  assumes step: "\<And>seen x. f seen x = (let (seen', inserted) = set_insert lt (key x) seen
      in if \<not> inserted then make_error c (msg x) else Inr seen')"
    and "sorted_wrt lt seen"
  shows "is_ok (foldR f seen xs) \<longleftrightarrow> distinct (map key xs) \<and> set (map key xs) \<inter> set seen = {}"
  using assms(2)
proof (induction xs arbitrary: seen)
  case (Cons x xs)
  obtain seen' b where ins: "set_insert lt (key x) seen = (seen', b)" by fastforce
  then have "b \<longleftrightarrow> key x \<notin> set seen" "set seen' = insert (key x) (set seen)" "sorted_wrt lt seen'"
    using set_insert_new [OF Cons.prems, of "key x"] set_insert_set [of "key x" seen]
      set_insert_sorted [OF Cons.prems, of "key x"] by simp_all
  then show ?case using Cons.IH [of seen'] by (auto simp: step ins)
qed simp

end

end
