(* ===== verification/Utxo.thy ===== *)
theory Utxo
  imports Block Std_Map
begin

text \<open>
  \<^verbatim>\<open>state/utxo_set.hpp\<close> and \<^verbatim>\<open>src/state/utxo_set.cpp\<close>: the set of unspent outputs, an ordered
  map from outpoints to coins. The two byte-wise orders of the repository, \<open>OutPointLess\<close>
  and \<open>Hash256Less\<close>, are shown to be strict total orders, which makes the container laws of
  \<open>comparator\<close> available for every map and set keyed by them. \<open>utxo_view\<close> is the partial
  function the set represents and \<open>utxo_total\<close> the money it holds.
\<close>

section \<open>Orders\<close>

fun lexicographical_compare :: "bytes \<Rightarrow> bytes \<Rightarrow> bool" where
  "lexicographical_compare xs [] = False"
| "lexicographical_compare [] (y # ys) = True"
| "lexicographical_compare (x # xs) (y # ys) =
     (if x < y then True else if y < x then False else lexicographical_compare xs ys)"

definition Hash256Less :: "Hash256 \<Rightarrow> Hash256 \<Rightarrow> bool" where
  "Hash256Less lhs rhs = lexicographical_compare lhs rhs"

definition OutPointLess :: "OutPoint \<Rightarrow> OutPoint \<Rightarrow> bool" where
  "OutPointLess lhs rhs =
     (if op_txid lhs \<noteq> op_txid rhs then lexicographical_compare (op_txid lhs) (op_txid rhs)
      else op_index lhs < op_index rhs)"

section \<open>The set and its operations\<close>

record Coin =
  coin_output :: TxOutput
  coin_height :: u32
  coin_coinbase :: bool

record UtxoSet =
  coins :: "(OutPoint, Coin) std_map"

definition empty_utxos :: UtxoSet where
  "empty_utxos = \<lparr>coins = []\<rparr>"

definition utxo_find :: "OutPoint \<Rightarrow> UtxoSet \<Rightarrow> Coin option" where
  "utxo_find outpoint s = map_find OutPointLess outpoint (coins s)"

definition utxo_contains :: "OutPoint \<Rightarrow> UtxoSet \<Rightarrow> bool" where
  "utxo_contains outpoint s \<longleftrightarrow> map_find OutPointLess outpoint (coins s) \<noteq> None"

text \<open>\<^verbatim>\<open>add\<close> and \<^verbatim>\<open>spend\<close> return the updated set; a failed call leaves the set as it was.\<close>

definition utxo_add :: "OutPoint \<Rightarrow> Coin \<Rightarrow> UtxoSet \<Rightarrow> UtxoSet Result" where
  "utxo_add outpoint coin s =
     (if map_find OutPointLess outpoint (coins s) \<noteq> None
      then make_error kInvalidStateTransition (''duplicate UTXO for outpoint '' @
             to_hex (op_txid outpoint) @ '':'' @ to_string_nat (unat (op_index outpoint)))
      else Inr (s\<lparr>coins := map_emplace OutPointLess outpoint coin (coins s)\<rparr>))"

definition utxo_spend :: "OutPoint \<Rightarrow> UtxoSet \<Rightarrow> (Coin \<times> UtxoSet) Result" where
  "utxo_spend outpoint s =
     (case map_find OutPointLess outpoint (coins s) of
        None \<Rightarrow> make_error kInvalidStateTransition (''spend of unknown outpoint '' @
             to_hex (op_txid outpoint) @ '':'' @ to_string_nat (unat (op_index outpoint)))
      | Some spent \<Rightarrow> Inr (spent, s\<lparr>coins := map_erase OutPointLess outpoint (coins s)\<rparr>))"

definition utxo_size :: "UtxoSet \<Rightarrow> nat" where
  "utxo_size s = length (coins s)"

section \<open>The orders are strict and total\<close>

lemma lex_irrefl: "\<not> lexicographical_compare xs xs"
  by (induction xs) auto

lemma lex_total: "xs \<noteq> ys \<Longrightarrow> lexicographical_compare xs ys \<or> lexicographical_compare ys xs"
  by (induction xs ys rule: lexicographical_compare.induct) (auto simp: neq_Nil_conv)

lemma lex_trans:
  "lexicographical_compare xs ys \<Longrightarrow> lexicographical_compare ys zs \<Longrightarrow> lexicographical_compare xs zs"
proof (induction xs ys arbitrary: zs rule: lexicographical_compare.induct)
  case (2 y ys)
  then show ?case by (cases zs) auto
next
  case (3 x xs y ys)
  then show ?case by (cases zs) (auto split: if_splits)
qed simp

interpretation hash_less: comparator Hash256Less
  by unfold_locales (auto simp: Hash256Less_def lex_irrefl dest: lex_total intro: lex_trans)

interpretation outpoint_less: comparator OutPointLess
proof unfold_locales
  fix a b c :: OutPoint
  show "\<not> OutPointLess a a" by (simp add: OutPointLess_def)
  show "OutPointLess a b \<Longrightarrow> OutPointLess b c \<Longrightarrow> OutPointLess a c"
    by (auto simp: OutPointLess_def lex_irrefl split: if_splits dest: lex_trans)
  show "a \<noteq> b \<Longrightarrow> OutPointLess a b \<or> OutPointLess b a"
    by (cases a; cases b) (auto simp: OutPointLess_def dest: lex_total)
qed

section \<open>Representation and abstraction\<close>

definition utxo_ok :: "UtxoSet \<Rightarrow> bool" where
  "utxo_ok s \<longleftrightarrow> map_ok OutPointLess (coins s)"

definition utxo_view :: "UtxoSet \<Rightarrow> OutPoint \<Rightarrow> Coin option" where
  "utxo_view s = map_of (coins s)"

definition coin_value :: "Coin \<Rightarrow> nat" where
  "coin_value c = unat (out_value (coin_output c))"

definition utxo_total :: "UtxoSet \<Rightarrow> nat" where
  "utxo_total s = (\<Sum>(op, c) \<leftarrow> coins s. coin_value c)"

lemma utxo_ok_empty [simp]: "utxo_ok empty_utxos"
  by (simp add: utxo_ok_def empty_utxos_def)

lemma utxo_view_empty [simp]: "utxo_view empty_utxos = Map.empty"
  by (simp add: utxo_view_def empty_utxos_def)

lemma utxo_total_empty [simp]: "utxo_total empty_utxos = 0"
  by (simp add: utxo_total_def empty_utxos_def)

lemma utxo_find_view [simp]: "utxo_find op s = utxo_view s op"
  by (simp add: utxo_find_def utxo_view_def)

lemma utxo_contains_view [simp]: "utxo_contains op s \<longleftrightarrow> utxo_view s op \<noteq> None"
  by (simp add: utxo_contains_def utxo_view_def)

lemma utxo_view_ext: "utxo_ok s \<Longrightarrow> utxo_ok s' \<Longrightarrow> utxo_view s = utxo_view s' \<Longrightarrow> s = s'"
  by (cases s; cases s') (auto simp: utxo_ok_def utxo_view_def dest: outpoint_less.map_ok_ext)

lemma utxo_total_mset: "utxo_total s = (\<Sum>p \<in># mset (coins s). coin_value (snd p))"
  by (simp add: utxo_total_def case_prod_unfold sum_mset_sum_list flip: mset_map)

lemma utxo_add_iff:
  assumes "utxo_ok s"
  shows "utxo_add op c s = Inr s' \<longleftrightarrow>
    utxo_view s op = None \<and> utxo_ok s' \<and> utxo_view s' = (utxo_view s)(op \<mapsto> c)"
proof
  assume "utxo_add op c s = Inr s'"
  with assms show "utxo_view s op = None \<and> utxo_ok s' \<and> utxo_view s' = (utxo_view s)(op \<mapsto> c)"
    by (auto simp: utxo_add_def result_simps utxo_ok_def utxo_view_def outpoint_less.map_of_emplace
        split: if_splits)
next
  assume r: "utxo_view s op = None \<and> utxo_ok s' \<and> utxo_view s' = (utxo_view s)(op \<mapsto> c)"
  let ?t = "s\<lparr>coins := map_emplace OutPointLess op c (coins s)\<rparr>"
  have "utxo_ok ?t" "utxo_view ?t = (utxo_view s)(op \<mapsto> c)" using assms r
    by (simp_all add: utxo_ok_def utxo_view_def outpoint_less.map_of_emplace)
  with r have "s' = ?t" by (intro utxo_view_ext) auto
  with r show "utxo_add op c s = Inr s'" by (simp add: utxo_add_def utxo_view_def)
qed

lemma utxo_spend_iff:
  assumes "utxo_ok s"
  shows "utxo_spend op s = Inr (c, s') \<longleftrightarrow>
    utxo_view s op = Some c \<and> utxo_ok s' \<and> utxo_view s' = (utxo_view s)(op := None)"
proof
  assume "utxo_spend op s = Inr (c, s')"
  with assms show "utxo_view s op = Some c \<and> utxo_ok s' \<and> utxo_view s' = (utxo_view s)(op := None)"
    by (auto simp: utxo_spend_def utxo_ok_def utxo_view_def outpoint_less.map_of_erase
        split: option.splits)
next
  assume r: "utxo_view s op = Some c \<and> utxo_ok s' \<and> utxo_view s' = (utxo_view s)(op := None)"
  let ?t = "s\<lparr>coins := map_erase OutPointLess op (coins s)\<rparr>"
  have "utxo_ok ?t" "utxo_view ?t = (utxo_view s)(op := None)" using assms r
    by (simp_all add: utxo_ok_def utxo_view_def outpoint_less.map_of_erase)
  with r have "s' = ?t" by (intro utxo_view_ext) auto
  with r show "utxo_spend op s = Inr (c, s')" by (simp add: utxo_spend_def utxo_view_def)
qed

lemma finite_utxo_view [simp]: "finite (dom (utxo_view s))"
  by (simp add: utxo_view_def finite_dom_map_of)

text \<open>Every finite ledger is the view of a set.\<close>

lemma utxo_view_surj: "finite (dom L) \<Longrightarrow> \<exists>s. utxo_ok s \<and> utxo_view s = L"
proof (induction "dom L" arbitrary: L rule: finite_induct)
  case empty
  then have "L = Map.empty" using dom_eq_empty_conv [of L] by simp
  then show ?case by (intro exI [of _ empty_utxos]) simp
next
  case (insert x A)
  then have "A = dom (L(x := None))" by auto
  from insert.hyps(3) [OF this] obtain s where s: "utxo_ok s" "utxo_view s = L(x := None)" by blast
  obtain c where c: "L x = Some c" using insert.hyps(4) by auto
  obtain s' where "utxo_add x c s = Inr s'" using s by (simp add: utxo_add_def utxo_view_def)
  then have "utxo_ok s' \<and> utxo_view s' = L" using s c by (auto simp: utxo_add_iff fun_eq_iff)
  then show ?case by blast
qed

lemma utxo_add_total:
  assumes "utxo_ok s" and "utxo_add op c s = Inr s'"
  shows "utxo_total s' = utxo_total s + coin_value c"
  using assms outpoint_less.mset_emplace [of "coins s" op c]
  by (auto simp: utxo_add_def utxo_ok_def utxo_total_mset result_simps split: if_splits)

lemma utxo_spend_total:
  assumes "utxo_ok s" and "utxo_spend op s = Inr (c, s')"
  shows "utxo_total s' + coin_value c = utxo_total s"
  using assms outpoint_less.mset_erase [of "coins s" op c, symmetric]
  by (auto simp: utxo_spend_def utxo_ok_def utxo_total_mset split: option.splits)

lemma utxo_size_add: "utxo_add op c s = Inr s' \<Longrightarrow> utxo_ok s \<Longrightarrow> utxo_size s' = utxo_size s + 1"
  using outpoint_less.mset_emplace [of "coins s" op c, THEN arg_cong [of _ _ size]]
  by (auto simp: utxo_add_def utxo_size_def utxo_ok_def result_simps split: if_splits)

lemma utxo_add_error: "utxo_add op c s = Inl e \<Longrightarrow> err_code e = kInvalidStateTransition"
  by (auto simp: utxo_add_def make_error_def split: if_splits)

lemma utxo_spend_error: "utxo_spend op s = Inl e \<Longrightarrow> err_code e = kInvalidStateTransition"
  by (auto simp: utxo_spend_def make_error_def split: option.splits)

end
