(* ===== verification/Tx_Validation.thy ===== *)
theory Tx_Validation
  imports Utxo
begin

text \<open>
  \<^verbatim>\<open>src/validation/transaction_validation.cpp\<close>: the context-free sanity rules, the input rules
  against the unspent outputs, and coinbase maturity. Each check is shown to accept exactly
  the transactions of a declarative predicate over unbounded sums, so that no crafted value
  passes by wrapping around.
\<close>

section \<open>Checks\<close>

definition checked_add :: "u64 \<Rightarrow> u64 \<Rightarrow> u64 option" where
  "checked_add lhs rhs = (if lhs > UINT64_MAX - rhs then None else Some (lhs + rhs))"

definition outpoint_str :: "OutPoint \<Rightarrow> string" where
  "outpoint_str outpoint =
     to_hex (op_txid outpoint) @ '':'' @ to_string_nat (unat (op_index outpoint))"

definition check_null_prevouts :: "Transaction \<Rightarrow> unit Result" where
  "check_null_prevouts tx =
     foldR (\<lambda>_ input. if op_index (in_prevout input) = kNullPrevoutIndex
                      then make_error kInvalidTransaction
                             ''non-coinbase input uses the reserved coinbase outpoint''
                      else Inr ()) () (tx_inputs tx)"

definition check_duplicate_inputs :: "Transaction \<Rightarrow> OutPoint std_set Result" where
  "check_duplicate_inputs tx =
     foldR (\<lambda>seen input.
              let (seen, inserted) = set_insert OutPointLess (in_prevout input) seen
              in if \<not> inserted
                 then make_error kInvalidTransaction (''duplicate input '' @ outpoint_str (in_prevout input))
                 else Inr seen) [] (tx_inputs tx)"

definition check_output_values :: "Transaction \<Rightarrow> u64 Result" where
  "check_output_values tx =
     foldR (\<lambda>total_out output.
              if out_value output > kMaxMoney
              then make_error kInvalidTransaction ''output value exceeds maximum''
              else case checked_add total_out (out_value output) of
                     None \<Rightarrow> make_error kInvalidTransaction ''sum of outputs exceeds maximum''
                   | Some total_out \<Rightarrow>
                       if total_out > kMaxMoney
                       then make_error kInvalidTransaction ''sum of outputs exceeds maximum''
                       else Inr total_out) 0 (tx_outputs tx)"

definition check_transaction_sanity :: "Transaction \<Rightarrow> unit Result" where
  "check_transaction_sanity tx =
     (if tx_inputs tx = [] then make_error kInvalidTransaction ''transaction has no inputs''
      else if tx_outputs tx = [] then make_error kInvalidTransaction ''transaction has no outputs''
      else if length (tx_inputs tx) > unat kMaxInputsPerTransaction
      then make_error kInvalidTransaction ''too many inputs''
      else if length (tx_outputs tx) > unat kMaxOutputsPerTransaction
      then make_error kInvalidTransaction ''too many outputs''
      else bindR (if \<not> is_coinbase tx then check_null_prevouts tx else Inr ()) (\<lambda>_.
           bindR (check_duplicate_inputs tx) (\<lambda>_.
           bindR (check_output_values tx) (\<lambda>_.
           if length (tx_to_bytes tx) > unat kMaxTransactionSizeBytes
           then make_error kInvalidTransaction ''transaction exceeds maximum size''
           else Inr ()))))"

definition sum_inputs :: "Transaction \<Rightarrow> UtxoSet \<Rightarrow> u64 Result" where
  "sum_inputs tx utxos =
     foldR (\<lambda>total_in input.
              case utxo_find (in_prevout input) utxos of
                None \<Rightarrow> make_error kInvalidTransaction (''input refers to missing or spent output '' @
                          outpoint_str (in_prevout input))
              | Some coin \<Rightarrow>
                  (case checked_add total_in (out_value (coin_output coin)) of
                     None \<Rightarrow> make_error kInvalidTransaction ''sum of inputs overflows''
                   | Some total_in \<Rightarrow> Inr total_in)) 0 (tx_inputs tx)"

definition sum_outputs :: "Transaction \<Rightarrow> u64" where
  "sum_outputs tx = foldl (\<lambda>total_out output. total_out + out_value output) 0 (tx_outputs tx)"

definition check_transaction_inputs :: "Transaction \<Rightarrow> UtxoSet \<Rightarrow> u64 Result" where
  "check_transaction_inputs tx utxos =
     bindR (sum_inputs tx utxos) (\<lambda>total_in.
       let total_out = sum_outputs tx
       in if total_in < total_out
          then make_error kInvalidTransaction (''outputs ('' @ to_string_nat (unat total_out) @
                 '') exceed inputs ('' @ to_string_nat (unat total_in) @ '')'')
          else Inr (total_in - total_out))"

definition check_coinbase_maturity :: "Transaction \<Rightarrow> UtxoSet \<Rightarrow> u32 \<Rightarrow> u32 \<Rightarrow> unit Result" where
  "check_coinbase_maturity tx utxos spend_height maturity =
     foldR (\<lambda>_ input.
              case utxo_find (in_prevout input) utxos of
                None \<Rightarrow> Inr ()
              | Some coin \<Rightarrow>
                  if \<not> coin_coinbase coin then Inr ()
                  else let spendable_at = (ucast (coin_height coin) :: u64) + ucast maturity
                       in if (ucast spend_height :: u64) < spendable_at
                          then make_error kInvalidTransaction (''immature coinbase spend of '' @
                                 outpoint_str (in_prevout input))
                          else Inr ()) () (tx_inputs tx)"

section \<open>What the checks mean\<close>

definition tx_prevouts :: "Transaction \<Rightarrow> OutPoint list" where
  "tx_prevouts tx = map in_prevout (tx_inputs tx)"

definition tx_out_total :: "Transaction \<Rightarrow> nat" where
  "tx_out_total tx = (\<Sum>output \<leftarrow> tx_outputs tx. unat (out_value output))"

definition sane_tx :: "Transaction \<Rightarrow> bool" where
  "sane_tx tx \<longleftrightarrow>
     tx_inputs tx \<noteq> [] \<and> tx_outputs tx \<noteq> [] \<and>
     length (tx_inputs tx) \<le> 4096 \<and> length (tx_outputs tx) \<le> 4096 \<and>
     (is_coinbase tx \<or> (\<forall>op \<in> set (tx_prevouts tx). op_index op \<noteq> kNullPrevoutIndex)) \<and>
     distinct (tx_prevouts tx) \<and>
     tx_out_total tx \<le> 21000000 * 100000000 \<and>
     length (tx_to_bytes tx) \<le> 65536"

text \<open>The money a list of outpoints holds in a view of the unspent outputs.\<close>

definition view_value :: "(OutPoint \<Rightarrow> Coin option) \<Rightarrow> OutPoint list \<Rightarrow> nat" where
  "view_value L ops = (\<Sum>op \<leftarrow> ops. case L op of None \<Rightarrow> 0 | Some c \<Rightarrow> coin_value c)"

definition coin_mature :: "u32 \<Rightarrow> u32 \<Rightarrow> Coin \<Rightarrow> bool" where
  "coin_mature height maturity c \<longleftrightarrow>
     (coin_coinbase c \<longrightarrow> unat (coin_height c) + unat maturity \<le> unat height)"

lemma checked_add_Some:
  "checked_add a b = Some c \<longleftrightarrow> unat a + unat b < 2 ^ 64 \<and> c = a + b"
proof -
  have "unat (UINT64_MAX - b) = unat UINT64_MAX - unat b"
    using unat_u64_less [of b] by (intro unat_sub) (simp add: word_le_nat_alt)
  then show ?thesis
    using unat_u64_less [of b] by (auto simp: checked_add_def word_less_nat_alt)
qed

lemma checked_add_None: "checked_add a b = None \<longleftrightarrow> 2 ^ 64 \<le> unat a + unat b"
  using checked_add_Some [of a b "a + b"] by (auto simp: checked_add_def split: if_splits)

lemma check_null_prevouts_iff:
  "check_null_prevouts tx = Inr () \<longleftrightarrow> (\<forall>op \<in> set (tx_prevouts tx). op_index op \<noteq> kNullPrevoutIndex)"
  by (subst check_null_prevouts_def, subst foldR_check [of _ "\<lambda>i. op_index (in_prevout i) \<noteq> kNullPrevoutIndex"])
    (auto simp: tx_prevouts_def)

lemma check_duplicate_inputs_iff: "is_ok (check_duplicate_inputs tx) \<longleftrightarrow> distinct (tx_prevouts tx)"
  unfolding check_duplicate_inputs_def tx_prevouts_def
  by (subst outpoint_less.insert_loop_ok) (rule refl, simp_all)

lemma unat_kMaxMoney: "unat kMaxMoney = 21000000 * 100000000"
  by (simp add: kMaxMoney_def)

lemma check_output_values_iff:
  "check_output_values tx = Inr t \<longleftrightarrow> tx_out_total tx \<le> 21000000 * 100000000 \<and> unat t = tx_out_total tx"
proof -
  have loop: "foldR (\<lambda>total_out output.
              if out_value output > kMaxMoney
              then make_error kInvalidTransaction ''output value exceeds maximum''
              else case checked_add total_out (out_value output) of
                     None \<Rightarrow> make_error kInvalidTransaction ''sum of outputs exceeds maximum''
                   | Some total_out \<Rightarrow>
                       if total_out > kMaxMoney
                       then make_error kInvalidTransaction ''sum of outputs exceeds maximum''
                       else Inr total_out) t0 outs = Inr t \<longleftrightarrow>
      unat t0 + (\<Sum>out \<leftarrow> outs. unat (out_value out)) \<le> unat kMaxMoney \<and>
      unat t = unat t0 + (\<Sum>out \<leftarrow> outs. unat (out_value out))"
    if "unat t0 \<le> unat kMaxMoney" for t0 outs
    using that
  proof (induction outs arbitrary: t0)
    case (Cons out outs)
    show ?case
    proof (cases "unat t0 + unat (out_value out) \<le> unat kMaxMoney")
      case True
      then have "checked_add t0 (out_value out) = Some (t0 + out_value out)"
        and sum: "unat (t0 + out_value out) = unat t0 + unat (out_value out)"
        by (auto simp: checked_add_Some unat_kMaxMoney intro!: unat_add_no_wrap)
      with True Cons.IH [of "t0 + out_value out"] show ?thesis
        by (auto simp: word_less_nat_alt)
    next
      case False
      then show ?thesis
        by (auto simp: word_less_nat_alt checked_add_Some unat_add_no_wrap result_simps
            split: option.splits)
    qed
  qed (auto simp: word_unat_eq_iff)
  show ?thesis
    unfolding check_output_values_def by (subst loop) (simp_all add: tx_out_total_def unat_kMaxMoney)
qed

lemma sum_inputs_iff:
  "sum_inputs tx s = Inr t \<longleftrightarrow> set (tx_prevouts tx) \<subseteq> dom (utxo_view s) \<and>
     view_value (utxo_view s) (tx_prevouts tx) < 2 ^ 64 \<and>
     unat t = view_value (utxo_view s) (tx_prevouts tx)"
proof -
  have loop: "foldR (\<lambda>total_in input.
              case utxo_view s (in_prevout input) of
                None \<Rightarrow> make_error kInvalidTransaction (''input refers to missing or spent output '' @
                          outpoint_str (in_prevout input))
              | Some coin \<Rightarrow>
                  (case checked_add total_in (out_value (coin_output coin)) of
                     None \<Rightarrow> make_error kInvalidTransaction ''sum of inputs overflows''
                   | Some total_in \<Rightarrow> Inr total_in)) t0 ins = Inr t \<longleftrightarrow>
      in_prevout ` set ins \<subseteq> dom (utxo_view s) \<and>
      unat t0 + view_value (utxo_view s) (map in_prevout ins) < 2 ^ 64 \<and>
      unat t = unat t0 + view_value (utxo_view s) (map in_prevout ins)" for t0 ins
  proof (induction ins arbitrary: t0)
    case Nil
    then show ?case using unat_u64_less [of t0] by (auto simp: view_value_def word_unat_eq_iff)
  next
    case (Cons i ins)
    show ?case
    proof (cases "utxo_view s (in_prevout i)")
      case (Some c)
      show ?thesis
      proof (cases "unat t0 + coin_value c < 2 ^ 64")
        case True
        then have "checked_add t0 (out_value (coin_output c)) = Some (t0 + out_value (coin_output c))"
          "unat (t0 + out_value (coin_output c)) = unat t0 + coin_value c"
          by (auto simp: checked_add_Some coin_value_def intro!: unat_add_no_wrap)
        then show ?thesis
          using Some Cons.IH [of "t0 + out_value (coin_output c)"] by (auto simp: view_value_def)
      next
        case False
        then have "checked_add t0 (out_value (coin_output c)) = None"
          using checked_add_Some [of t0 "out_value (coin_output c)"]
          by (cases "checked_add t0 (out_value (coin_output c))") (auto simp: coin_value_def)
        with False show ?thesis using Some by (auto simp: view_value_def)
      qed
    qed auto
  qed
  show ?thesis
    unfolding sum_inputs_def utxo_find_view loop [of 0] by (auto simp: tx_prevouts_def)
qed

lemma sum_outputs_total: "tx_out_total tx < 2 ^ 64 \<Longrightarrow> unat (sum_outputs tx) = tx_out_total tx"
proof -
  have "unat (foldl (\<lambda>t out. t + out_value out) t0 outs) = unat t0 + (\<Sum>out \<leftarrow> outs. unat (out_value out))"
    if "unat t0 + (\<Sum>out \<leftarrow> outs. unat (out_value out)) < 2 ^ 64" for t0 outs
    using that
  proof (induction outs arbitrary: t0)
    case (Cons out outs)
    then have "unat (t0 + out_value out) = unat t0 + unat (out_value out)"
      by (intro unat_add_no_wrap) simp
    with Cons show ?case by simp
  qed simp
  from this [of 0 "tx_outputs tx"] show "tx_out_total tx < 2 ^ 64 \<Longrightarrow> ?thesis"
    by (simp add: sum_outputs_def tx_out_total_def)
qed

lemma check_transaction_sanity_iff: "check_transaction_sanity tx = Inr () \<longleftrightarrow> sane_tx tx"
proof -
  have vals: "(\<exists>t. check_output_values tx = Inr t) \<longleftrightarrow> tx_out_total tx \<le> 21000000 * 100000000"
  proof
    assume le: "tx_out_total tx \<le> 21000000 * 100000000"
    then have "unat (of_nat (tx_out_total tx) :: u64) = tx_out_total tx"
      by (intro unat_of_nat_less) simp
    with le have "check_output_values tx = Inr (of_nat (tx_out_total tx))"
      by (simp only: check_output_values_iff)
    then show "\<exists>t. check_output_values tx = Inr t" by blast
  qed (auto simp: check_output_values_iff)
  have dups: "(\<exists>seen. check_duplicate_inputs tx = Inr seen) \<longleftrightarrow> distinct (tx_prevouts tx)"
    using check_duplicate_inputs_iff [of tx] by (simp add: is_ok_iff)
  show ?thesis
    using check_null_prevouts_iff [of tx] vals dups
    by (auto simp: check_transaction_sanity_def sane_tx_def result_simps kMaxInputsPerTransaction_def
        kMaxOutputsPerTransaction_def kMaxTransactionSizeBytes_def split: if_splits)
qed

lemma sane_tx_out_total: "sane_tx tx \<Longrightarrow> tx_out_total tx < 2 ^ 64"
  by (simp add: sane_tx_def)

lemma check_transaction_inputs_iff:
  assumes "sane_tx tx"
  shows "check_transaction_inputs tx s = Inr fee \<longleftrightarrow>
    set (tx_prevouts tx) \<subseteq> dom (utxo_view s) \<and>
    view_value (utxo_view s) (tx_prevouts tx) < 2 ^ 64 \<and>
    tx_out_total tx + unat fee = view_value (utxo_view s) (tx_prevouts tx)"
proof -
  let ?v = "view_value (utxo_view s) (tx_prevouts tx)"
  have out: "unat (sum_outputs tx) = tx_out_total tx"
    by (rule sum_outputs_total) (rule sane_tx_out_total [OF assms])
  have sub: "\<not> t < sum_outputs tx \<and> t - sum_outputs tx = fee \<longleftrightarrow> tx_out_total tx + unat fee = unat t" for t
  proof
    assume a: "\<not> t < sum_outputs tx \<and> t - sum_outputs tx = fee"
    then have "unat fee = unat t - tx_out_total tx" using out unat_sub [of "sum_outputs tx" t] by auto
    with a show "tx_out_total tx + unat fee = unat t" using out by (simp add: word_less_nat_alt)
  next
    assume "tx_out_total tx + unat fee = unat t"
    then have "unat (sum_outputs tx) \<le> unat t" "unat fee = unat t - unat (sum_outputs tx)"
      using out by simp_all
    then show "\<not> t < sum_outputs tx \<and> t - sum_outputs tx = fee"
      using unat_sub [of "sum_outputs tx" t] by (simp add: word_less_nat_alt word_le_nat_alt word_unat_eq_iff)
  qed
  have ex: "?v < 2 ^ 64 \<Longrightarrow> \<exists>t :: u64. unat t = ?v"
    using unat_of_nat_less [of ?v, where 'a = 64] by auto
  have "check_transaction_inputs tx s = Inr fee \<longleftrightarrow>
      (\<exists>t. sum_inputs tx s = Inr t \<and> tx_out_total tx + unat fee = unat t)"
    by (auto simp: check_transaction_inputs_def result_simps Let_def simp flip: sub)
  also have "\<dots> \<longleftrightarrow> set (tx_prevouts tx) \<subseteq> dom (utxo_view s) \<and> ?v < 2 ^ 64 \<and>
      tx_out_total tx + unat fee = ?v"
    using ex unfolding sum_inputs_iff by metis
  finally show ?thesis .
qed

lemma check_coinbase_maturity_iff:
  "check_coinbase_maturity tx s height maturity = Inr () \<longleftrightarrow>
     (\<forall>op \<in> set (tx_prevouts tx). \<forall>c. utxo_view s op = Some c \<longrightarrow> coin_mature height maturity c)"
  unfolding check_coinbase_maturity_def
  by (subst foldR_check [where Q = "\<lambda>i. \<forall>c. utxo_view s (in_prevout i) = Some c \<longrightarrow> coin_mature height maturity c"])
    (auto simp: tx_prevouts_def coin_mature_def Let_def word_less_nat_alt unat_add_u32_u64
      split: option.splits)

lemma transaction_checks_code [simp]:
  "fails_with {kInvalidTransaction} (check_transaction_sanity tx)"
  "fails_with {kInvalidTransaction} (check_transaction_inputs tx s)"
  "fails_with {kInvalidTransaction} (check_coinbase_maturity tx s h m)"
  by (auto simp: check_transaction_sanity_def check_null_prevouts_def check_duplicate_inputs_def
      check_output_values_def check_transaction_inputs_def sum_inputs_def check_coinbase_maturity_def
      Let_def split: option.splits prod.splits intro!: fails_with_bindR fails_with_foldR)

text \<open>A spend of 10 that pays 7, and the coinbase output it spends.\<close>

definition example_tx :: Transaction where
  "example_tx = \<lparr>tx_version = 1,
     tx_inputs = [\<lparr>in_prevout = \<lparr>op_txid = zero_hash, op_index = 5\<rparr>\<rparr>],
     tx_outputs = [\<lparr>out_value = 7, out_recipient = zero_hash\<rparr>], tx_lock_time = 0\<rparr>"

definition example_utxos :: UtxoSet where
  "example_utxos = \<lparr>coins = [(\<lparr>op_txid = zero_hash, op_index = 5\<rparr>,
     \<lparr>coin_output = \<lparr>out_value = 10, out_recipient = zero_hash\<rparr>, coin_height = 0, coin_coinbase = True\<rparr>)]\<rparr>"

lemma wf_example_tx: "wf_tx example_tx"
  by (simp add: example_tx_def wf_tx_def wf_input_def wf_outpoint_def wf_output_def)

lemma sane_example_tx: "sane_tx example_tx"
  using length_tx_to_bytes [OF wf_example_tx]
  by (simp add: sane_tx_def example_tx_def tx_prevouts_def tx_out_total_def kNullPrevoutIndex_def)

section \<open>Properties\<close>

text \<open>C35. The sanity check accepts a transaction exactly when it has between 1 and 4096 inputs and
  outputs, spends no outpoint twice, uses the reserved outpoint only as a coinbase, keeps the
  exact (unbounded) sum of its outputs within the money limit and its encoding within 64 KiB;
  everything else is rejected with \<open>kInvalidTransaction\<close>.\<close>

theorem check_transaction_sanity_spec:
  "code_of (check_transaction_sanity tx) = (if sane_tx tx then None else Some kInvalidTransaction)"
  using check_transaction_sanity_iff [of tx] transaction_checks_code(1) [of tx]
  by (cases "check_transaction_sanity tx") force+

text \<open>C36. On a sane transaction the input check returns a fee exactly when every input is an
  unspent output and the exact input total fits 64 bits and covers the outputs; the fee is the
  exact difference. No crafted value passes by wrap-around.\<close>

theorem check_transaction_inputs_spec:
  assumes "sane_tx tx"
  shows "check_transaction_inputs tx s = Inr fee \<longleftrightarrow>
    set (tx_prevouts tx) \<subseteq> dom (utxo_view s) \<and>
    view_value (utxo_view s) (tx_prevouts tx) < 2 ^ 64 \<and>
    tx_out_total tx + unat fee = view_value (utxo_view s) (tx_prevouts tx)"
  using assms by (rule check_transaction_inputs_iff)

theorem check_transaction_inputs_witness:
  "check_transaction_inputs example_tx example_utxos = Inr 3"
  unfolding check_transaction_inputs_spec [OF sane_example_tx]
  by (auto simp: example_tx_def example_utxos_def tx_prevouts_def utxo_view_def
      view_value_def tx_out_total_def coin_value_def)

end
