(* ===== verification/Block_Validation.thy ===== *)
theory Block_Validation
  imports Tx_Validation
begin

text \<open>
  \<^verbatim>\<open>src/validation/block_validation.cpp\<close> and \<^verbatim>\<open>consensus/params.hpp\<close>: block sanity and the
  state transition \<open>connect_block\<close>. The transition is related to an abstract ledger, a partial
  function from outpoints to coins on which each transaction acts by removing what it spends
  and adding what it creates, with exact arithmetic.
\<close>

record ConsensusParams =
  block_subsidy :: u64
  coinbase_maturity :: u32

definition default_params :: ConsensusParams where
  "default_params = \<lparr>block_subsidy = kDefaultBlockSubsidy, coinbase_maturity = kDefaultCoinbaseMaturity\<rparr>"

section \<open>Block sanity\<close>

definition check_block_tx :: "Hash256 std_set \<Rightarrow> nat \<times> Transaction \<Rightarrow> Hash256 std_set Result" where
  "check_block_tx seen = (\<lambda>(i, tx).
     bindR (check_transaction_sanity tx) (\<lambda>_.
     if is_coinbase tx \<and> i \<noteq> 0
     then make_error kInvalidBlock ''coinbase must be the first transaction''
     else let (seen, inserted) = set_insert Hash256Less (tx_txid tx) seen
          in if \<not> inserted then make_error kInvalidBlock ''duplicate transaction in block''
             else Inr seen))"

definition check_block_sanity :: "Block \<Rightarrow> unit Result" where
  "check_block_sanity block =
     (if length (blk_transactions block) > unat kMaxTransactionsPerBlock
      then make_error kInvalidBlock ''too many transactions in block''
      else if length (block_to_bytes block) > unat kMaxBlockSizeBytes
      then make_error kInvalidBlock ''block exceeds maximum size''
      else if hdr_merkle_root (blk_header block) \<noteq> compute_merkle_root (blk_transactions block)
      then make_error kInvalidBlock ''merkle root does not match transactions''
      else bindR (foldR check_block_tx [] (List.enumerate 0 (blk_transactions block))) (\<lambda>_. Inr ()))"

section \<open>The state transition\<close>

definition add_outputs :: "Transaction \<Rightarrow> u32 \<Rightarrow> bool \<Rightarrow> UtxoSet \<Rightarrow> UtxoSet Result" where
  "add_outputs tx height coinbase working =
     (let txid = tx_txid tx
      in foldR (\<lambda>working (i, output).
           utxo_add \<lparr>op_txid = txid, op_index = of_nat i\<rparr>
             \<lparr>coin_output = output, coin_height = height, coin_coinbase = coinbase\<rparr> working)
           working (List.enumerate 0 (tx_outputs tx)))"

definition spend_inputs :: "Transaction \<Rightarrow> UtxoSet \<Rightarrow> UtxoSet Result" where
  "spend_inputs tx working =
     foldR (\<lambda>working input. bindR (utxo_spend (in_prevout input) working) (\<lambda>(_, working). Inr working))
       working (tx_inputs tx)"

text \<open>One iteration of the loop over the non-coinbase transactions.\<close>

definition connect_tx ::
    "u32 \<Rightarrow> ConsensusParams \<Rightarrow> u64 \<times> UtxoSet \<Rightarrow> Transaction \<Rightarrow> (u64 \<times> UtxoSet) Result" where
  "connect_tx height params = (\<lambda>(total_fees, working) tx.
     bindR (check_transaction_inputs tx working) (\<lambda>fee.
     bindR (check_coinbase_maturity tx working height (coinbase_maturity params)) (\<lambda>_.
     bindR (spend_inputs tx working) (\<lambda>working.
     bindR (add_outputs tx height False working) (\<lambda>working.
     case checked_add total_fees fee of
       None \<Rightarrow> make_error kInvalidBlock ''total block fees overflow''
     | Some total_fees \<Rightarrow> Inr (total_fees, working))))))"

definition has_coinbase :: "Block \<Rightarrow> bool" where
  "has_coinbase block \<longleftrightarrow> blk_transactions block \<noteq> [] \<and> is_coinbase (hd (blk_transactions block))"

definition connect_coinbase ::
    "u32 \<Rightarrow> ConsensusParams \<Rightarrow> Transaction \<Rightarrow> u64 \<times> UtxoSet \<Rightarrow> UtxoSet Result" where
  "connect_coinbase height params coinbase = (\<lambda>(total_fees, working).
     let coinbase_out = sum_outputs coinbase
     in case checked_add (block_subsidy params) total_fees of
          None \<Rightarrow> make_error kInvalidBlock ''coinbase reward overflow''
        | Some allowed \<Rightarrow>
            if coinbase_out > allowed
            then make_error kInvalidBlock ''coinbase pays more than subsidy plus fees''
            else add_outputs coinbase height True working)"

definition connect_working :: "Block \<Rightarrow> UtxoSet \<Rightarrow> ConsensusParams \<Rightarrow> (u64 \<times> UtxoSet) Result" where
  "connect_working block utxos params =
     bindR (check_block_sanity block) (\<lambda>_.
     let height = hdr_height (blk_header block);
         txs = (if has_coinbase block then tl (blk_transactions block) else blk_transactions block)
     in bindR (foldR (connect_tx height params) (0, utxos) txs) (\<lambda>(total_fees, working).
        if has_coinbase block
        then bindR (connect_coinbase height params (hd (blk_transactions block)) (total_fees, working))
               (\<lambda>working. Inr (total_fees, working))
        else Inr (total_fees, working)))"

text \<open>The caller's set is replaced only when the whole block was processed.\<close>

definition connect_block :: "Block \<Rightarrow> UtxoSet \<Rightarrow> ConsensusParams \<Rightarrow> u64 Result \<times> UtxoSet" where
  "connect_block block utxos params =
     (case connect_working block utxos params of
        Inl e \<Rightarrow> (Inl e, utxos)
      | Inr (total_fees, working) \<Rightarrow> (Inr total_fees, working))"

section \<open>Sanity, declaratively\<close>

definition sane_block :: "Block \<Rightarrow> bool" where
  "sane_block b \<longleftrightarrow>
     length (blk_transactions b) \<le> 65536 \<and> length (block_to_bytes b) \<le> 1048576 \<and>
     hdr_merkle_root (blk_header b) = compute_merkle_root (blk_transactions b) \<and>
     (\<forall>tx \<in> set (blk_transactions b). sane_tx tx) \<and>
     (\<forall>tx \<in> set (tl (blk_transactions b)). \<not> is_coinbase tx) \<and>
     distinct (map tx_txid (blk_transactions b))"

lemma check_block_txs_ok:
  assumes "sorted_wrt Hash256Less seen"
  shows "is_ok (foldR check_block_tx seen (List.enumerate n txs)) \<longleftrightarrow>
    (\<forall>tx \<in> set txs. sane_tx tx) \<and>
    (\<forall>tx \<in> set (if n = 0 then tl txs else txs). \<not> is_coinbase tx) \<and>
    distinct (map tx_txid txs) \<and> set (map tx_txid txs) \<inter> set seen = {}"
  using assms
proof (induction txs arbitrary: seen n)
  case (Cons tx txs)
  obtain seen' b where ins: "set_insert Hash256Less (tx_txid tx) seen = (seen', b)" by fastforce
  then have b: "b \<longleftrightarrow> tx_txid tx \<notin> set seen" "set seen' = insert (tx_txid tx) (set seen)"
    "sorted_wrt Hash256Less seen'"
    using hash_less.set_insert_new [OF Cons.prems, of "tx_txid tx"]
      hash_less.set_insert_set [of "tx_txid tx" seen]
      hash_less.set_insert_sorted [OF Cons.prems, of "tx_txid tx"] by simp_all
  show ?case
  proof (cases "sane_tx tx")
    case True
    then have "check_transaction_sanity tx = Inr ()" by (simp add: check_transaction_sanity_iff)
    then show ?thesis using Cons.IH [of seen' "Suc n"] b True
      by (auto simp: check_block_tx_def ins)
  next
    case False
    then obtain e where "check_transaction_sanity tx = Inl e"
      using check_transaction_sanity_iff [of tx] by (cases "check_transaction_sanity tx") auto
    then show ?thesis using False by (simp add: check_block_tx_def)
  qed
qed simp

lemma check_block_sanity_iff: "check_block_sanity b = Inr () \<longleftrightarrow> sane_block b"
  using check_block_txs_ok [of "[]" 0 "blk_transactions b"]
  by (auto simp: check_block_sanity_def sane_block_def result_simps is_ok_iff
      kMaxTransactionsPerBlock_def kMaxBlockSizeBytes_def)

lemma check_block_sanity_code [simp]:
  "fails_with {kInvalidBlock, kInvalidTransaction} (check_block_sanity b)"
  by (auto simp: check_block_sanity_def check_block_tx_def Let_def split: prod.splits
      intro!: fails_with_bindR fails_with_foldR fails_with_mono [OF transaction_checks_code(1)])

section \<open>The abstract ledger\<close>

type_synonym ledger = "OutPoint \<Rightarrow> Coin option"

definition output_coins :: "Transaction \<Rightarrow> u32 \<Rightarrow> bool \<Rightarrow> (OutPoint \<times> Coin) list" where
  "output_coins tx height coinbase =
     map (\<lambda>(i, output). (\<lparr>op_txid = tx_txid tx, op_index = of_nat i\<rparr>,
            \<lparr>coin_output = output, coin_height = height, coin_coinbase = coinbase\<rparr>))
       (List.enumerate 0 (tx_outputs tx))"

definition tx_outpoints :: "Transaction \<Rightarrow> OutPoint set" where
  "tx_outpoints tx = {\<lparr>op_txid = tx_txid tx, op_index = of_nat i\<rparr> | i. i < length (tx_outputs tx)}"

definition ledger_spend :: "Transaction \<Rightarrow> ledger \<Rightarrow> ledger" where
  "ledger_spend tx L = L |` (- set (tx_prevouts tx))"

definition ledger_create :: "Transaction \<Rightarrow> u32 \<Rightarrow> bool \<Rightarrow> ledger \<Rightarrow> ledger" where
  "ledger_create tx height coinbase L = L ++ map_of (output_coins tx height coinbase)"

text \<open>When a transaction may act on the ledger, and what it pays.\<close>

definition ledger_tx_ok :: "u32 \<Rightarrow> u32 \<Rightarrow> Transaction \<Rightarrow> ledger \<Rightarrow> bool" where
  "ledger_tx_ok height maturity tx L \<longleftrightarrow>
     set (tx_prevouts tx) \<subseteq> dom L \<and>
     (\<forall>op \<in> set (tx_prevouts tx). \<forall>c. L op = Some c \<longrightarrow> coin_mature height maturity c) \<and>
     view_value L (tx_prevouts tx) < 2 ^ 64 \<and> tx_out_total tx \<le> view_value L (tx_prevouts tx) \<and>
     (\<forall>op \<in> tx_outpoints tx. ledger_spend tx L op = None)"

definition ledger_fee :: "Transaction \<Rightarrow> ledger \<Rightarrow> nat" where
  "ledger_fee tx L = view_value L (tx_prevouts tx) - tx_out_total tx"

definition ledger_tx :: "u32 \<Rightarrow> Transaction \<Rightarrow> ledger \<Rightarrow> ledger" where
  "ledger_tx height tx L = ledger_create tx height False (ledger_spend tx L)"

fun ledger_txs :: "u32 \<Rightarrow> u32 \<Rightarrow> Transaction list \<Rightarrow> ledger \<Rightarrow> (nat \<times> ledger) option" where
  "ledger_txs height maturity [] L = Some (0, L)"
| "ledger_txs height maturity (tx # txs) L =
     (if ledger_tx_ok height maturity tx L
      then map_option (\<lambda>(fees, L'). (ledger_fee tx L + fees, L'))
             (ledger_txs height maturity txs (ledger_tx height tx L))
      else None)"

definition ledger_coinbase :: "u32 \<Rightarrow> u64 \<Rightarrow> Transaction \<Rightarrow> nat \<times> ledger \<Rightarrow> (nat \<times> ledger) option" where
  "ledger_coinbase height subsidy coinbase = (\<lambda>(fees, L).
     if unat subsidy + fees < 2 ^ 64 \<and> tx_out_total coinbase \<le> unat subsidy + fees \<and>
        (\<forall>op \<in> tx_outpoints coinbase. L op = None)
     then Some (fees, ledger_create coinbase height True L) else None)"

definition ledger_block :: "ConsensusParams \<Rightarrow> Block \<Rightarrow> ledger \<Rightarrow> (nat \<times> ledger) option" where
  "ledger_block params b L =
     (let height = hdr_height (blk_header b); txs = blk_transactions b;
          spends = ledger_txs height (coinbase_maturity params) (if has_coinbase b then tl txs else txs) L
      in if \<not> sane_block b then None
         else case spends of
           None \<Rightarrow> None
         | Some (fees, L') \<Rightarrow>
             if fees \<ge> 2 ^ 64 then None
             else if has_coinbase b then ledger_coinbase height (block_subsidy params) (hd txs) (fees, L')
             else Some (fees, L'))"

section \<open>Each step implements its ledger step\<close>

lemma finite_ledger_spend: "finite (dom L) \<Longrightarrow> finite (dom (ledger_spend tx L))"
  by (simp add: ledger_spend_def)

lemma finite_ledger_tx: "finite (dom L) \<Longrightarrow> finite (dom (ledger_tx h tx L))"
  by (simp add: ledger_tx_def ledger_create_def finite_ledger_spend finite_dom_map_of)

lemma finite_ledger_txs:
  "ledger_txs h m txs L = Some (n, L') \<Longrightarrow> finite (dom L) \<Longrightarrow> finite (dom L')"
  by (induction txs arbitrary: L n) (auto simp: finite_ledger_tx split: if_splits)

lemma ledger_coinbase_fees: "ledger_coinbase h sub tx (n, L) = Some (n', L') \<Longrightarrow> n' = n"
  by (auto simp: ledger_coinbase_def split: if_splits)

lemma output_coins_nth:
  "i < length (tx_outputs tx) \<Longrightarrow> output_coins tx h cb ! i = (\<lparr>op_txid = tx_txid tx, op_index = of_nat i\<rparr>,
     \<lparr>coin_output = tx_outputs tx ! i, coin_height = h, coin_coinbase = cb\<rparr>)"
  by (simp add: output_coins_def nth_enumerate_eq)

lemma length_output_coins [simp]: "length (output_coins tx h cb) = length (tx_outputs tx)"
  by (simp add: output_coins_def)

lemma keys_output_coins: "fst ` set (output_coins tx h cb) = tx_outpoints tx"
  by (force simp: tx_outpoints_def set_conv_nth output_coins_nth image_iff)

lemma distinct_output_coins:
  assumes "length (tx_outputs tx) \<le> 4096"
  shows "distinct (map fst (output_coins tx h cb))"
  unfolding distinct_conv_nth
proof (intro allI impI)
  fix i j
  assume ij: "i < length (map fst (output_coins tx h cb))" "j < length (map fst (output_coins tx h cb))"
    and "i \<noteq> j"
  then have "i < 2 ^ 32" "j < 2 ^ 32" "(of_nat i :: u32) \<noteq> of_nat j"
    using assms unat_of_nat_less [of i, where 'a = 32] unat_of_nat_less [of j, where 'a = 32] by auto
  then show "map fst (output_coins tx h cb) ! i \<noteq> map fst (output_coins tx h cb) ! j"
    using ij by (simp add: output_coins_nth)
qed

lemma output_coins_value: "(\<Sum>(op, c) \<leftarrow> output_coins tx h cb. coin_value c) = tx_out_total tx"
proof -
  have "(\<Sum>(i, out) \<leftarrow> List.enumerate n outs. unat (out_value out)) =
      (\<Sum>out \<leftarrow> outs. unat (out_value out))" for n and outs :: "TxOutput list"
    by (induction outs arbitrary: n) auto
  then show ?thesis
    by (simp add: output_coins_def tx_out_total_def coin_value_def case_prod_unfold comp_def)
qed

lemma add_coins_iff:
  "utxo_ok s \<Longrightarrow> distinct (map fst ps) \<Longrightarrow>
   foldR (\<lambda>w (op, c). utxo_add op c w) s ps = Inr s' \<longleftrightarrow>
     (\<forall>op \<in> fst ` set ps. utxo_view s op = None) \<and> utxo_ok s' \<and> utxo_view s' = utxo_view s ++ map_of ps"
proof (induction ps arbitrary: s)
  case Nil
  then show ?case by (auto intro: utxo_view_ext)
next
  case (Cons p ps)
  obtain op c where p: "p = (op, c)" by (cases p)
  show ?case
  proof
    assume "foldR (\<lambda>w (op, c). utxo_add op c w) s (p # ps) = Inr s'"
    then obtain s1 where "utxo_add op c s = Inr s1" "foldR (\<lambda>w (op, c). utxo_add op c w) s1 ps = Inr s'"
      by (auto simp: p result_simps)
    with Cons show "(\<forall>op \<in> fst ` set (p # ps). utxo_view s op = None) \<and> utxo_ok s' \<and>
        utxo_view s' = utxo_view s ++ map_of (p # ps)"
      by (fastforce simp: p utxo_add_iff map_add_def fun_eq_iff image_iff map_of_eq_None_iff
          split: option.splits if_splits)
  next
    assume r: "(\<forall>op \<in> fst ` set (p # ps). utxo_view s op = None) \<and> utxo_ok s' \<and>
        utxo_view s' = utxo_view s ++ map_of (p # ps)"
    then obtain s1 where s1: "utxo_add op c s = Inr s1"
      by (auto simp: p utxo_add_def utxo_view_def)
    then have v1: "utxo_ok s1" "utxo_view s1 = (utxo_view s)(op \<mapsto> c)"
      using Cons.prems by (auto simp: utxo_add_iff)
    have "op \<notin> fst ` set ps" using Cons.prems by (auto simp: p)
    then have "map_of ps op = None" by (simp add: map_of_eq_None_iff)
    then have "utxo_view s ++ map_of (p # ps) = utxo_view s1 ++ map_of ps"
      by (auto simp: v1 p map_add_def fun_eq_iff split: option.splits)
    moreover have "\<forall>op \<in> fst ` set ps. utxo_view s1 op = None"
      using r \<open>op \<notin> fst ` set ps\<close> by (auto simp: v1)
    ultimately have "foldR (\<lambda>w (op, c). utxo_add op c w) s1 ps = Inr s'"
      using Cons.IH [OF v1(1)] Cons.prems r by (simp add: p)
    with s1 show "foldR (\<lambda>w (op, c). utxo_add op c w) s (p # ps) = Inr s'" by (simp add: p)
  qed
qed

lemma add_outputs_coins:
  "add_outputs tx h cb s = foldR (\<lambda>w (op, c). utxo_add op c w) s (output_coins tx h cb)"
proof -
  have map: "foldR f s (map g xs) = foldR (\<lambda>s x. f s (g x)) s xs" for f s g and xs :: "(nat \<times> TxOutput) list"
    by (induction xs arbitrary: s) auto
  show ?thesis
    by (simp add: add_outputs_def output_coins_def map case_prod_unfold)
qed

lemma add_outputs_iff:
  "utxo_ok s \<Longrightarrow> sane_tx tx \<Longrightarrow> add_outputs tx h cb s = Inr s' \<longleftrightarrow>
     (\<forall>op \<in> tx_outpoints tx. utxo_view s op = None) \<and> utxo_ok s' \<and>
     utxo_view s' = ledger_create tx h cb (utxo_view s)"
  using add_coins_iff [of s "output_coins tx h cb" s']
  by (simp add: add_outputs_coins keys_output_coins distinct_output_coins ledger_create_def sane_tx_def)

lemma add_outputs_total:
  assumes "utxo_ok s" and "add_outputs tx h cb s = Inr s'"
  shows "utxo_total s' = utxo_total s + tx_out_total tx"
proof -
  have "utxo_total s' = utxo_total s + (\<Sum>(op, c) \<leftarrow> ps. coin_value c)"
    if "utxo_ok s" "foldR (\<lambda>w (op, c). utxo_add op c w) s ps = Inr s'" for s ps
    using that
  proof (induction ps arbitrary: s)
    case (Cons p ps)
    obtain op c where p: "p = (op, c)" by (cases p)
    with Cons.prems obtain s1 where s1: "utxo_add op c s = Inr s1"
      and "foldR (\<lambda>w (op, c). utxo_add op c w) s1 ps = Inr s'" by (auto simp: result_simps)
    with Cons.IH [of s1] Cons.prems(1) show ?case
      by (auto simp: p utxo_add_iff utxo_add_total)
  qed simp
  with assms show ?thesis by (simp add: add_outputs_coins output_coins_value)
qed

lemma spend_inputs_iff:
  assumes "utxo_ok s" and "distinct (tx_prevouts tx)"
  shows "spend_inputs tx s = Inr s' \<longleftrightarrow>
    set (tx_prevouts tx) \<subseteq> dom (utxo_view s) \<and> utxo_ok s' \<and> utxo_view s' = ledger_spend tx (utxo_view s)"
proof -
  have "foldR (\<lambda>w input. bindR (utxo_spend (in_prevout input) w) (\<lambda>(_, w). Inr w)) s ins = Inr s' \<longleftrightarrow>
      in_prevout ` set ins \<subseteq> dom (utxo_view s) \<and> utxo_ok s' \<and>
      utxo_view s' = utxo_view s |` (- in_prevout ` set ins)"
    if "utxo_ok s" "distinct (map in_prevout ins)" for s ins
    using that
  proof (induction ins arbitrary: s)
    case Nil
    then show ?case by (auto intro: utxo_view_ext)
  next
    case (Cons i ins)
    show ?case
    proof (cases "utxo_view s (in_prevout i)")
      case None
      then have "\<not> is_ok (utxo_spend (in_prevout i) s)" by (simp add: utxo_spend_def utxo_view_def)
      then show ?thesis using None by (auto simp: result_simps is_ok_iff)
    next
      case (Some c)
      then obtain s1 where s1: "utxo_spend (in_prevout i) s = Inr (c, s1)"
        by (auto simp: utxo_spend_def utxo_view_def)
      then have v1: "utxo_ok s1" "utxo_view s1 = (utxo_view s)(in_prevout i := None)"
        using Cons.prems by (auto simp: utxo_spend_iff)
      have restrict: "utxo_view s1 |` (- in_prevout ` set ins) = utxo_view s |` (- in_prevout ` set (i # ins))"
        by (auto simp: v1(2) restrict_map_def fun_eq_iff)
      have "in_prevout ` set ins \<subseteq> dom (utxo_view s1) \<longleftrightarrow> in_prevout ` set ins \<subseteq> dom (utxo_view s)"
        using Cons.prems by (auto simp: v1(2)) (metis image_eqI)
      moreover have "in_prevout ` set (i # ins) \<subseteq> dom (utxo_view s) \<longleftrightarrow> in_prevout ` set ins \<subseteq> dom (utxo_view s)"
        using Some by auto
      moreover have "distinct (map in_prevout ins)" using Cons.prems by simp
      ultimately show ?thesis
        using Cons.IH [OF v1(1)] unfolding restrict by (simp add: s1)
    qed
  qed
  from this [of s "tx_inputs tx"] assms show ?thesis
    by (simp add: spend_inputs_def ledger_spend_def tx_prevouts_def)
qed

lemma spend_inputs_total:
  assumes "utxo_ok s" and "distinct (tx_prevouts tx)" and "spend_inputs tx s = Inr s'"
  shows "utxo_total s' + view_value (utxo_view s) (tx_prevouts tx) = utxo_total s"
proof -
  have "utxo_total s' + view_value (utxo_view s) (map in_prevout ins) = utxo_total s"
    if "utxo_ok s" "distinct (map in_prevout ins)"
      "foldR (\<lambda>w input. bindR (utxo_spend (in_prevout input) w) (\<lambda>(_, w). Inr w)) s ins = Inr s'" for s ins
    using that
  proof (induction ins arbitrary: s)
    case (Cons i ins)
    then obtain c s1 where s1: "utxo_spend (in_prevout i) s = Inr (c, s1)"
      and rest: "foldR (\<lambda>w input. bindR (utxo_spend (in_prevout input) w) (\<lambda>(_, w). Inr w)) s1 ins = Inr s'"
      by (auto simp: result_simps)
    then have v1: "utxo_ok s1" "utxo_view s (in_prevout i) = Some c"
      "utxo_view s1 = (utxo_view s)(in_prevout i := None)"
      using Cons.prems by (auto simp: utxo_spend_iff)
    have "view_value (utxo_view s1) (map in_prevout ins) = view_value (utxo_view s) (map in_prevout ins)"
      unfolding view_value_def v1(3) using Cons.prems(2) by (intro arg_cong [of _ _ sum_list] map_cong) (auto, metis image_eqI)
    then show ?case
      using Cons.IH [OF v1(1) _ rest] Cons.prems utxo_spend_total [OF _ s1] v1(2)
      by (simp add: view_value_def)
  qed (simp add: view_value_def)
  from this [of s "tx_inputs tx"] assms show ?thesis by (simp add: spend_inputs_def tx_prevouts_def)
qed

lemma connect_tx_iff:
  assumes "utxo_ok s" and "sane_tx tx"
  shows "connect_tx height params (fees, s) tx = Inr (fees', s') \<longleftrightarrow>
    ledger_tx_ok height (coinbase_maturity params) tx (utxo_view s) \<and>
    unat fees + ledger_fee tx (utxo_view s) < 2 ^ 64 \<and>
    unat fees' = unat fees + ledger_fee tx (utxo_view s) \<and>
    utxo_ok s' \<and> utxo_view s' = ledger_tx height tx (utxo_view s)" (is "?L \<longleftrightarrow> ?R")
proof -
  have dist: "distinct (tx_prevouts tx)" using assms(2) by (simp add: sane_tx_def)
  note iffs = check_transaction_inputs_iff [OF assms(2)] check_coinbase_maturity_iff
    spend_inputs_iff [OF assms(1) dist] add_outputs_iff [OF _ assms(2)] checked_add_Some
  show ?thesis
  proof
    assume ?L
    then obtain fee w where "check_transaction_inputs tx s = Inr fee"
      "check_coinbase_maturity tx s height (coinbase_maturity params) = Inr ()"
      "spend_inputs tx s = Inr w" "add_outputs tx height False w = Inr s'"
      "checked_add fees fee = Some fees'"
      by (auto simp: connect_tx_def result_simps split: option.splits)
    moreover from this have "utxo_ok w" by (simp add: iffs)
    ultimately show ?R
      by (auto simp: iffs ledger_tx_ok_def ledger_tx_def ledger_fee_def unat_add_no_wrap)
  next
    assume r: ?R
    let ?v = "view_value (utxo_view s) (tx_prevouts tx)"
    define fee :: u64 where "fee = of_nat (ledger_fee tx (utxo_view s))"
    have fee: "unat fee = ledger_fee tx (utxo_view s)"
      unfolding fee_def by (rule unat_of_nat_less) (use r in simp)
    have "tx_out_total tx + unat fee = ?v"
      using r fee by (simp add: ledger_tx_ok_def ledger_fee_def)
    then have c1: "check_transaction_inputs tx s = Inr fee"
      using r by (auto simp: iffs ledger_tx_ok_def)
    have c2: "check_coinbase_maturity tx s height (coinbase_maturity params) = Inr ()"
      using r by (auto simp: iffs ledger_tx_ok_def)
    obtain w where vw: "utxo_ok w" "utxo_view w = ledger_spend tx (utxo_view s)"
      using utxo_view_surj [OF finite_ledger_spend [OF finite_utxo_view]] by blast
    then have w: "spend_inputs tx s = Inr w" using r by (simp add: iffs ledger_tx_ok_def)
    have c3: "add_outputs tx height False w = Inr s'"
      using r vw by (simp add: iffs ledger_tx_ok_def ledger_tx_def)
    have "checked_add fees fee = Some fees'"
      using r fee unat_add_no_wrap [of fees fee] by (simp add: iffs word_unat_eq_iff)
    with c1 c2 w c3 show ?L by (simp add: connect_tx_def)
  qed
qed

lemma connect_txs_iff:
  assumes "utxo_ok s" and "\<forall>tx \<in> set txs. sane_tx tx"
  shows "foldR (connect_tx height params) (fees, s) txs = Inr (fees', s') \<longleftrightarrow>
    (\<exists>n. ledger_txs height (coinbase_maturity params) txs (utxo_view s) = Some (n, utxo_view s') \<and>
      unat fees + n < 2 ^ 64 \<and> unat fees' = unat fees + n \<and> utxo_ok s')"
  using assms
proof (induction txs arbitrary: s fees)
  case Nil
  then show ?case
    using unat_u64_less [of fees] by (auto simp: word_unat_eq_iff intro: utxo_view_ext)
next
  case (Cons tx txs)
  let ?L = "utxo_view s" and ?m = "coinbase_maturity params"
  have sane: "sane_tx tx" "\<forall>tx \<in> set txs. sane_tx tx" using Cons.prems by simp_all
  note step = connect_tx_iff [OF Cons.prems(1) sane(1)]
  show ?case
  proof
    assume "foldR (connect_tx height params) (fees, s) (tx # txs) = Inr (fees', s')"
    then obtain f1 s1 where s1: "connect_tx height params (fees, s) tx = Inr (f1, s1)"
      and rest: "foldR (connect_tx height params) (f1, s1) txs = Inr (fees', s')"
      by (auto simp: result_simps)
    from s1 have ok1: "utxo_ok s1" by (simp add: step)
    from s1 rest Cons.IH [OF ok1 sane(2), of f1] show
      "\<exists>n. ledger_txs height ?m (tx # txs) ?L = Some (n, utxo_view s') \<and>
         unat fees + n < 2 ^ 64 \<and> unat fees' = unat fees + n \<and> utxo_ok s'"
      by (auto simp: step)
  next
    assume "\<exists>n. ledger_txs height ?m (tx # txs) ?L = Some (n, utxo_view s') \<and>
         unat fees + n < 2 ^ 64 \<and> unat fees' = unat fees + n \<and> utxo_ok s'"
    then obtain n where tx_ok: "ledger_tx_ok height ?m tx ?L"
      and n: "ledger_txs height ?m txs (ledger_tx height tx ?L) = Some (n, utxo_view s')"
      and bound: "unat fees + (ledger_fee tx ?L + n) < 2 ^ 64"
      and fees': "unat fees' = unat fees + (ledger_fee tx ?L + n)" and ok': "utxo_ok s'"
      by (auto split: if_splits)
    obtain s1 where ok1: "utxo_ok s1" and v1: "utxo_view s1 = ledger_tx height tx ?L"
      using utxo_view_surj [OF finite_ledger_tx [OF finite_utxo_view]] by blast
    define f1 :: u64 where "f1 = of_nat (unat fees + ledger_fee tx ?L)"
    have f1: "unat f1 = unat fees + ledger_fee tx ?L"
      unfolding f1_def by (rule unat_of_nat_less) (use bound in simp)
    have "connect_tx height params (fees, s) tx = Inr (f1, s1)"
      using tx_ok bound f1 ok1 v1 by (simp add: step)
    moreover have "foldR (connect_tx height params) (f1, s1) txs = Inr (fees', s')"
      using n bound fees' ok' by (simp add: Cons.IH [OF ok1 sane(2)] v1 f1)
    ultimately show "foldR (connect_tx height params) (fees, s) (tx # txs) = Inr (fees', s')" by simp
  qed
qed

lemma connect_coinbase_iff:
  assumes "utxo_ok s" and "sane_tx tx"
  shows "connect_coinbase height params tx (fees, s) = Inr s' \<longleftrightarrow>
    ledger_coinbase height (block_subsidy params) tx (unat fees, utxo_view s) =
      Some (unat fees, utxo_view s') \<and> utxo_ok s'"
  using sum_outputs_total [OF sane_tx_out_total [OF assms(2)]] add_outputs_iff [OF assms, of height True s']
  by (auto simp: connect_coinbase_def ledger_coinbase_def Let_def result_simps checked_add_Some checked_add_None
      word_less_nat_alt unat_add_no_wrap split: option.splits if_splits)

lemma connect_working_iff:
  assumes "utxo_ok s"
  shows "connect_working b s params = Inr (fees, s') \<longleftrightarrow>
    ledger_block params b (utxo_view s) = Some (unat fees, utxo_view s') \<and> utxo_ok s'"
proof (cases "sane_block b")
  case False
  then have "check_block_sanity b \<noteq> Inr ()" by (simp add: check_block_sanity_iff)
  with False show ?thesis by (auto simp: connect_working_def ledger_block_def result_simps)
next
  case True
  let ?h = "hdr_height (blk_header b)" and ?m = "coinbase_maturity params"
  let ?txs = "if has_coinbase b then tl (blk_transactions b) else blk_transactions b"
  have sane: "\<forall>tx \<in> set (blk_transactions b). sane_tx tx" using True by (simp add: sane_block_def)
  then have sane_txs: "\<forall>tx \<in> set ?txs. sane_tx tx"
    by (cases "blk_transactions b") auto
  have sane_hd: "has_coinbase b \<Longrightarrow> sane_tx (hd (blk_transactions b))"
    using sane by (simp add: has_coinbase_def)
  have "connect_working b s params = Inr (fees, s') \<longleftrightarrow>
     (\<exists>w. foldR (connect_tx ?h params) (0, s) ?txs = Inr (fees, w) \<and>
        (if has_coinbase b then connect_coinbase ?h params (hd (blk_transactions b)) (fees, w) = Inr s'
         else s' = w))"
    using True by (auto simp: connect_working_def result_simps Let_def simp flip: check_block_sanity_iff)
  also have "\<dots> \<longleftrightarrow> (\<exists>w. ledger_txs ?h ?m ?txs (utxo_view s) = Some (unat fees, utxo_view w) \<and> utxo_ok w \<and>
        (if has_coinbase b
         then ledger_coinbase ?h (block_subsidy params) (hd (blk_transactions b)) (unat fees, utxo_view w) =
                Some (unat fees, utxo_view s') \<and> utxo_ok s'
         else s' = w))"
    using unat_u64_less [of fees]
    by (auto simp: connect_txs_iff [OF assms sane_txs] connect_coinbase_iff sane_hd)
  also have "\<dots> \<longleftrightarrow> ledger_block params b (utxo_view s) = Some (unat fees, utxo_view s') \<and> utxo_ok s'"
    (is "?lhs \<longleftrightarrow> ?rhs")
  proof
    assume ?lhs
    then show ?rhs using True unat_u64_less [of fees]
      by (auto simp: ledger_block_def Let_def split: if_splits)
  next
    assume r: ?rhs
    then obtain n L where L: "ledger_txs ?h ?m ?txs (utxo_view s) = Some (n, L)"
      and rest: "if has_coinbase b
        then ledger_coinbase ?h (block_subsidy params) (hd (blk_transactions b)) (n, L) =
          Some (unat fees, utxo_view s')
        else n = unat fees \<and> utxo_view s' = L"
      using True by (auto simp: ledger_block_def Let_def split: option.splits if_splits)
    have "n = unat fees" using rest by (auto split: if_splits dest: ledger_coinbase_fees)
    obtain w where "utxo_ok w" "utxo_view w = L"
      using utxo_view_surj [OF finite_ledger_txs [OF L finite_utxo_view]] by blast
    with L rest r \<open>n = unat fees\<close> show ?lhs by (auto split: if_splits intro: utxo_view_ext)
  qed
  finally show ?thesis .
qed

lemma ledger_block_fees: "ledger_block params b L = Some (n, L') \<Longrightarrow> n < 2 ^ 64"
  by (auto simp: ledger_block_def ledger_coinbase_def Let_def split: option.splits if_splits)

lemma finite_ledger_block:
  "ledger_block params b L = Some (n, L') \<Longrightarrow> finite (dom L) \<Longrightarrow> finite (dom L')"
  by (auto simp: ledger_block_def ledger_coinbase_def ledger_create_def Let_def finite_dom_map_of
      split: option.splits if_splits; metis finite_ledger_txs)

section \<open>Money\<close>

lemma connect_tx_total:
  assumes "utxo_ok s" and "sane_tx tx" and "connect_tx height params (fees, s) tx = Inr (fees', s')"
  shows "utxo_total s' + unat fees' = utxo_total s + unat fees"
proof -
  have dist: "distinct (tx_prevouts tx)" using assms(2) by (simp add: sane_tx_def)
  from assms(3) obtain fee w where "check_transaction_inputs tx s = Inr fee"
    and w: "spend_inputs tx s = Inr w" "add_outputs tx height False w = Inr s'"
    and "checked_add fees fee = Some fees'"
    by (auto simp: connect_tx_def result_simps split: option.splits)
  then have "tx_out_total tx + unat fee = view_value (utxo_view s) (tx_prevouts tx)"
    "unat fees' = unat fees + unat fee" "utxo_ok w"
    using assms spend_inputs_iff [OF assms(1) dist]
    by (auto simp: check_transaction_inputs_iff checked_add_Some unat_add_no_wrap)
  then show ?thesis
    using spend_inputs_total [OF assms(1) dist w(1)] add_outputs_total [OF _ w(2)] by simp
qed

lemma connect_txs_total:
  assumes "utxo_ok s" and "\<forall>tx \<in> set txs. sane_tx tx"
    and "foldR (connect_tx height params) (fees, s) txs = Inr (fees', s')"
  shows "utxo_total s' + unat fees' = utxo_total s + unat fees \<and> utxo_ok s'"
proof -
  let ?P = "\<lambda>(f, t). utxo_ok t \<and> utxo_total t + unat f = utxo_total s + unat fees"
  have "?P (fees', s')"
  proof (rule foldR_invariant [OF assms(3), of ?P])
    show "?P st'" if "tx \<in> set txs" "?P st" "connect_tx height params st tx = Inr st'" for st tx st'
      using that assms(2) connect_tx_total [of "snd st" tx height params "fst st" "fst st'" "snd st'"]
        connect_tx_iff [of "snd st" tx height params "fst st" "fst st'" "snd st'"]
      by (cases st; cases st') auto
  qed (use assms(1) in simp)
  then show ?thesis by simp
qed

definition coinbase_total :: "Block \<Rightarrow> nat" where
  "coinbase_total b = (if has_coinbase b then tx_out_total (hd (blk_transactions b)) else 0)"

lemma connect_working_total:
  assumes "utxo_ok s" and "connect_working b s params = Inr (fees, s')"
  shows "utxo_total s' + unat fees = utxo_total s + coinbase_total b \<and>
    coinbase_total b \<le> unat (block_subsidy params) + unat fees"
proof -
  let ?h = "hdr_height (blk_header b)"
  let ?txs = "if has_coinbase b then tl (blk_transactions b) else blk_transactions b"
  from assms(2) obtain w where sane: "sane_block b"
    and w: "foldR (connect_tx ?h params) (0, s) ?txs = Inr (fees, w)"
    and cb: "if has_coinbase b then connect_coinbase ?h params (hd (blk_transactions b)) (fees, w) = Inr s'
      else s' = w"
    by (auto simp: connect_working_def result_simps Let_def check_block_sanity_iff split: if_splits)
  have "\<forall>tx \<in> set ?txs. sane_tx tx" using sane by (cases "blk_transactions b") (auto simp: sane_block_def)
  from connect_txs_total [OF assms(1) this w]
  have w': "utxo_total w + unat fees = utxo_total s" "utxo_ok w" by simp_all
  show ?thesis
  proof (cases "has_coinbase b")
    case True
    let ?cb = "hd (blk_transactions b)"
    have "sane_tx ?cb" using True sane by (simp add: has_coinbase_def sane_block_def)
    moreover have "add_outputs ?cb ?h True w = Inr s'" "\<not> sum_outputs ?cb > block_subsidy params + fees"
      "unat (block_subsidy params) + unat fees < 2 ^ 64"
      using True cb by (auto simp: connect_coinbase_def Let_def result_simps checked_add_Some
          split: option.splits if_splits)
    ultimately show ?thesis
      using True w' add_outputs_total [OF w'(2)] sum_outputs_total [OF sane_tx_out_total, of ?cb]
      by (auto simp: coinbase_total_def word_less_nat_alt unat_add_no_wrap)
  qed (use w' cb in \<open>simp add: coinbase_total_def\<close>)
qed

section \<open>Maturity and double spends\<close>

lemma ledger_create_other: "op \<notin> tx_outpoints tx \<Longrightarrow> ledger_create tx h cb L op = L op"
  using keys_output_coins [of tx h cb]
  by (auto simp: ledger_create_def map_add_def map_of_eq_None_iff split: option.splits)
    (metis map_of_eq_None_iff option.distinct(1))

lemma dom_ledger_create: "dom (ledger_create tx h cb L) = dom L \<union> tx_outpoints tx"
  using keys_output_coins [of tx h cb] by (auto simp: ledger_create_def dom_map_of_conv_image_fst)

lemma ledger_tx_keeps:
  assumes "ledger_tx_ok h m tx L" and "L op = Some c" and "op \<notin> set (tx_prevouts tx)"
  shows "ledger_tx h tx L op = Some c"
proof -
  have "ledger_spend tx L op = Some c" using assms(2,3) by (simp add: ledger_spend_def)
  moreover from this assms(1) have "op \<notin> tx_outpoints tx" by (auto simp: ledger_tx_ok_def)
  ultimately show ?thesis by (simp add: ledger_tx_def ledger_create_other)
qed

lemma ledger_txs_immature:
  "ledger_txs h m txs L = Some (n, L') \<Longrightarrow> L op = Some c \<Longrightarrow> \<not> coin_mature h m c \<Longrightarrow> L' op = Some c"
proof (induction txs arbitrary: L n)
  case (Cons tx txs)
  then have ok: "ledger_tx_ok h m tx L" by (auto split: if_splits)
  moreover from this Cons.prems have "op \<notin> set (tx_prevouts tx)" by (auto simp: ledger_tx_ok_def)
  ultimately have "ledger_tx h tx L op = Some c" using Cons.prems by (intro ledger_tx_keeps)
  with Cons ok show ?case by auto
qed simp

text \<open>An outpoint that no later transaction can create again is not spent any more.\<close>

lemma ledger_txs_absent:
  "ledger_txs h m txs L = Some (n, L') \<Longrightarrow> op \<notin> dom L \<Longrightarrow> \<forall>tx \<in> set txs. op \<notin> tx_outpoints tx \<Longrightarrow>
     op \<notin> set (concat (map tx_prevouts txs))"
proof (induction txs arbitrary: L n)
  case (Cons tx txs)
  then have ok: "ledger_tx_ok h m tx L" by (auto split: if_splits)
  have "op \<notin> dom (ledger_tx h tx L)"
    using Cons.prems(2,3) by (simp add: ledger_tx_def dom_ledger_create ledger_spend_def)
  then have "op \<notin> set (concat (map tx_prevouts txs))" using Cons ok by auto
  moreover have "op \<notin> set (tx_prevouts tx)" using ok Cons.prems(2) by (auto simp: ledger_tx_ok_def)
  ultimately show ?case by simp
qed simp

lemma outpoints_disjoint: "tx_txid a \<noteq> tx_txid b \<Longrightarrow> tx_outpoints a \<inter> tx_outpoints b = {}"
  by (auto simp: tx_outpoints_def)

lemma ledger_txs_distinct:
  "ledger_txs h m txs L = Some (n, L') \<Longrightarrow> \<forall>tx \<in> set txs. distinct (tx_prevouts tx) \<Longrightarrow>
     distinct (map tx_txid txs) \<Longrightarrow> \<forall>tx \<in> set txs. tx_outpoints tx \<inter> dom L = {} \<Longrightarrow>
     distinct (concat (map tx_prevouts txs))"
proof (induction txs arbitrary: L n)
  case (Cons tx txs)
  let ?L = "ledger_tx h tx L"
  from Cons.prems obtain n' where ok: "ledger_tx_ok h m tx L" and rest: "ledger_txs h m txs ?L = Some (n', L')"
    by (auto split: if_splits)
  have dom: "dom ?L = (dom L - set (tx_prevouts tx)) \<union> tx_outpoints tx"
    by (auto simp: ledger_tx_def dom_ledger_create ledger_spend_def)
  have "\<forall>tx' \<in> set txs. tx_outpoints tx' \<inter> tx_outpoints tx = {}"
    using Cons.prems(3) by (intro ballI outpoints_disjoint) (auto simp: image_iff)
  then have fresh: "\<forall>tx \<in> set txs. tx_outpoints tx \<inter> dom ?L = {}"
    using Cons.prems(4) unfolding dom by (simp add: Int_Un_distrib) blast
  have "distinct (concat (map tx_prevouts txs))"
    using Cons.prems by (intro Cons.IH [OF rest _ _ fresh]) auto
  moreover have "op \<notin> set (concat (map tx_prevouts txs))" if op: "op \<in> set (tx_prevouts tx)" for op
  proof (rule ledger_txs_absent [OF rest])
    have "op \<in> dom L" using ok op by (auto simp: ledger_tx_ok_def)
    then have "\<forall>tx' \<in> set (tx # txs). op \<notin> tx_outpoints tx'" using Cons.prems(4) by blast
    then show "op \<notin> dom ?L" "\<forall>tx \<in> set txs. op \<notin> tx_outpoints tx"
      using op unfolding dom by auto
  qed
  ultimately show ?case using Cons.prems(2) by auto
qed simp

definition spending_txs :: "Block \<Rightarrow> Transaction list" where
  "spending_txs b = (if has_coinbase b then tl (blk_transactions b) else blk_transactions b)"

lemma connect_block_Inr:
  "connect_block b s params = (Inr fees, s') \<longleftrightarrow> connect_working b s params = Inr (fees, s')"
  by (auto simp: connect_block_def split: sum.splits)

lemma connect_block_error: "connect_block b s params = (Inl e, s') \<Longrightarrow> s' = s"
  by (auto simp: connect_block_def split: sum.splits)

lemma connect_block_Inl:
  "connect_block b s params = (Inl e, s') \<longleftrightarrow> connect_working b s params = Inl e \<and> s' = s"
  by (auto simp: connect_block_def split: sum.splits)

lemma ledger_block_txs:
  assumes "ledger_block params b L = Some (n, L')"
  obtains n1 L1 where "sane_block b"
    "ledger_txs (hdr_height (blk_header b)) (coinbase_maturity params) (spending_txs b) L = Some (n1, L1)"
    "L' = (if has_coinbase b then ledger_create (hd (blk_transactions b)) (hdr_height (blk_header b)) True L1 else L1)"
    "has_coinbase b \<longrightarrow> (\<forall>op \<in> tx_outpoints (hd (blk_transactions b)). L1 op = None)"
  using assms
  by (auto simp: ledger_block_def ledger_coinbase_def spending_txs_def Let_def
      split: option.splits if_splits)

lemma connect_block_code [simp]:
  "fails_with {kInvalidBlock, kInvalidTransaction, kInvalidStateTransition} (fst (connect_block b s params))"
proof -
  let ?C = "{kInvalidBlock, kInvalidTransaction, kInvalidStateTransition}"
  have add: "fails_with ?C (add_outputs tx h cb w)" for tx h cb w
    unfolding add_outputs_def Let_def by (rule fails_with_foldR) (auto simp: utxo_add_def)
  have spend: "fails_with ?C (spend_inputs tx w)" for tx w
    by (auto simp: spend_inputs_def utxo_spend_def intro!: fails_with_foldR split: option.splits)
  have tx: "fails_with ?C (connect_tx h params st tx)" for h st tx
    by (cases st) (auto simp: connect_tx_def add spend split: option.splits
        intro!: fails_with_bindR fails_with_mono [OF transaction_checks_code(2)]
          fails_with_mono [OF transaction_checks_code(3)])
  have "fails_with ?C (connect_working b s params)"
    by (auto simp: connect_working_def connect_coinbase_def Let_def tx add split: option.splits prod.splits
        intro!: fails_with_bindR fails_with_foldR fails_with_mono [OF check_block_sanity_code])
  then show ?thesis by (auto simp: connect_block_def split: sum.splits)
qed

section \<open>Properties\<close>

text \<open>A block at height 150 that spends the example coinbase, and the set it leaves.\<close>

definition example_block :: Block where
  "example_block = \<lparr>blk_header = \<lparr>hdr_version = 1, hdr_prev_block = zero_hash,
     hdr_merkle_root = tx_txid example_tx, hdr_timestamp = 0, hdr_height = 150\<rparr>,
     blk_transactions = [example_tx]\<rparr>"

definition example_utxos' :: UtxoSet where
  "example_utxos' = \<lparr>coins = [(\<lparr>op_txid = tx_txid example_tx, op_index = 0\<rparr>,
     \<lparr>coin_output = \<lparr>out_value = 7, out_recipient = zero_hash\<rparr>, coin_height = 150, coin_coinbase = False\<rparr>)]\<rparr>"

lemma not_coinbase_example: "\<not> is_coinbase example_tx"
  by (simp add: is_coinbase_def example_tx_def kNullPrevoutIndex_def)

lemma sane_example_block: "sane_block example_block"
proof -
  have "wf_header (blk_header example_block)"
    by (simp add: example_block_def wf_header_def)
  then have "length (enc_header (blk_header example_block)) = 80"
    using length_header_bytes by (simp add: wire_simps)
  moreover have "length (enc_tx example_tx) \<le> 65536"
    using sane_example_tx by (simp add: sane_tx_def wire_simps)
  ultimately show ?thesis
    using sane_example_tx
    by (simp add: sane_block_def example_block_def wire_simps enc_block_def enc_counted_def
        compute_merkle_root_def merkle_reduce.simps)
qed

lemma utxo_ok_example: "utxo_ok example_utxos"
  by (simp add: utxo_ok_def example_utxos_def map_ok_def)

lemma connect_example: "connect_block example_block example_utxos default_params = (Inr 3, example_utxos')"
proof -
  have "check_block_sanity example_block = Inr ()"
    using sane_example_block by (simp add: check_block_sanity_iff)
  moreover have "check_transaction_inputs example_tx example_utxos = Inr 3"
    unfolding check_transaction_inputs_iff [OF sane_example_tx]
    by (auto simp: example_tx_def example_utxos_def tx_prevouts_def utxo_view_def
        view_value_def tx_out_total_def coin_value_def)
  moreover have "check_coinbase_maturity example_tx example_utxos 150 (coinbase_maturity default_params) = Inr ()"
    by (auto simp: check_coinbase_maturity_iff example_utxos_def utxo_view_def coin_mature_def
        default_params_def kDefaultCoinbaseMaturity_def split: if_splits)
  moreover have "spend_inputs example_tx example_utxos = Inr empty_utxos"
    by (simp add: spend_inputs_def example_tx_def example_utxos_def utxo_spend_def empty_utxos_def)
  moreover have "add_outputs example_tx 150 False empty_utxos = Inr example_utxos'"
    by (simp add: add_outputs_def utxo_add_def empty_utxos_def example_utxos'_def)
      (simp add: example_tx_def utxo_add_def)
  moreover have "checked_add 0 3 = Some 3" by (simp add: checked_add_def)
  ultimately show ?thesis
    by (simp add: connect_block_Inr connect_working_def has_coinbase_def not_coinbase_example connect_tx_def)
      (simp add: example_block_def not_coinbase_example connect_tx_def)
qed

text \<open>C1. Connecting a block implements the ledger transition exactly. It succeeds precisely
  when the abstract ledger accepts the block, returns the ledger's total fee and leaves a set
  that represents the ledger's result; when the ledger rejects the block the call fails and the
  caller's set is untouched. Transactions act in order, each on the ledger its predecessors
  left, and the coinbase acts last.\<close>

theorem connect_block_refines_ledger:
  assumes "utxo_ok s"
  shows "case connect_block b s params of
      (Inr fees, s') \<Rightarrow> ledger_block params b (utxo_view s) = Some (unat fees, utxo_view s') \<and> utxo_ok s'
    | (Inl e, s') \<Rightarrow> ledger_block params b (utxo_view s) = None \<and> s' = s"
proof (cases "connect_working b s params")
  case (Inl e)
  have "ledger_block params b (utxo_view s) = None"
  proof (rule ccontr)
    assume "ledger_block params b (utxo_view s) \<noteq> None"
    then obtain n L where L: "ledger_block params b (utxo_view s) = Some (n, L)" by auto
    obtain s' where "utxo_ok s'" "utxo_view s' = L"
      using utxo_view_surj [OF finite_ledger_block [OF L finite_utxo_view]] by blast
    then have "connect_working b s params = Inr (of_nat n, s')"
      using L ledger_block_fees [OF L] by (simp add: connect_working_iff [OF assms] unat_of_nat_less)
    with Inl show False by simp
  qed
  with Inl show ?thesis by (simp add: connect_block_def)
next
  case (Inr r)
  then obtain fees s' where r: "connect_working b s params = Inr (fees, s')" by (cases r) simp
  then show ?thesis using connect_working_iff [OF assms, of b params fees s'] by (simp add: connect_block_def)
qed

theorem connect_block_refines_ledger_witness:
  "ledger_block default_params example_block (utxo_view example_utxos) = Some (3, utxo_view example_utxos')"
  using connect_block_refines_ledger [OF utxo_ok_example, of default_params example_block]
  by (simp add: connect_example)

text \<open>C3. Money is conserved. After a block connects, the unspent outputs plus the collected fees
  hold exactly what was there before plus what the coinbase pays, and the coinbase pays at most
  the subsidy plus those fees, so the money in circulation grows by at most one subsidy.\<close>

theorem connect_block_conserves:
  assumes "utxo_ok s" and "connect_block b s params = (Inr fees, s')"
  shows "utxo_total s' + unat fees = utxo_total s + coinbase_total b \<and>
    coinbase_total b \<le> unat (block_subsidy params) + unat fees \<and>
    utxo_total s' \<le> utxo_total s + unat (block_subsidy params)"
  using connect_working_total [OF assms(1), of b params fees s'] assms(2) by (simp add: connect_block_Inr)

theorem connect_block_conserves_witness:
  "utxo_total example_utxos' + 3 = utxo_total example_utxos + coinbase_total example_block"
  using connect_block_conserves [OF utxo_ok_example connect_example] by simp

text \<open>C8. A connected block spends no immature coinbase: any coin of the previous set that is no
  longer there was mature at the block's height.\<close>

theorem connect_block_maturity:
  assumes "utxo_ok s" and "connect_block b s params = (Inr fees, s')"
    and "utxo_find op s = Some c" and "utxo_find op s' \<noteq> Some c" and "coin_coinbase c"
  shows "unat (coin_height c) + unat (coinbase_maturity params) \<le> unat (hdr_height (blk_header b))"
proof (rule ccontr)
  assume "\<not> ?thesis"
  then have young: "\<not> coin_mature (hdr_height (blk_header b)) (coinbase_maturity params) c"
    using assms(5) by (simp add: coin_mature_def)
  have "ledger_block params b (utxo_view s) = Some (unat fees, utxo_view s')"
    using assms(1,2) by (simp add: connect_block_Inr connect_working_iff)
  then obtain n1 L1 where
    "ledger_txs (hdr_height (blk_header b)) (coinbase_maturity params) (spending_txs b) (utxo_view s) = Some (n1, L1)"
    and view: "utxo_view s' = (if has_coinbase b
      then ledger_create (hd (blk_transactions b)) (hdr_height (blk_header b)) True L1 else L1)"
    and fresh: "has_coinbase b \<longrightarrow> (\<forall>op \<in> tx_outpoints (hd (blk_transactions b)). L1 op = None)"
    by (rule ledger_block_txs)
  from ledger_txs_immature [OF this(1)] assms(3) young have "L1 op = Some c" by simp
  moreover from this fresh have "has_coinbase b \<Longrightarrow> op \<notin> tx_outpoints (hd (blk_transactions b))" by auto
  ultimately have "utxo_view s' op = Some c" by (simp add: view ledger_create_other)
  with assms(4) show False by simp
qed

theorem connect_block_maturity_witness:
  "(0 :: nat) + unat (coinbase_maturity default_params) \<le> unat (hdr_height (blk_header example_block))"
proof -
  let ?op = "\<lparr>op_txid = zero_hash, op_index = 5\<rparr>"
  let ?c = "\<lparr>coin_output = \<lparr>out_value = 10, out_recipient = zero_hash\<rparr>, coin_height = 0, coin_coinbase = True\<rparr>"
  have "utxo_find ?op example_utxos = Some ?c" by (simp add: utxo_view_def example_utxos_def)
  moreover have "utxo_find ?op example_utxos' \<noteq> Some ?c" by (simp add: utxo_view_def example_utxos'_def)
  ultimately show ?thesis
    using connect_block_maturity [OF utxo_ok_example connect_example, of ?op ?c] by simp
qed



text \<open>A block with a transaction listed twice is rejected and changes nothing, so the copies
  of its last transaction that leave the Merkle root unchanged cannot be slipped in.\<close>

lemma connect_block_rejects_repeated_tx:
  assumes "\<not> distinct (blk_transactions b)"
  shows "code_of (fst (connect_block b s params)) \<in> {Some kInvalidBlock, Some kInvalidTransaction} \<and>
    snd (connect_block b s params) = s"
proof -
  have "\<not> sane_block b" using assms by (simp add: sane_block_def distinct_map)
  then obtain e where "check_block_sanity b = Inl e"
    using check_block_sanity_iff [of b] by (cases "check_block_sanity b") auto
  moreover from this have "err_code e \<in> {kInvalidBlock, kInvalidTransaction}"
    by (rule fails_withD [OF check_block_sanity_code])
  ultimately show ?thesis by (auto simp: connect_block_def connect_working_def)
qed

end
