(* ===== verification/Policy.thy ===== *)
theory Policy
  imports Block_Validation
begin

text \<open>
  \<^verbatim>\<open>src/mempool/policy.cpp\<close> and the 128-bit product it shares with \<^verbatim>\<open>src/mempool/mempool.cpp\<close>:
  the relay fee policy and the admission check. The product is exact, so fee rates are
  compared as fractions, without rounding and without overflow.
\<close>

section \<open>128-bit products\<close>

definition mul_u64 :: "u64 \<Rightarrow> u64 \<Rightarrow> u64 \<times> u64" where
  "mul_u64 x y =
     (let kMask = 0xffffffff;
          x0 = x AND kMask; x1 = drop_bit 32 x;
          y0 = y AND kMask; y1 = drop_bit 32 y;
          p00 = x0 * y0; p01 = x0 * y1; p10 = x1 * y0; p11 = x1 * y1;
          mid = drop_bit 32 p00 + (p01 AND kMask) + (p10 AND kMask);
          lo = (p00 AND kMask) OR push_bit 32 mid;
          hi = p11 + drop_bit 32 p01 + drop_bit 32 p10 + drop_bit 32 mid
      in (hi, lo))"

definition u128_gte :: "u64 \<Rightarrow> u64 \<Rightarrow> u64 \<Rightarrow> u64 \<Rightarrow> bool" where
  "u128_gte lhs_hi lhs_lo rhs_hi rhs_lo =
     (if lhs_hi \<noteq> rhs_hi then lhs_hi > rhs_hi else lhs_lo \<ge> rhs_lo)"

section \<open>Admission policy\<close>

definition kDefaultMempoolMaxTransactions :: u32 where
  "kDefaultMempoolMaxTransactions = 10000"

definition kDefaultMempoolMaxBytes :: u64 where
  "kDefaultMempoolMaxBytes = 100 * ucast kMaxBlockSizeBytes"

record MempoolPolicy =
  min_relay_feerate :: u64

record MempoolAdmission =
  adm_fee :: u64
  adm_size_bytes :: u64

definition check_min_relay_feerate :: "u64 \<Rightarrow> u64 \<Rightarrow> MempoolPolicy \<Rightarrow> unit Result" where
  "check_min_relay_feerate fee size_bytes policy =
     (if min_relay_feerate policy = 0 \<or> size_bytes = 0 then Inr ()
      else let (required_hi, required_lo) = mul_u64 (min_relay_feerate policy) size_bytes
           in if \<not> u128_gte 0 fee required_hi required_lo
              then make_error kPolicyRejected ''transaction fee rate below minimum relay feerate''
              else Inr ())"

definition validate_for_mempool ::
    "Transaction \<Rightarrow> UtxoSet \<Rightarrow> MempoolPolicy \<Rightarrow> MempoolAdmission Result" where
  "validate_for_mempool tx utxos policy =
     bindR (check_transaction_sanity tx) (\<lambda>_.
     if is_coinbase tx then make_error kInvalidTransaction ''coinbase cannot enter the mempool''
     else bindR (check_transaction_inputs tx utxos) (\<lambda>fee.
          let size_bytes = of_nat (length (tx_to_bytes tx))
          in bindR (check_min_relay_feerate fee size_bytes policy) (\<lambda>_.
             Inr \<lparr>adm_fee = fee, adm_size_bytes = size_bytes\<rparr>)))"

section \<open>The product is exact\<close>

definition u128 :: "u64 \<times> u64 \<Rightarrow> nat" where
  "u128 p = unat (fst p) * 2 ^ 64 + unat (snd p)"

lemma unat_low32: "unat (x AND 0xffffffff :: u64) = unat x mod 2 ^ 32"
proof -
  have "x AND 0xffffffff = take_bit 32 x" by (simp add: take_bit_eq_mask mask_eq_exp_minus_1)
  then show ?thesis by (simp add: take_bit_eq_mod unat_mod)
qed

lemma unat_high32: "unat (drop_bit 32 x :: u64) = unat x div 2 ^ 32"
  by (simp add: drop_bit_eq_div unat_div)

lemma unat_mult_no_wrap:
  "unat (a :: 'a::len word) * unat b < 2 ^ LENGTH('a) \<Longrightarrow> unat (a * b) = unat a * unat b"
  by (simp add: unat_word_ariths)

lemma unat_mul_halves: "a < 2 ^ 32 \<Longrightarrow> b < 2 ^ 32 \<Longrightarrow> a * b \<le> (2 ^ 32 - 1) * (2 ^ 32 - 1 :: nat)"
  by (intro mult_mono) auto

lemma unat_join32:
  "unat ((lo AND 0xffffffff) OR push_bit 32 mid :: u64) = unat lo mod 2 ^ 32 + (unat mid mod 2 ^ 32) * 2 ^ 32"
proof -
  have "(lo AND 0xffffffff) = take_bit 32 lo" by (simp add: take_bit_eq_mask mask_eq_exp_minus_1)
  moreover have "take_bit 32 lo OR push_bit 32 mid = take_bit 32 lo + push_bit 32 mid"
    by (rule disjunctive_add [symmetric]) (auto simp: bit_simps)
  moreover have "unat (push_bit 32 mid) = (unat mid mod 2 ^ 32) * 2 ^ 32"
  proof -
    have "unat (push_bit 32 mid) = (unat mid * 2 ^ 32) mod (2 ^ 32 * 2 ^ 32)"
      by (simp add: push_bit_eq_mult unat_word_ariths mult.commute)
    then show ?thesis by (simp only: mod_mult_mult2)
  qed
  moreover have "unat (take_bit 32 lo) = unat lo mod 2 ^ 32" by (simp add: take_bit_eq_mod unat_mod)
  moreover have "unat lo mod 2 ^ 32 + (unat mid mod 2 ^ 32) * 2 ^ 32 < 2 ^ 64"
  proof -
    have "unat lo mod 2 ^ 32 < 2 ^ 32" "unat mid mod 2 ^ 32 < 2 ^ 32" by simp_all
    then show ?thesis by simp
  qed
  ultimately show ?thesis by (simp add: unat_add_no_wrap)
qed

text \<open>Schoolbook multiplication in base \<open>2\<^sup>3\<^sup>2\<close>, on the four partial products.\<close>

lemma combine_products:
  fixes p00 p01 p10 p11 :: u64
  assumes "unat p00 \<le> (2 ^ 32 - 1) * (2 ^ 32 - 1)" "unat p01 \<le> (2 ^ 32 - 1) * (2 ^ 32 - 1)"
    "unat p10 \<le> (2 ^ 32 - 1) * (2 ^ 32 - 1)" "unat p11 \<le> (2 ^ 32 - 1) * (2 ^ 32 - 1)"
    and mid: "mid = drop_bit 32 p00 + (p01 AND 0xffffffff) + (p10 AND 0xffffffff)"
  shows "unat (p11 + drop_bit 32 p01 + drop_bit 32 p10 + drop_bit 32 mid) * 2 ^ 64 +
      unat ((p00 AND 0xffffffff) OR push_bit 32 mid) =
    unat p11 * 2 ^ 64 + (unat p01 + unat p10) * 2 ^ 32 + unat p00"
proof -
  let ?B = "2 ^ 32 :: nat"
  have div: "unat p00 div ?B \<le> 4294967294" "unat p01 div ?B \<le> 4294967294" "unat p10 div ?B \<le> 4294967294"
    using assms(1-3) [THEN div_le_mono, of ?B] by simp_all
  have mod_le: "n mod ?B \<le> 4294967295" for n :: nat using mod_less_divisor [of ?B n] by simp
  note mods = mod_le [of "unat p01"] mod_le [of "unat p10"]
  have m: "unat mid = unat p00 div ?B + unat p01 mod ?B + unat p10 mod ?B"
    unfolding mid using div mods
    by (subst unat_add_no_wrap; (subst unat_add_no_wrap)?) (simp_all only: unat_low32 unat_high32, simp_all)
  then have "unat mid \<le> 12884901884" using div mods by linarith
  then have md: "unat mid div ?B \<le> 2" using div_le_mono [of "unat mid" 12884901884 ?B] by simp
  have p11: "unat p11 \<le> 18446744065119617025" using assms(4) by simp
  have h1: "unat (p11 + drop_bit 32 p01) = unat p11 + unat p01 div ?B"
    using p11 div by (subst unat_add_no_wrap) (simp_all only: unat_high32, simp)
  have h2: "unat (p11 + drop_bit 32 p01 + drop_bit 32 p10) = unat p11 + unat p01 div ?B + unat p10 div ?B"
    using p11 div by (subst unat_add_no_wrap) (simp_all only: h1 unat_high32, simp)
  have hi: "unat (p11 + drop_bit 32 p01 + drop_bit 32 p10 + drop_bit 32 mid) =
      unat p11 + unat p01 div ?B + unat p10 div ?B + unat mid div ?B"
    using p11 div md by (subst unat_add_no_wrap) (simp_all only: h2 unat_high32, simp)
  have parts: "unat p01 = unat p01 div ?B * ?B + unat p01 mod ?B" "unat p10 = unat p10 div ?B * ?B + unat p10 mod ?B"
    "unat p00 = unat p00 div ?B * ?B + unat p00 mod ?B" "unat mid = unat mid div ?B * ?B + unat mid mod ?B"
    by simp_all
  have pow: "(2 ^ 64 :: nat) = ?B * ?B" by simp
  show ?thesis
    unfolding hi unat_join32 pow using parts m by algebra
qed

lemma mul_u64_exact: "u128 (mul_u64 x y) = unat x * unat y"
proof -
  let ?B = "2 ^ 32 :: nat" and ?m = "0xffffffff :: u64"
  define x0 x1 y0 y1 where "x0 = unat x mod ?B" "x1 = unat x div ?B" "y0 = unat y mod ?B" "y1 = unat y div ?B"
  note halves = this
  have lt: "x0 < ?B" "x1 < ?B" "y0 < ?B" "y1 < ?B"
    using unat_u64_less [of x] unat_u64_less [of y] by (simp_all add: halves div_less_iff_less_mult)
  note le = unat_mul_halves [OF lt(1,3)] unat_mul_halves [OF lt(1,4)] unat_mul_halves [OF lt(2,3)]
      unat_mul_halves [OF lt(2,4)]
  have prod: "unat ((x AND ?m) * (y AND ?m)) = x0 * y0" "unat ((x AND ?m) * drop_bit 32 y) = x0 * y1"
    "unat (drop_bit 32 x * (y AND ?m)) = x1 * y0" "unat (drop_bit 32 x * drop_bit 32 y) = x1 * y1"
    using le by (subst unat_mult_no_wrap; simp add: unat_low32 unat_high32 halves)+
  have "u128 (mul_u64 x y) = x1 * y1 * 2 ^ 64 + (x0 * y1 + x1 * y0) * 2 ^ 32 + x0 * y0"
    unfolding u128_def mul_u64_def Let_def fst_conv snd_conv
    by (subst combine_products) (simp_all only: prod le refl)
  also have "\<dots> = (x1 * ?B + x0) * (y1 * ?B + y0)" by (simp add: algebra_simps)
  also have "\<dots> = unat x * unat y" by (simp add: halves)
  finally show ?thesis .
qed

section \<open>Comparing products\<close>

lemma u128_less:
  "(if fst a \<noteq> fst b then fst a > fst b else snd a > snd b) \<longleftrightarrow> u128 b < u128 a"
proof -
  have le: "unat (snd a) < 2 ^ 64" "unat (snd b) < 2 ^ 64" using unat_u64_less by simp_all
  consider "unat (fst a) = unat (fst b)" | "unat (fst a) + 1 \<le> unat (fst b)" | "unat (fst b) + 1 \<le> unat (fst a)"
    by linarith
  then show ?thesis
  proof cases
    case 1
    then show ?thesis by (simp add: u128_def word_less_nat_alt word_unat_eq_iff)
  next
    case 2
    then have "(unat (fst a) + 1) * 2 ^ 64 \<le> unat (fst b) * 2 ^ 64" by (rule mult_le_mono1)
    then have "u128 a < u128 b" using le by (simp add: u128_def)
    with 2 show ?thesis by (auto simp: word_less_nat_alt)
  next
    case 3
    then have "(unat (fst b) + 1) * 2 ^ 64 \<le> unat (fst a) * 2 ^ 64" by (rule mult_le_mono1)
    then have "u128 b < u128 a" using le by (simp add: u128_def)
    with 3 show ?thesis by (auto simp: word_less_nat_alt)
  qed
qed

lemma u128_eq: "u128 a = u128 b \<longleftrightarrow> a = b"
proof
  assume "u128 a = u128 b"
  then have "\<not> u128 b < u128 a" "\<not> u128 a < u128 b" by simp_all
  then show "a = b" unfolding u128_less [symmetric] by (auto simp: prod_eq_iff split: if_splits)
qed simp

lemma u128_gte_iff: "u128_gte (fst a) (snd a) (fst b) (snd b) \<longleftrightarrow> u128 b \<le> u128 a"
  using u128_less [of b a] by (auto simp: u128_gte_def split: if_splits)

lemma check_min_relay_feerate_iff:
  "check_min_relay_feerate fee size_bytes policy = Inr () \<longleftrightarrow>
     unat (min_relay_feerate policy) * unat size_bytes \<le> unat fee"
proof -
  have fee: "u128 (0, fee) = unat fee" by (simp add: u128_def)
  have gte: "u128_gte 0 fee (fst p) (snd p) \<longleftrightarrow> u128 p \<le> unat fee" for p
    using u128_gte_iff [of "(0, fee)" p] by (simp add: fee)
  show ?thesis
    by (auto simp: check_min_relay_feerate_def result_simps case_prod_unfold gte mul_u64_exact)
qed

lemma length_tx_sane: "sane_tx tx \<Longrightarrow> unat (of_nat (length (tx_to_bytes tx)) :: u64) = length (tx_to_bytes tx)"
  by (rule unat_of_nat_less) (simp add: sane_tx_def)

definition mempool_valid :: "Transaction \<Rightarrow> UtxoSet \<Rightarrow> MempoolPolicy \<Rightarrow> MempoolAdmission \<Rightarrow> bool" where
  "mempool_valid tx utxos policy adm \<longleftrightarrow>
     sane_tx tx \<and> \<not> is_coinbase tx \<and> check_transaction_inputs tx utxos = Inr (adm_fee adm) \<and>
     unat (adm_size_bytes adm) = length (tx_to_bytes tx) \<and>
     unat (min_relay_feerate policy) * length (tx_to_bytes tx) \<le> unat (adm_fee adm)"

lemma validate_for_mempool_iff:
  "validate_for_mempool tx utxos policy = Inr adm \<longleftrightarrow> mempool_valid tx utxos policy adm"
proof (cases "sane_tx tx")
  case True
  then have "check_transaction_sanity tx = Inr ()" by (simp add: check_transaction_sanity_iff)
  with True show ?thesis
    by (cases adm)
      (auto simp: validate_for_mempool_def mempool_valid_def result_simps check_min_relay_feerate_iff
        length_tx_sane word_unat_eq_iff Let_def)
next
  case False
  then have "check_transaction_sanity tx \<noteq> Inr ()" by (simp add: check_transaction_sanity_iff)
  with False show ?thesis by (auto simp: validate_for_mempool_def mempool_valid_def result_simps)
qed

lemma validate_for_mempool_code [simp]:
  "fails_with {kInvalidTransaction, kPolicyRejected} (validate_for_mempool tx utxos policy)"
  by (auto simp: validate_for_mempool_def check_min_relay_feerate_def Let_def split: prod.splits
      intro!: fails_with_bindR fails_with_mono [OF transaction_checks_code(1)]
        fails_with_mono [OF transaction_checks_code(2)])

section \<open>Properties\<close>

text \<open>C37. The admission check passes exactly the sane, non-coinbase transactions whose inputs are
  unspent and whose exact fee is at least the minimum rate times the size; it reports the fee
  and the size, and rejects everything else with \<open>kInvalidTransaction\<close> or \<open>kPolicyRejected\<close>.\<close>

theorem validate_for_mempool_spec:
  "case validate_for_mempool tx utxos policy of
     Inr adm \<Rightarrow> mempool_valid tx utxos policy adm
   | Inl e \<Rightarrow> (\<nexists>adm. mempool_valid tx utxos policy adm) \<and> err_code e \<in> {kInvalidTransaction, kPolicyRejected}"
  using validate_for_mempool_iff [of tx utxos policy] validate_for_mempool_code [of tx utxos policy]
  by (cases "validate_for_mempool tx utxos policy") auto

end
