(* ===== verification/Mempool.thy ===== *)
theory Mempool
  imports Policy
begin

text \<open>
  \<^verbatim>\<open>mempool/mempool.hpp\<close>, \<^verbatim>\<open>src/mempool/mempool.cpp\<close> and \<^verbatim>\<open>src/mempool/restore.cpp\<close>: the
  transaction pool with its two indexes, admission with eviction, and the fee-rate order.
  The invariant \<open>mempool_ok\<close> says that the indexes agree, no two entries spend the same
  outpoint, the byte count is exact and the limits hold; every operation keeps it, and it
  makes the eviction loop of \<^verbatim>\<open>accept\<close> terminate.
\<close>

section \<open>Data\<close>

record MempoolLimits =
  max_transactions :: u32
  max_total_bytes :: u64

record Entry =
  e_transaction :: Transaction
  e_txid :: Hash256
  e_fee :: u64
  e_size_bytes :: u64

record Mempool =
  mp_limits :: MempoolLimits
  by_txid :: "(Hash256, Entry) std_map"
  spent_by :: "(OutPoint, Hash256) std_map"
  total_bytes :: u64

definition new_mempool :: "MempoolLimits \<Rightarrow> Mempool" where
  "new_mempool limits = \<lparr>mp_limits = limits, by_txid = [], spent_by = [], total_bytes = 0\<rparr>"

section \<open>Fee rates\<close>

definition higher_feerate :: "Entry \<Rightarrow> Entry \<Rightarrow> bool" where
  "higher_feerate a b =
     (let (lhs_hi, lhs_lo) = mul_u64 (e_fee a) (e_size_bytes b);
          (rhs_hi, rhs_lo) = mul_u64 (e_fee b) (e_size_bytes a)
      in if lhs_hi \<noteq> rhs_hi then lhs_hi > rhs_hi
         else if lhs_lo \<noteq> rhs_lo then lhs_lo > rhs_lo
         else Hash256Less (e_txid a) (e_txid b))"

definition strictly_higher_feerate :: "Entry \<Rightarrow> Entry \<Rightarrow> bool" where
  "strictly_higher_feerate a b =
     (let (lhs_hi, lhs_lo) = mul_u64 (e_fee a) (e_size_bytes b);
          (rhs_hi, rhs_lo) = mul_u64 (e_fee b) (e_size_bytes a)
      in if lhs_hi \<noteq> rhs_hi then lhs_hi > rhs_hi else lhs_lo > rhs_lo)"

definition lower_feerate_for_eviction :: "Entry \<Rightarrow> Entry \<Rightarrow> bool" where
  "lower_feerate_for_eviction a b =
     (if higher_feerate a b then False
      else if higher_feerate b a then True
      else \<not> Hash256Less (e_txid a) (e_txid b))"

definition find_lowest_feerate :: "(Hash256, Entry) std_map \<Rightarrow> Entry option" where
  "find_lowest_feerate m =
     foldl (\<lambda>worst (txid, entry).
              case worst of
                None \<Rightarrow> Some entry
              | Some w \<Rightarrow> if lower_feerate_for_eviction entry w then Some entry else worst) None m"

section \<open>Operations\<close>

definition mempool_contains :: "Hash256 \<Rightarrow> Mempool \<Rightarrow> bool" where
  "mempool_contains txid pool \<longleftrightarrow> map_find Hash256Less txid (by_txid pool) \<noteq> None"

definition mempool_find :: "Hash256 \<Rightarrow> Mempool \<Rightarrow> Entry option" where
  "mempool_find txid pool = map_find Hash256Less txid (by_txid pool)"

definition mempool_remove :: "Hash256 \<Rightarrow> Mempool \<Rightarrow> Mempool" where
  "mempool_remove txid pool =
     (case map_find Hash256Less txid (by_txid pool) of
        None \<Rightarrow> pool
      | Some entry \<Rightarrow>
          pool\<lparr>spent_by := foldl (\<lambda>m input. map_erase OutPointLess (in_prevout input) m)
                             (spent_by pool) (tx_inputs (e_transaction entry)),
               total_bytes := total_bytes pool - e_size_bytes entry,
               by_txid := map_erase Hash256Less txid (by_txid pool)\<rparr>)"

text \<open>The \<^verbatim>\<open>while\<close> loop of \<^verbatim>\<open>accept\<close>; not returning is the value \<open>None\<close>.\<close>

partial_function (option) make_room :: "Entry \<Rightarrow> Mempool \<Rightarrow> (unit Result \<times> Mempool) option" where
  "make_room incoming pool =
     (if length (by_txid pool) + 1 > unat (max_transactions (mp_limits pool)) \<or>
         total_bytes pool > max_total_bytes (mp_limits pool) - e_size_bytes incoming
      then case find_lowest_feerate (by_txid pool) of
             None \<Rightarrow> Some (make_error kResourceLimitExceeded ''mempool capacity limit reached'', pool)
           | Some worst \<Rightarrow>
               if \<not> strictly_higher_feerate incoming worst
               then Some (make_error kResourceLimitExceeded ''mempool capacity limit reached'', pool)
               else make_room incoming (mempool_remove (e_txid worst) pool)
      else Some (Inr (), pool))"

definition add_entry :: "Entry \<Rightarrow> Mempool \<Rightarrow> Mempool" where
  "add_entry incoming pool =
     pool\<lparr>spent_by := foldl (\<lambda>m input. map_emplace OutPointLess (in_prevout input) (e_txid incoming) m)
                        (spent_by pool) (tx_inputs (e_transaction incoming)),
          by_txid := map_emplace Hash256Less (e_txid incoming) incoming (by_txid pool),
          total_bytes := total_bytes pool + e_size_bytes incoming\<rparr>"

definition mempool_accept ::
    "Transaction \<Rightarrow> UtxoSet \<Rightarrow> MempoolPolicy \<Rightarrow> Mempool \<Rightarrow> (unit Result \<times> Mempool) option" where
  "mempool_accept tx utxos policy pool =
     (case validate_for_mempool tx utxos policy of
        Inl e \<Rightarrow> Some (Inl e, pool)
      | Inr admission \<Rightarrow>
          let txid = tx_txid tx
          in if map_find Hash256Less txid (by_txid pool) \<noteq> None
             then Some (make_error kInvalidTransaction ''transaction already in mempool'', pool)
             else if \<exists>input \<in> set (tx_inputs tx). map_find OutPointLess (in_prevout input) (spent_by pool) \<noteq> None
             then Some (make_error kInvalidTransaction ''input conflicts with an in-mempool transaction'', pool)
             else let incoming = \<lparr>e_transaction = tx, e_txid = txid, e_fee = adm_fee admission,
                                  e_size_bytes = adm_size_bytes admission\<rparr>
                  in case make_room incoming pool of
                       None \<Rightarrow> None
                     | Some (Inl e, pool) \<Rightarrow> Some (Inl e, pool)
                     | Some (Inr _, pool) \<Rightarrow>
                         if e_size_bytes incoming > max_total_bytes (mp_limits pool)
                         then Some (make_error kResourceLimitExceeded ''transaction exceeds mempool byte limit'', pool)
                         else Some (Inr (), add_entry incoming pool))"

definition entries_by_feerate :: "Mempool \<Rightarrow> Entry list" where
  "entries_by_feerate pool = std_sort higher_feerate (map snd (by_txid pool))"

definition sorted_transactions :: "Mempool \<Rightarrow> Transaction list" where
  "sorted_transactions pool =
     std_sort (\<lambda>a b. Hash256Less (tx_txid a) (tx_txid b)) (map (\<lambda>(txid, entry). e_transaction entry) (by_txid pool))"

text \<open>\<^verbatim>\<open>restore_mempool\<close> re-admits stored transactions one by one.\<close>

fun restore_mempool ::
    "Mempool \<Rightarrow> UtxoSet \<Rightarrow> Transaction list \<Rightarrow> MempoolPolicy \<Rightarrow> (unit Result \<times> Mempool) option" where
  "restore_mempool pool utxos [] policy = Some (Inr (), pool)"
| "restore_mempool pool utxos (tx # txs) policy =
     (case mempool_accept tx utxos policy pool of
        None \<Rightarrow> None
      | Some (Inl e, pool) \<Rightarrow>
          Some (make_error kStorageCorruption (''stored mempool transaction failed re-validation: '' @ err_message e), pool)
      | Some (Inr _, pool) \<Rightarrow> restore_mempool pool utxos txs policy)"

section \<open>The fee-rate order\<close>

lemma feerate_products:
  "strictly_higher_feerate a b \<longleftrightarrow>
     unat (e_fee b) * unat (e_size_bytes a) < unat (e_fee a) * unat (e_size_bytes b)"
  "higher_feerate a b \<longleftrightarrow>
     unat (e_fee b) * unat (e_size_bytes a) < unat (e_fee a) * unat (e_size_bytes b) \<or>
     unat (e_fee b) * unat (e_size_bytes a) = unat (e_fee a) * unat (e_size_bytes b) \<and>
     Hash256Less (e_txid a) (e_txid b)"
proof -
  let ?l = "mul_u64 (e_fee a) (e_size_bytes b)" and ?r = "mul_u64 (e_fee b) (e_size_bytes a)"
  show "strictly_higher_feerate a b \<longleftrightarrow>
     unat (e_fee b) * unat (e_size_bytes a) < unat (e_fee a) * unat (e_size_bytes b)"
    using u128_less [of ?l ?r] by (simp add: strictly_higher_feerate_def case_prod_unfold mul_u64_exact)
  have "higher_feerate a b \<longleftrightarrow> u128 ?r < u128 ?l \<or> ?l = ?r \<and> Hash256Less (e_txid a) (e_txid b)"
    unfolding u128_less [symmetric]
    by (auto simp: higher_feerate_def case_prod_unfold Let_def prod_eq_iff)
  then show "higher_feerate a b \<longleftrightarrow>
     unat (e_fee b) * unat (e_size_bytes a) < unat (e_fee a) * unat (e_size_bytes b) \<or>
     unat (e_fee b) * unat (e_size_bytes a) = unat (e_fee a) * unat (e_size_bytes b) \<and>
     Hash256Less (e_txid a) (e_txid b)"
    unfolding u128_eq [symmetric] mul_u64_exact by auto
qed

lemma cross_trans:
  fixes fa sa fb sb fc sc :: nat
  assumes "0 < sa" "0 < sb" "0 < sc" and ab: "fb * sa \<le> fa * sb" and bc: "fc * sb \<le> fb * sc"
  shows "fc * sa \<le> fa * sc" and "fb * sa < fa * sb \<or> fc * sb < fb * sc \<Longrightarrow> fc * sa < fa * sc"
proof -
  have le: "(fc * sa) * sb \<le> (fb * sa) * sc" "(fb * sa) * sc \<le> (fa * sc) * sb"
    using mult_le_mono1 [OF bc, of sa] mult_le_mono1 [OF ab, of sc] by (simp_all add: ac_simps)
  then have "(fc * sa) * sb \<le> (fa * sc) * sb" by linarith
  then show "fc * sa \<le> fa * sc" using assms(2) by simp
  show "fc * sa < fa * sc" if "fb * sa < fa * sb \<or> fc * sb < fb * sc"
  proof -
    have "(fb * sa) * sc < (fa * sc) * sb \<or> (fc * sa) * sb < (fb * sa) * sc"
      using that mult_less_mono1 [of "fb * sa" "fa * sb" sc] mult_less_mono1 [of "fc * sb" "fb * sc" sa] assms(1,3)
      by (auto simp: ac_simps)
    with le have "(fc * sa) * sb < (fa * sc) * sb" by linarith
    then show ?thesis by simp
  qed
qed

lemma transp_higher_feerate:
  assumes "\<And>e. e \<in> S \<Longrightarrow> 0 < unat (e_size_bytes e)"
  shows "transp_on S higher_feerate"
proof (rule transp_onI)
  fix a b c
  assume mem: "a \<in> S" "b \<in> S" "c \<in> S" and ab: "higher_feerate a b" and bc: "higher_feerate b c"
  note cross = cross_trans [of "unat (e_size_bytes a)" "unat (e_size_bytes b)" "unat (e_size_bytes c)"
      "unat (e_fee b)" "unat (e_fee a)" "unat (e_fee c)"]
  have le: "unat (e_fee b) * unat (e_size_bytes a) \<le> unat (e_fee a) * unat (e_size_bytes b)"
    "unat (e_fee c) * unat (e_size_bytes b) \<le> unat (e_fee b) * unat (e_size_bytes c)"
    using ab bc by (auto simp: feerate_products)
  show "higher_feerate a c"
  proof (cases "strictly_higher_feerate a b \<or> strictly_higher_feerate b c")
    case True
    then show ?thesis using cross(2) [OF assms assms assms] mem le by (simp add: feerate_products)
  next
    case False
    then have "Hash256Less (e_txid a) (e_txid c)"
      using ab bc by (auto simp: feerate_products intro: hash_less.lt_trans)
    then show ?thesis using cross(1) [OF assms assms assms] mem le by (auto simp: feerate_products)
  qed
qed

lemma totalp_higher_feerate: "inj_on e_txid S \<Longrightarrow> totalp_on S higher_feerate"
proof (rule totalp_onI)
  fix a b assume "inj_on e_txid S" "a \<in> S" "b \<in> S" "a \<noteq> b"
  then have "e_txid a \<noteq> e_txid b" by (auto dest: inj_onD)
  then show "higher_feerate a b \<or> higher_feerate b a"
    using hash_less.lt_total [of "e_txid a" "e_txid b"] by (auto simp: feerate_products)
qed

lemma higher_feerate_asym: "higher_feerate a b \<Longrightarrow> \<not> higher_feerate b a"
  using hash_less.lt_asym by (auto simp: feerate_products)

lemma lower_for_eviction:
  assumes "totalp_on S higher_feerate" and "a \<in> S" "b \<in> S" "a \<noteq> b"
  shows "lower_feerate_for_eviction a b \<longleftrightarrow> higher_feerate b a"
  using totalp_onD [OF assms] higher_feerate_asym by (auto simp: lower_feerate_for_eviction_def)

text \<open>The scan finds the entry every other entry outranks.\<close>

lemma find_lowest_spec:
  assumes "transp_on (snd ` set m) higher_feerate" and "totalp_on (snd ` set m) higher_feerate"
    and "find_lowest_feerate m = Some w"
  shows "w \<in> snd ` set m" and "\<forall>e \<in> snd ` set m. e \<noteq> w \<longrightarrow> higher_feerate e w"
proof -
  let ?f = "\<lambda>worst (txid, entry). case worst of None \<Rightarrow> Some entry
      | Some w \<Rightarrow> if lower_feerate_for_eviction entry w then Some entry else worst"
  have scan: "w' \<in> insert w0 (snd ` set ps) \<and> (\<forall>e \<in> insert w0 (snd ` set ps). e \<noteq> w' \<longrightarrow> higher_feerate e w')"
    if "insert w0 (snd ` set ps) \<subseteq> snd ` set m" "foldl ?f (Some w0) ps = Some w'" for w0 w' ps
    using that
  proof (induction ps arbitrary: w0)
    case (Cons p ps)
    obtain k e where p: "p = (k, e)" by (cases p)
    let ?w1 = "if lower_feerate_for_eviction e w0 then e else w0"
    have mem: "e \<in> snd ` set m" "w0 \<in> snd ` set m" using Cons.prems(1) by (auto simp: p)
    have "foldl ?f (Some ?w1) ps = Some w'" using Cons.prems(2) by (auto simp: p split: if_splits)
    moreover have sub: "insert ?w1 (snd ` set ps) \<subseteq> snd ` set m" using Cons.prems(1) by (auto simp: p)
    ultimately have IH: "w' \<in> insert ?w1 (snd ` set ps)"
      "\<forall>x \<in> insert ?w1 (snd ` set ps). x \<noteq> w' \<longrightarrow> higher_feerate x w'"
      using Cons.IH [of ?w1] by blast+
    have S: "w' \<in> snd ` set m" "?w1 \<in> snd ` set m" using IH(1) sub by blast+
    have top: "?w1 = w' \<or> higher_feerate ?w1 w'" using IH(2) by blast
    have "x \<noteq> w' \<longrightarrow> higher_feerate x w'" if x: "x = e \<or> x = w0" for x
    proof (cases "x = ?w1")
      case True
      then show ?thesis using top by blast
    next
      case False
      then have "higher_feerate x ?w1"
        using x lower_for_eviction [OF assms(2) mem] totalp_onD [OF assms(2) mem] by auto
      moreover have "x \<in> snd ` set m" using x mem by blast
      ultimately show ?thesis using top transp_onD [OF assms(1) _ S(2,1)] by blast
    qed
    then show ?case using IH by (auto simp: p)
  qed simp
  obtain k e ps where m: "m = (k, e) # ps" and fold: "foldl ?f (Some e) ps = Some w"
    using assms(3) by (cases m) (auto simp: find_lowest_feerate_def)
  with scan [of e ps w] show "w \<in> snd ` set m" "\<forall>e \<in> snd ` set m. e \<noteq> w \<longrightarrow> higher_feerate e w" by auto
qed

lemma find_lowest_None: "find_lowest_feerate m = None \<longleftrightarrow> m = []"
proof -
  let ?f = "\<lambda>worst (txid :: Hash256, entry). case worst of None \<Rightarrow> Some entry
      | Some w \<Rightarrow> if lower_feerate_for_eviction entry w then Some entry else worst"
  have "foldl ?f (Some w) ps \<noteq> None" for w ps
    by (induction ps arbitrary: w) auto
  then show ?thesis by (cases m) (auto simp: find_lowest_feerate_def)
qed

section \<open>The invariant\<close>

definition entry_ok :: "Hash256 \<Rightarrow> Entry \<Rightarrow> bool" where
  "entry_ok k e \<longleftrightarrow> e_txid e = k \<and> tx_txid (e_transaction e) = k \<and>
     sane_tx (e_transaction e) \<and> \<not> is_coinbase (e_transaction e) \<and>
     unat (e_size_bytes e) = length (tx_to_bytes (e_transaction e))"

definition pool_bytes :: "Mempool \<Rightarrow> nat" where
  "pool_bytes pool = (\<Sum>(k, e) \<leftarrow> by_txid pool. length (tx_to_bytes (e_transaction e)))"

text \<open>\<open>spends pool op k\<close>: the pool's transaction with id \<open>k\<close> spends the outpoint.\<close>

definition spends :: "Mempool \<Rightarrow> OutPoint \<Rightarrow> Hash256 \<Rightarrow> bool" where
  "spends pool op k \<longleftrightarrow>
     (\<exists>e. map_of (by_txid pool) k = Some e \<and> op \<in> set (tx_prevouts (e_transaction e)))"

definition mempool_ok :: "Mempool \<Rightarrow> bool" where
  "mempool_ok pool \<longleftrightarrow>
     map_ok Hash256Less (by_txid pool) \<and> map_ok OutPointLess (spent_by pool) \<and>
     (\<forall>(k, e) \<in> set (by_txid pool). entry_ok k e) \<and>
     (\<forall>op k. map_of (spent_by pool) op = Some k \<longleftrightarrow> spends pool op k) \<and>
     unat (total_bytes pool) = pool_bytes pool \<and>
     length (by_txid pool) \<le> unat (max_transactions (mp_limits pool)) \<and>
     pool_bytes pool \<le> unat (max_total_bytes (mp_limits pool))"

lemma tx_bytes_nonempty [simp]: "tx_to_bytes tx \<noteq> []"
  by (simp add: wire_simps enc_tx_def enc_u32_def)

lemma mempool_entry:
  "mempool_ok pool \<Longrightarrow> map_of (by_txid pool) k = Some e \<Longrightarrow> entry_ok k e"
  by (auto simp: mempool_ok_def dest: map_of_SomeD)

lemma pool_bytes_mset:
  "pool_bytes pool = (\<Sum>p \<in># mset (by_txid pool). length (tx_to_bytes (e_transaction (snd p))))"
  by (simp add: pool_bytes_def case_prod_unfold sum_mset_sum_list flip: mset_map)

lemma mempool_orders:
  assumes "mempool_ok pool"
  shows "transp_on (snd ` set (by_txid pool)) higher_feerate" "totalp_on (snd ` set (by_txid pool)) higher_feerate"
    "inj_on e_txid (snd ` set (by_txid pool))"
proof -
  have entry: "entry_ok k e" if "(k, e) \<in> set (by_txid pool)" for k e
    using assms that by (auto simp: mempool_ok_def)
  show "transp_on (snd ` set (by_txid pool)) higher_feerate"
    by (rule transp_higher_feerate) (auto simp: entry_ok_def dest!: entry)
  show inj: "inj_on e_txid (snd ` set (by_txid pool))"
  proof (rule inj_onI)
    fix a b assume "a \<in> snd ` set (by_txid pool)" "b \<in> snd ` set (by_txid pool)" "e_txid a = e_txid b"
    then obtain k where "(k, a) \<in> set (by_txid pool)" "(k, b) \<in> set (by_txid pool)"
      using entry by (force simp: entry_ok_def)
    then show "a = b" using assms hash_less.in_set_map_of by (fastforce simp: mempool_ok_def)
  qed
  then show "totalp_on (snd ` set (by_txid pool)) higher_feerate" by (rule totalp_higher_feerate)
qed

lemma new_mempool_ok: "mempool_ok (new_mempool limits)"
  by (simp add: mempool_ok_def new_mempool_def pool_bytes_def spends_def)

lemma remove_absent: "map_of (by_txid pool) k = None \<Longrightarrow> mempool_remove k pool = pool"
  by (simp add: mempool_remove_def)

lemma remove_by_txid:
  "map_ok Hash256Less (by_txid pool) \<Longrightarrow>
     by_txid (mempool_remove k pool) = map_erase Hash256Less k (by_txid pool)"
  by (auto simp: mempool_remove_def hash_less.erase_absent split: option.splits)

lemma remove_limits [simp]: "mp_limits (mempool_remove k pool) = mp_limits pool"
  by (simp add: mempool_remove_def split: option.splits)

lemma remove_view:
  assumes "mempool_ok pool" and "map_of (by_txid pool) k = Some e"
  shows "map_of (by_txid (mempool_remove k pool)) = (map_of (by_txid pool))(k := None)"
    and "map_ok OutPointLess (spent_by (mempool_remove k pool))"
    and "map_of (spent_by (mempool_remove k pool)) = map_of (spent_by pool) |` (- set (tx_prevouts (e_transaction e)))"
proof -
  have ok: "map_ok Hash256Less (by_txid pool)" "map_ok OutPointLess (spent_by pool)"
    using assms(1) by (auto simp: mempool_ok_def)
  show "map_of (by_txid (mempool_remove k pool)) = (map_of (by_txid pool))(k := None)"
    by (simp add: remove_by_txid [OF ok(1)] hash_less.map_of_erase [OF ok(1)])
  show "map_ok OutPointLess (spent_by (mempool_remove k pool))"
    "map_of (spent_by (mempool_remove k pool)) = map_of (spent_by pool) |` (- set (tx_prevouts (e_transaction e)))"
    using outpoint_less.erase_loop [OF ok(2), of in_prevout "tx_inputs (e_transaction e)"] assms(2)
    by (simp_all add: mempool_remove_def tx_prevouts_def)
qed

lemma remove_spends:
  assumes "mempool_ok pool" and "map_of (by_txid pool) k = Some e"
  shows "map_of (spent_by (mempool_remove k pool)) op = Some k' \<longleftrightarrow> spends (mempool_remove k pool) op k'"
proof -
  note view = remove_view [OF assms]
  have exact: "map_of (spent_by pool) op = Some k' \<longleftrightarrow> spends pool op k'" for k'
    using assms(1) by (auto simp: mempool_ok_def)
  show ?thesis
  proof (cases "op \<in> set (tx_prevouts (e_transaction e))")
    case True
    then have "spends pool op k" using assms(2) by (auto simp: spends_def)
    then have "\<not> spends pool op k'" if "k' \<noteq> k" using exact that by (metis option.inject)
    with True show ?thesis by (auto simp: view(1,3) spends_def split: if_splits)
  next
    case False
    then have "\<not> spends pool op k" using assms(2) by (auto simp: spends_def)
    with False show ?thesis using exact [of k'] by (auto simp: view(1,3) spends_def)
  qed
qed

lemma remove_bytes:
  assumes "mempool_ok pool" and "map_of (by_txid pool) k = Some e"
  shows "pool_bytes pool = length (tx_to_bytes (e_transaction e)) + pool_bytes (mempool_remove k pool)"
    and "unat (total_bytes (mempool_remove k pool)) = pool_bytes (mempool_remove k pool)"
proof -
  let ?p = "mempool_remove k pool"
  have ok: "map_ok Hash256Less (by_txid pool)" and all: "unat (total_bytes pool) = pool_bytes pool"
    using assms(1) by (auto simp: mempool_ok_def)
  show bytes: "pool_bytes pool = length (tx_to_bytes (e_transaction e)) + pool_bytes ?p"
    by (simp add: pool_bytes_mset remove_by_txid [OF ok] flip: hash_less.mset_erase [OF ok assms(2)])
  have size: "unat (e_size_bytes e) = length (tx_to_bytes (e_transaction e))"
    using mempool_entry [OF assms] by (simp add: entry_ok_def)
  then have "unat (e_size_bytes e) \<le> unat (total_bytes pool)" using bytes all by simp
  then have "unat (total_bytes pool - e_size_bytes e) = unat (total_bytes pool) - unat (e_size_bytes e)"
    by (intro unat_sub) (simp add: word_le_nat_alt)
  then show "unat (total_bytes ?p) = pool_bytes ?p"
    using assms(2) bytes size all by (simp add: mempool_remove_def)
qed

lemma remove_ok:
  assumes "mempool_ok pool"
  shows "mempool_ok (mempool_remove k pool)"
proof (cases "map_of (by_txid pool) k")
  case None
  then show ?thesis using assms by (simp add: remove_absent)
next
  case (Some e)
  let ?p = "mempool_remove k pool"
  have ok: "map_ok Hash256Less (by_txid pool)" using assms by (simp add: mempool_ok_def)
  note erased = remove_by_txid [OF ok, of k] and bytes = remove_bytes [OF assms Some]
    and spent = remove_view(2) [OF assms Some]
  have "\<forall>op k'. map_of (spent_by ?p) op = Some k' \<longleftrightarrow> spends ?p op k'" using remove_spends [OF assms Some] by blast
  moreover have "\<forall>(k', e') \<in> set (by_txid ?p). entry_ok k' e'"
    using assms by (auto simp: mempool_ok_def erased hash_less.set_erase [OF ok])
  moreover have "length (by_txid ?p) \<le> unat (max_transactions (mp_limits pool))"
    using assms hash_less.length_erase_le [of k "by_txid pool"] by (simp add: erased mempool_ok_def)
  moreover have "pool_bytes ?p \<le> unat (max_total_bytes (mp_limits pool))"
    using assms bytes(1) by (simp add: mempool_ok_def)
  ultimately show ?thesis
    unfolding mempool_ok_def using bytes(2) spent ok by (simp add: erased)
qed

section \<open>Eviction terminates and takes the cheapest entries\<close>

text \<open>What eviction for an incoming entry may do to the pool.\<close>

definition evicts :: "Entry \<Rightarrow> Mempool \<Rightarrow> Mempool \<Rightarrow> bool" where
  "evicts incoming pool pool' \<longleftrightarrow>
     set (by_txid pool') \<subseteq> set (by_txid pool) \<and>
     (\<forall>k e. (k, e) \<in> set (by_txid pool) \<and> (k, e) \<notin> set (by_txid pool') \<longrightarrow>
        strictly_higher_feerate incoming e \<and> (\<forall>k' e'. (k', e') \<in> set (by_txid pool') \<longrightarrow> higher_feerate e' e))"

lemma evicts_refl: "evicts incoming pool pool"
  by (simp add: evicts_def)

lemma evict_lowest:
  assumes "mempool_ok pool" and "find_lowest_feerate (by_txid pool) = Some w"
    and "evicts incoming (mempool_remove (e_txid w) pool) pool'" and "strictly_higher_feerate incoming w"
  shows "evicts incoming pool pool'"
proof -
  have ok: "map_ok Hash256Less (by_txid pool)" using assms(1) by (simp add: mempool_ok_def)
  note low = find_lowest_spec [OF mempool_orders(1,2) [OF assms(1)] assms(2)]
  have set: "set (by_txid (mempool_remove (e_txid w) pool)) = {(k, e) \<in> set (by_txid pool). k \<noteq> e_txid w}"
    by (simp add: remove_by_txid [OF ok] hash_less.set_erase [OF ok])
  have w: "e = w" if "(e_txid w, e) \<in> set (by_txid pool)" for e
    using that low(1) assms(1) mempool_orders(3) [OF assms(1)] by (force simp: mempool_ok_def entry_ok_def inj_on_def)
  have above: "higher_feerate e' w" if "(k', e') \<in> set (by_txid pool')" for k' e'
  proof -
    have mem: "(k', e') \<in> set (by_txid pool)" "k' \<noteq> e_txid w" using that assms(3) set by (auto simp: evicts_def)
    then have "e' \<noteq> w" using assms(1) by (auto simp: mempool_ok_def entry_ok_def)
    then show ?thesis using low(2) mem(1) by force
  qed
  have sub: "set (by_txid pool') \<subseteq> set (by_txid pool)" using assms(3) by (auto simp: evicts_def set)
  have "strictly_higher_feerate incoming e \<and> (\<forall>k' e'. (k', e') \<in> set (by_txid pool') \<longrightarrow> higher_feerate e' e)"
    if "(k, e) \<in> set (by_txid pool)" "(k, e) \<notin> set (by_txid pool')" for k e
  proof (cases "k = e_txid w")
    case True
    then show ?thesis using that w above assms(4) by blast
  next
    case False
    then have "(k, e) \<in> set (by_txid (mempool_remove (e_txid w) pool))" using that by (simp add: set)
    then show ?thesis using assms(3) that(2) unfolding evicts_def by blast
  qed
  with sub show ?thesis unfolding evicts_def by blast
qed

lemma make_room_spec:
  assumes "mempool_ok pool"
  shows "\<exists>res pool'. make_room incoming pool = Some (res, pool') \<and> mempool_ok pool' \<and>
    mp_limits pool' = mp_limits pool \<and> evicts incoming pool pool' \<and>
    (case res of
       Inr _ \<Rightarrow> length (by_txid pool') < unat (max_transactions (mp_limits pool)) \<and>
         total_bytes pool' \<le> max_total_bytes (mp_limits pool) - e_size_bytes incoming
     | Inl e \<Rightarrow> err_code e = kResourceLimitExceeded)"
  using assms
proof (induction "length (by_txid pool)" arbitrary: pool rule: less_induct)
  case less
  let ?full = "length (by_txid pool) + 1 > unat (max_transactions (mp_limits pool)) \<or>
         total_bytes pool > max_total_bytes (mp_limits pool) - e_size_bytes incoming"
  show ?case
  proof (cases ?full)
    case False
    then have "make_room incoming pool = Some (Inr (), pool)" by (subst make_room.simps) simp
    with False less.prems show ?thesis by (auto simp: evicts_refl not_less)
  next
    case True
    show ?thesis
    proof (cases "\<exists>w. find_lowest_feerate (by_txid pool) = Some w \<and> strictly_higher_feerate incoming w")
      case False
      then have "make_room incoming pool = Some (make_error kResourceLimitExceeded ''mempool capacity limit reached'', pool)"
        using True by (subst make_room.simps) (auto split: option.splits)
      with less.prems show ?thesis by (auto simp: evicts_refl make_error_def)
    next
      case True
      then obtain w where w: "find_lowest_feerate (by_txid pool) = Some w" "strictly_higher_feerate incoming w" by blast
      let ?p = "mempool_remove (e_txid w) pool"
      have ok: "map_ok Hash256Less (by_txid pool)" using less.prems by (simp add: mempool_ok_def)
      obtain k where k: "(k, w) \<in> set (by_txid pool)"
        using find_lowest_spec(1) [OF mempool_orders(1,2) [OF less.prems] w(1)] by auto
      then have "k = e_txid w" using less.prems by (auto simp: mempool_ok_def entry_ok_def)
      with k have "map_of (by_txid pool) (e_txid w) = Some w" by (simp add: hash_less.in_set_map_of [OF ok])
      from hash_less.length_erase [OF this] have "length (by_txid ?p) < length (by_txid pool)"
        by (simp add: remove_by_txid [OF ok])
      from less.hyps [OF this remove_ok [OF less.prems]]
      obtain res pool' where r: "make_room incoming ?p = Some (res, pool')" "mempool_ok pool'"
        "mp_limits pool' = mp_limits pool" "evicts incoming ?p pool'"
        "case res of
           Inr _ \<Rightarrow> length (by_txid pool') < unat (max_transactions (mp_limits pool)) \<and>
             total_bytes pool' \<le> max_total_bytes (mp_limits pool) - e_size_bytes incoming
         | Inl e \<Rightarrow> err_code e = kResourceLimitExceeded"
        unfolding remove_limits by blast
      have "make_room incoming pool = make_room incoming ?p"
        using w \<open>?full\<close> by (subst make_room.simps) simp
      with r evict_lowest [OF less.prems w(1) r(4) w(2)] show ?thesis by auto
    qed
  qed
qed

section \<open>Admission\<close>

lemma add_entry_ok:
  assumes "mempool_ok pool" and "entry_ok (e_txid e) e" and "map_of (by_txid pool) (e_txid e) = None"
    and "\<forall>op \<in> set (tx_prevouts (e_transaction e)). map_of (spent_by pool) op = None"
    and "length (by_txid pool) < unat (max_transactions (mp_limits pool))"
    and "pool_bytes pool + length (tx_to_bytes (e_transaction e)) \<le> unat (max_total_bytes (mp_limits pool))"
  shows "mempool_ok (add_entry e pool)"
proof -
  let ?p = "add_entry e pool" and ?tx = "e_transaction e"
  have ok: "map_ok Hash256Less (by_txid pool)" "map_ok OutPointLess (spent_by pool)"
    and exact: "map_of (spent_by pool) op = Some k \<longleftrightarrow> spends pool op k" for op k
    using assms(1) by (auto simp: mempool_ok_def)
  have view: "map_of (by_txid ?p) = (map_of (by_txid pool))(e_txid e \<mapsto> e)"
    using assms(3) by (simp add: add_entry_def hash_less.map_of_emplace [OF ok(1)])
  have mset: "mset (by_txid ?p) = add_mset (e_txid e, e) (mset (by_txid pool))"
    using hash_less.mset_emplace [OF ok(1) assms(3)] by (simp add: add_entry_def)
  have "\<forall>input \<in> set (tx_inputs ?tx). map_of (spent_by pool) (in_prevout input) = None"
    using assms(4) by (simp add: tx_prevouts_def)
  then have spent: "map_ok OutPointLess (spent_by ?p)"
    "map_of (spent_by ?p) op = (if op \<in> set (tx_prevouts ?tx) then Some (e_txid e) else map_of (spent_by pool) op)" for op
    using outpoint_less.emplace_loop [OF ok(2), of "tx_inputs ?tx" in_prevout "e_txid e"]
    by (simp_all add: add_entry_def tx_prevouts_def)
  have "map_of (spent_by ?p) op = Some k \<longleftrightarrow> spends ?p op k" for op k
    using exact [of op k] assms(3,4) by (auto simp: spent(2) spends_def view)
  moreover have "\<forall>(k, e) \<in> set (by_txid ?p). entry_ok k e"
    using assms(1,2) by (auto simp: mempool_ok_def simp flip: set_mset_mset simp: mset)
  moreover have bytes: "pool_bytes ?p = pool_bytes pool + length (tx_to_bytes ?tx)"
    by (simp add: pool_bytes_mset mset)
  moreover have "unat (total_bytes pool + e_size_bytes e) = unat (total_bytes pool) + unat (e_size_bytes e)"
    using assms(1,2,6) unat_u64_less [of "max_total_bytes (mp_limits pool)"]
    by (intro unat_add_no_wrap) (simp add: mempool_ok_def entry_ok_def)
  moreover have "length (by_txid ?p) = length (by_txid pool) + 1"
    using arg_cong [OF mset, of size] by simp
  ultimately show ?thesis
    using assms ok spent(1) by (auto simp: mempool_ok_def entry_ok_def add_entry_def)
qed

definition accepted_entry :: "Transaction \<Rightarrow> MempoolAdmission \<Rightarrow> Entry" where
  "accepted_entry tx adm = \<lparr>e_transaction = tx, e_txid = tx_txid tx, e_fee = adm_fee adm,
     e_size_bytes = adm_size_bytes adm\<rparr>"

lemma accepted_entry_ok: "mempool_valid tx u policy adm \<Longrightarrow> entry_ok (tx_txid tx) (accepted_entry tx adm)"
  by (simp add: entry_ok_def accepted_entry_def mempool_valid_def)

lemma evicts_map:
  assumes "mempool_ok pool" "evicts incoming pool pool'" "map_of (by_txid pool') k = Some e"
  shows "map_of (by_txid pool) k = Some e"
proof -
  have "(k, e) \<in> set (by_txid pool)" using map_of_SomeD [OF assms(3)] assms(2) by (auto simp: evicts_def)
  then show ?thesis using assms(1) by (simp add: mempool_ok_def hash_less.in_set_map_of)
qed

lemma evicts_unspent:
  assumes "mempool_ok pool" "mempool_ok pool'" "evicts incoming pool pool'" "map_of (spent_by pool) op = None"
  shows "map_of (spent_by pool') op = None"
proof (rule ccontr)
  assume "map_of (spent_by pool') op \<noteq> None"
  then obtain k e where "map_of (by_txid pool') k = Some e" "op \<in> set (tx_prevouts (e_transaction e))"
    using assms(2) by (auto simp: mempool_ok_def spends_def)
  moreover from this have "map_of (by_txid pool) k = Some e"
    by (intro evicts_map [OF assms(1,3)])
  ultimately have "map_of (spent_by pool) op = Some k" using assms(1) by (auto simp: mempool_ok_def spends_def)
  with assms(4) show False by simp
qed

lemma evicts_absent:
  "evicts incoming pool pool' \<Longrightarrow> map_of (by_txid pool) k = None \<Longrightarrow> map_of (by_txid pool') k = None"
  by (auto simp: evicts_def map_of_eq_None_iff)

lemma bytes_fit:
  assumes "used \<le> bound - n" and "\<not> n > (bound :: u64)"
  shows "unat used + unat n \<le> unat bound"
  using assms unat_sub [of n bound] by (auto simp: word_le_nat_alt word_less_nat_alt)

lemma room_ok:
  assumes "mempool_ok pool1" and "mempool_valid tx u policy adm" and "map_of (by_txid pool1) (tx_txid tx) = None"
    and "\<forall>op \<in> set (tx_prevouts tx). map_of (spent_by pool1) op = None"
    and "length (by_txid pool1) < unat (max_transactions (mp_limits pool1))"
    and "total_bytes pool1 \<le> max_total_bytes (mp_limits pool1) - e_size_bytes (accepted_entry tx adm)"
    and "\<not> e_size_bytes (accepted_entry tx adm) > max_total_bytes (mp_limits pool1)"
  shows "mempool_ok (add_entry (accepted_entry tx adm) pool1)"
proof -
  have "pool_bytes pool1 + length (tx_to_bytes tx) \<le> unat (max_total_bytes (mp_limits pool1))"
    using bytes_fit [OF assms(6,7)] assms(1,2) by (simp add: mempool_ok_def accepted_entry_def mempool_valid_def)
  then show ?thesis
    using assms(1,3-5) accepted_entry_ok [OF assms(2)] by (intro add_entry_ok) (simp_all add: accepted_entry_def)
qed

text \<open>A valid transaction that is not known and conflicts with none of the pool.\<close>

lemma accept_fresh:
  assumes ok: "mempool_ok pool" and valid: "mempool_valid tx u policy adm"
    and new: "map_of (by_txid pool) (tx_txid tx) = None"
    and free: "\<forall>input \<in> set (tx_inputs tx). map_of (spent_by pool) (in_prevout input) = None"
  shows "\<exists>res pool1. mempool_ok pool1 \<and> mp_limits pool1 = mp_limits pool \<and> evicts (accepted_entry tx adm) pool pool1 \<and>
    (mempool_accept tx u policy pool = Some (Inl res, pool1) \<and> err_code res = kResourceLimitExceeded \<or>
     mempool_accept tx u policy pool = Some (Inr (), add_entry (accepted_entry tx adm) pool1) \<and>
     mempool_ok (add_entry (accepted_entry tx adm) pool1))"
proof -
  let ?in = "accepted_entry tx adm"
  obtain res pool1 where r: "make_room ?in pool = Some (res, pool1)" "mempool_ok pool1"
    "mp_limits pool1 = mp_limits pool" "evicts ?in pool pool1"
    "case res of
       Inr _ \<Rightarrow> length (by_txid pool1) < unat (max_transactions (mp_limits pool)) \<and>
         total_bytes pool1 \<le> max_total_bytes (mp_limits pool) - e_size_bytes ?in
     | Inl e \<Rightarrow> err_code e = kResourceLimitExceeded"
    using make_room_spec [OF ok] by blast
  have step: "mempool_accept tx u policy pool = (case res of
      Inl e \<Rightarrow> Some (Inl e, pool1)
    | Inr _ \<Rightarrow> if e_size_bytes ?in > max_total_bytes (mp_limits pool1)
        then Some (make_error kResourceLimitExceeded ''transaction exceeds mempool byte limit'', pool1)
        else Some (Inr (), add_entry ?in pool1))"
    using new free r(1) valid
    by (simp add: mempool_accept_def validate_for_mempool_iff [symmetric] accepted_entry_def Let_def split: sum.splits)
  show ?thesis
  proof (cases "is_ok res \<and> \<not> e_size_bytes ?in > max_total_bytes (mp_limits pool1)")
    case False
    then obtain e where "mempool_accept tx u policy pool = Some (Inl e, pool1)"
      "err_code e = kResourceLimitExceeded"
      using step r(5) by (cases res) (auto simp: make_error_def)
    with r show ?thesis by blast
  next
    case True
    have "mempool_ok (add_entry ?in pool1)"
    proof (rule room_ok [OF r(2) valid])
      show "map_of (by_txid pool1) (tx_txid tx) = None" using new evicts_absent [OF r(4)] by simp
      show "\<forall>op \<in> set (tx_prevouts tx). map_of (spent_by pool1) op = None"
        using free evicts_unspent [OF ok r(2,4)] by (auto simp: tx_prevouts_def)
    qed (use True r(3,5) in \<open>auto simp: is_ok_iff\<close>)
    then show ?thesis using True step r(2-4) by (auto simp: is_ok_iff)
  qed
qed

lemma accept_spec:
  assumes "mempool_ok pool"
  shows "\<exists>res pool'. mempool_accept tx u policy pool = Some (res, pool') \<and> mempool_ok pool' \<and>
    mp_limits pool' = mp_limits pool \<and>
    (case res of
       Inr _ \<Rightarrow> \<exists>adm pool1. mempool_valid tx u policy adm \<and> map_of (by_txid pool) (tx_txid tx) = None \<and>
         mempool_ok pool1 \<and> evicts (accepted_entry tx adm) pool pool1 \<and>
         pool' = add_entry (accepted_entry tx adm) pool1
     | Inl e \<Rightarrow> err_code e \<in> {kInvalidTransaction, kPolicyRejected} \<and> pool' = pool \<or>
         err_code e = kResourceLimitExceeded \<and> (\<exists>adm. evicts (accepted_entry tx adm) pool pool'))"
proof (cases "validate_for_mempool tx u policy")
  case (Inl e)
  then have "err_code e \<in> {kInvalidTransaction, kPolicyRejected}"
    by (rule fails_withD [OF validate_for_mempool_code])
  with Inl assms show ?thesis by (auto simp: mempool_accept_def)
next
  case (Inr adm)
  then have valid: "mempool_valid tx u policy adm" by (simp add: validate_for_mempool_iff)
  show ?thesis
  proof (cases "map_of (by_txid pool) (tx_txid tx) = None \<and>
      (\<forall>input \<in> set (tx_inputs tx). map_of (spent_by pool) (in_prevout input) = None)")
    case True
    have limits: "mp_limits (add_entry e p) = mp_limits p" for e p by (simp add: add_entry_def)
    from True accept_fresh [OF assms valid] obtain e pool1 where
      p: "mempool_ok pool1" "mp_limits pool1 = mp_limits pool" "evicts (accepted_entry tx adm) pool pool1" and
      "mempool_accept tx u policy pool = Some (Inl e, pool1) \<and> err_code e = kResourceLimitExceeded \<or>
       mempool_accept tx u policy pool = Some (Inr (), add_entry (accepted_entry tx adm) pool1) \<and>
       mempool_ok (add_entry (accepted_entry tx adm) pool1)" by blast
    from this(4) show ?thesis using p True valid by (elim disjE) (auto simp: limits)
  next
    case False
    then show ?thesis using Inr assms by (auto simp: mempool_accept_def make_error_def Let_def)
  qed
qed

section \<open>Reachable pools\<close>

inductive mempool_step :: "Mempool \<Rightarrow> Mempool \<Rightarrow> bool" where
  step_accept: "mempool_accept tx u policy pool = Some (res, pool') \<Longrightarrow> mempool_step pool pool'"
| step_remove: "mempool_step pool (mempool_remove txid pool)"

inductive_simps mempool_step_simps: "mempool_step pool pool'"

lemma accept_ok: "mempool_ok pool \<Longrightarrow> mempool_accept tx u policy pool = Some (res, pool') \<Longrightarrow> mempool_ok pool'"
  using accept_spec [of pool tx u policy] by auto

interpretation mempool_system: inv_system "\<lambda>pool. \<exists>limits. pool = new_mempool limits" mempool_step mempool_ok
  by unfold_locales (auto simp: new_mempool_ok mempool_step_simps intro: accept_ok remove_ok)

lemma mempool_no_conflict:
  assumes "mempool_ok pool" "map_of (by_txid pool) k = Some e" "map_of (by_txid pool) k' = Some e'" "k \<noteq> k'"
  shows "set (tx_prevouts (e_transaction e)) \<inter> set (tx_prevouts (e_transaction e')) = {}"
proof (rule ccontr)
  assume "\<not> ?thesis"
  then obtain op where "spends pool op k" "spends pool op k'" using assms(2,3) by (auto simp: spends_def)
  then have "map_of (spent_by pool) op = Some k" "map_of (spent_by pool) op = Some k'"
    using assms(1) by (auto simp: mempool_ok_def)
  with assms(4) show False by simp
qed

section \<open>Orderings handed to the block builder and to storage\<close>

lemma distinct_entries: "mempool_ok pool \<Longrightarrow> distinct (map snd (by_txid pool))"
proof -
  assume ok: "mempool_ok pool"
  have "map e_txid (map snd (by_txid pool)) = map fst (by_txid pool)"
    using ok by (auto simp: mempool_ok_def entry_ok_def)
  then have "distinct (map e_txid (map snd (by_txid pool)))"
    using ok hash_less.map_ok_distinct by (metis mempool_ok_def)
  then show ?thesis by (rule distinct_map [THEN iffD1, THEN conjunct1])
qed

lemma sorted_transactions_eq:
  assumes "mempool_ok pool"
  shows "sorted_transactions pool = map (\<lambda>(k, e). e_transaction e) (by_txid pool)"
  unfolding sorted_transactions_def
proof (rule std_sort_id)
  have "map tx_txid (map (\<lambda>(k, e). e_transaction e) (by_txid pool)) = map fst (by_txid pool)"
    using assms by (auto simp: mempool_ok_def entry_ok_def)
  moreover have "sorted_wrt Hash256Less (map fst (by_txid pool))"
    using assms by (simp add: mempool_ok_def map_ok_def)
  ultimately have "sorted_wrt Hash256Less (map tx_txid (map (\<lambda>(k, e). e_transaction e) (by_txid pool)))"
    by (simp only:)
  then show "sorted_wrt (\<lambda>a b. Hash256Less (tx_txid a) (tx_txid b)) (map (\<lambda>(k, e). e_transaction e) (by_txid pool))"
    unfolding sorted_wrt_map .
qed (rule hash_less.lt_asym)

section \<open>Restoring a pool\<close>

text \<open>A valid transaction that fits the limits is admitted without evicting anything.\<close>

lemma accept_fits:
  assumes "mempool_ok pool" and valid: "mempool_valid tx u policy adm"
    and "map_of (by_txid pool) (tx_txid tx) = None"
    and "\<forall>op \<in> set (tx_prevouts tx). map_of (spent_by pool) op = None"
    and "length (by_txid pool) < unat (max_transactions (mp_limits pool))"
    and fits: "pool_bytes pool + length (tx_to_bytes tx) \<le> unat (max_total_bytes (mp_limits pool))"
  shows "mempool_accept tx u policy pool = Some (Inr (), add_entry (accepted_entry tx adm) pool)"
    and "mempool_ok (add_entry (accepted_entry tx adm) pool)"
proof -
  let ?in = "accepted_entry tx adm"
  have size: "unat (e_size_bytes ?in) = length (tx_to_bytes tx)" "unat (total_bytes pool) = pool_bytes pool"
    using valid assms(1) by (simp_all add: accepted_entry_def mempool_valid_def mempool_ok_def)
  have le: "e_size_bytes ?in \<le> max_total_bytes (mp_limits pool)" using fits by (simp add: word_le_nat_alt size)
  have "\<not> total_bytes pool > max_total_bytes (mp_limits pool) - e_size_bytes ?in"
    using fits unat_sub [OF le] by (simp add: word_less_nat_alt size)
  then have "make_room ?in pool = Some (Inr (), pool)"
    using assms(5) by (subst make_room.simps) simp
  moreover have "\<not> (\<exists>input \<in> set (tx_inputs tx). map_of (spent_by pool) (in_prevout input) \<noteq> None)"
    using assms(4) by (simp add: tx_prevouts_def)
  ultimately show "mempool_accept tx u policy pool = Some (Inr (), add_entry ?in pool)"
    using assms(3) le validate_for_mempool_iff [of tx u policy adm] valid
    by (simp add: mempool_accept_def accepted_entry_def Let_def not_less)
  show "mempool_ok (add_entry ?in pool)"
    using assms accepted_entry_ok [OF valid] by (intro add_entry_ok) (simp_all add: accepted_entry_def)
qed

lemma add_entry_view:
  assumes "mempool_ok pool" "map_of (by_txid pool) (e_txid e) = None"
  shows "set (by_txid (add_entry e pool)) = insert (e_txid e, e) (set (by_txid pool))"
    and "mp_limits (add_entry e pool) = mp_limits pool"
    and "length (by_txid (add_entry e pool)) = length (by_txid pool) + 1"
    and "pool_bytes (add_entry e pool) = pool_bytes pool + length (tx_to_bytes (e_transaction e))"
proof -
  have m: "mset (by_txid (add_entry e pool)) = add_mset (e_txid e, e) (mset (by_txid pool))"
    using assms by (simp add: mempool_ok_def add_entry_def hash_less.mset_emplace)
  show "set (by_txid (add_entry e pool)) = insert (e_txid e, e) (set (by_txid pool))"
    using arg_cong [OF m, of set_mset] by simp
  show "length (by_txid (add_entry e pool)) = length (by_txid pool) + 1"
    using arg_cong [OF m, of size] by simp
  show "pool_bytes (add_entry e pool) = pool_bytes pool + length (tx_to_bytes (e_transaction e))"
    by (simp add: pool_bytes_mset m)
qed (simp add: add_entry_def)

definition pool_txs :: "Mempool \<Rightarrow> Transaction set" where
  "pool_txs pool = (\<lambda>(k, e). e_transaction e) ` set (by_txid pool)"

lemma pool_txs_I: "map_of (by_txid pool) k = Some e \<Longrightarrow> e_transaction e \<in> pool_txs pool"
  using map_of_SomeD [of "by_txid pool" k e] by (force simp: pool_txs_def)

lemma unknown_tx:
  assumes "mempool_ok pool" and "tx_txid tx \<notin> tx_txid ` pool_txs pool"
  shows "map_of (by_txid pool) (tx_txid tx) = None"
proof (rule ccontr)
  assume "map_of (by_txid pool) (tx_txid tx) \<noteq> None"
  then obtain e where e: "map_of (by_txid pool) (tx_txid tx) = Some e" by auto
  from imageI [OF pool_txs_I [OF e], of tx_txid] mempool_entry [OF assms(1) e] assms(2) show False
    by (auto simp: entry_ok_def)
qed

lemma unspent_tx:
  assumes "mempool_ok pool" and "\<forall>tx' \<in> pool_txs pool. set (tx_prevouts tx) \<inter> set (tx_prevouts tx') = {}"
  shows "\<forall>op \<in> set (tx_prevouts tx). map_of (spent_by pool) op = None"
proof (rule ballI, rule ccontr)
  fix op assume op: "op \<in> set (tx_prevouts tx)" and "map_of (spent_by pool) op \<noteq> None"
  then obtain k where "map_of (spent_by pool) op = Some k" by auto
  then have "spends pool op k" using assms(1) unfolding mempool_ok_def by blast
  then obtain e where e: "map_of (by_txid pool) k = Some e" "op \<in> set (tx_prevouts (e_transaction e))"
    by (auto simp: spends_def)
  from assms(2) pool_txs_I [OF e(1)] have "set (tx_prevouts tx) \<inter> set (tx_prevouts (e_transaction e)) = {}" by simp
  with op e(2) show False by blast
qed

lemma restore_fits:
  assumes "mempool_ok pool" and "\<forall>tx \<in> set txs. \<exists>adm. mempool_valid tx u policy adm"
    and "distinct (map tx_txid txs)" and "\<forall>tx \<in> set txs. tx_txid tx \<notin> tx_txid ` pool_txs pool"
    and "distinct (concat (map tx_prevouts txs))"
    and "\<forall>tx \<in> set txs. \<forall>tx' \<in> pool_txs pool. set (tx_prevouts tx) \<inter> set (tx_prevouts tx') = {}"
    and "length (by_txid pool) + length txs \<le> unat (max_transactions (mp_limits pool))"
    and "pool_bytes pool + (\<Sum>tx \<leftarrow> txs. length (tx_to_bytes tx)) \<le> unat (max_total_bytes (mp_limits pool))"
  shows "\<exists>pool'. restore_mempool pool u txs policy = Some (Inr (), pool') \<and> mempool_ok pool' \<and>
    mp_limits pool' = mp_limits pool \<and> pool_txs pool' = pool_txs pool \<union> set txs"
  using assms
proof (induction txs arbitrary: pool)
  case (Cons tx txs)
  obtain adm where valid: "mempool_valid tx u policy adm" using Cons.prems(2) by auto
  let ?in = "accepted_entry tx adm"
  let ?p = "add_entry ?in pool"
  have new: "map_of (by_txid pool) (tx_txid tx) = None"
    "\<forall>op \<in> set (tx_prevouts tx). map_of (spent_by pool) op = None"
    using Cons.prems(4,6) by (intro unknown_tx [OF Cons.prems(1)] unspent_tx [OF Cons.prems(1)]; simp)+
  note acc = accept_fits [OF Cons.prems(1) valid new]
  have len: "length (by_txid pool) < unat (max_transactions (mp_limits pool))"
    "pool_bytes pool + length (tx_to_bytes tx) \<le> unat (max_total_bytes (mp_limits pool))"
    using Cons.prems(7,8) by auto
  note view = add_entry_view [OF Cons.prems(1), of ?in]
  have view': "set (by_txid ?p) = insert (tx_txid tx, ?in) (set (by_txid pool))" "mp_limits ?p = mp_limits pool"
    "length (by_txid ?p) = length (by_txid pool) + 1" "pool_bytes ?p = pool_bytes pool + length (tx_to_bytes tx)"
    using view new by (simp_all add: accepted_entry_def)
  have txs: "pool_txs ?p = insert tx (pool_txs pool)"
    by (simp add: pool_txs_def view'(1)) (simp add: accepted_entry_def)
  have "\<exists>pool'. restore_mempool ?p u txs policy = Some (Inr (), pool') \<and> mempool_ok pool' \<and>
      mp_limits pool' = mp_limits ?p \<and> pool_txs pool' = pool_txs ?p \<union> set txs"
  proof (rule Cons.IH [OF acc(2) [OF len]])
    show "\<forall>tx' \<in> set txs. tx_txid tx' \<notin> tx_txid ` pool_txs ?p"
      using Cons.prems(3,4) unfolding txs by (auto simp: image_iff)
    show "\<forall>tx' \<in> set txs. \<forall>tx'' \<in> pool_txs ?p. set (tx_prevouts tx') \<inter> set (tx_prevouts tx'') = {}"
      using Cons.prems(5,6) unfolding txs by (auto simp: disjoint_iff)
  qed (use Cons.prems view' in auto)
  then show ?case using acc(1) [OF len] view'(2) txs by auto
qed (auto simp: pool_txs_def)

lemma pool_prevouts_distinct:
  assumes "mempool_ok pool"
  shows "distinct (concat (map tx_prevouts (map (\<lambda>(k, e). e_transaction e) (by_txid pool))))"
proof -
  let ?txs = "map (\<lambda>(k, e). e_transaction e) (by_txid pool)"
  have keys: "distinct (map fst (by_txid pool))"
    using assms hash_less.map_ok_distinct by (auto simp: mempool_ok_def)
  show ?thesis
  proof (rule distinct_concat)
    show "distinct (map tx_prevouts ?txs)"
      unfolding distinct_conv_nth
    proof (intro allI impI)
      fix i j assume "i < length (map tx_prevouts ?txs)" "j < length (map tx_prevouts ?txs)" "i \<noteq> j"
      then have ij: "i < length (by_txid pool)" "j < length (by_txid pool)" "fst (by_txid pool ! i) \<noteq> fst (by_txid pool ! j)"
        using nth_eq_iff_index_eq [OF keys, of i j] by auto
      then have "set (tx_prevouts (e_transaction (snd (by_txid pool ! i)))) \<inter>
          set (tx_prevouts (e_transaction (snd (by_txid pool ! j)))) = {}"
        using keys by (intro mempool_no_conflict [OF assms _ _ ij(3)]) simp_all
      moreover have "tx_prevouts (e_transaction (snd (by_txid pool ! i))) \<noteq> []"
        using ij(1) assms nth_mem [OF ij(1)]
        by (auto simp: mempool_ok_def entry_ok_def sane_tx_def tx_prevouts_def split_beta)
      ultimately show "map tx_prevouts ?txs ! i \<noteq> map tx_prevouts ?txs ! j"
        using ij by (auto simp: split_beta)
    qed
  next
    fix ys assume "ys \<in> set (map tx_prevouts ?txs)"
    then show "distinct ys" using assms by (auto simp: mempool_ok_def entry_ok_def sane_tx_def)
  next
    fix ys zs assume "ys \<in> set (map tx_prevouts ?txs)" "zs \<in> set (map tx_prevouts ?txs)" "ys \<noteq> zs"
    then obtain k e k' e' where "(k, e) \<in> set (by_txid pool)" "(k', e') \<in> set (by_txid pool)"
      and yz: "ys = tx_prevouts (e_transaction e)" "zs = tx_prevouts (e_transaction e')" by auto
    then have some: "map_of (by_txid pool) k = Some e" "map_of (by_txid pool) k' = Some e'"
      using keys by simp_all
    with \<open>ys \<noteq> zs\<close> yz have "k \<noteq> k'" by auto
    then show "set ys \<inter> set zs = {}" unfolding yz by (rule mempool_no_conflict [OF assms some])
  qed
qed

lemma restore_sorted:
  assumes "mempool_ok pool" and "\<forall>tx \<in> pool_txs pool. \<exists>adm. mempool_valid tx u policy adm"
  shows "\<exists>pool'. restore_mempool (new_mempool (mp_limits pool)) u (sorted_transactions pool) policy =
      Some (Inr (), pool') \<and> mempool_ok pool' \<and> pool_txs pool' = pool_txs pool"
proof -
  let ?txs = "map (\<lambda>(k, e). e_transaction e) (by_txid pool)"
  have set: "set ?txs = pool_txs pool" by (simp add: pool_txs_def)
  have keys: "distinct (map fst (by_txid pool))"
    using assms(1) hash_less.map_ok_distinct by (auto simp: mempool_ok_def)
  have "map tx_txid ?txs = map fst (by_txid pool)"
    using assms(1) by (auto simp: mempool_ok_def entry_ok_def)
  with keys have ids: "distinct (map tx_txid ?txs)" by (simp only:)
  have "\<exists>pool'. restore_mempool (new_mempool (mp_limits pool)) u ?txs policy = Some (Inr (), pool') \<and>
      mempool_ok pool' \<and> mp_limits pool' = mp_limits (new_mempool (mp_limits pool)) \<and>
      pool_txs pool' = pool_txs (new_mempool (mp_limits pool)) \<union> set ?txs"
    using assms ids pool_prevouts_distinct [OF assms(1)] unfolding set [symmetric]
    by (intro restore_fits new_mempool_ok)
      (auto simp: new_mempool_def pool_txs_def mempool_ok_def pool_bytes_def case_prod_unfold comp_def)
  then show ?thesis
    unfolding sorted_transactions_eq [OF assms(1)] set by (auto simp: pool_txs_def new_mempool_def)
qed

section \<open>Properties\<close>

definition example_limits :: MempoolLimits where
  "example_limits = \<lparr>max_transactions = 10, max_total_bytes = 1000\<rparr>"

definition example_entry :: Entry where
  "example_entry = \<lparr>e_transaction = example_tx, e_txid = tx_txid example_tx, e_fee = 3, e_size_bytes = 92\<rparr>"

definition example_pool :: Mempool where
  "example_pool = \<lparr>mp_limits = example_limits, by_txid = [(tx_txid example_tx, example_entry)],
     spent_by = [(\<lparr>op_txid = zero_hash, op_index = 5\<rparr>, tx_txid example_tx)], total_bytes = 92\<rparr>"

lemma length_example_tx: "length (tx_to_bytes example_tx) = 92"
  using length_tx_to_bytes [OF wf_example_tx] by (simp add: example_tx_def)

lemma valid_example:
  "mempool_valid example_tx example_utxos \<lparr>min_relay_feerate = 0\<rparr> \<lparr>adm_fee = 3, adm_size_bytes = 92\<rparr>"
proof -
  have "check_transaction_inputs example_tx example_utxos = Inr 3"
    unfolding check_transaction_inputs_iff [OF sane_example_tx]
    by (auto simp: example_tx_def example_utxos_def tx_prevouts_def utxo_view_def
        view_value_def tx_out_total_def coin_value_def)
  then show ?thesis by (simp add: mempool_valid_def sane_example_tx not_coinbase_example length_example_tx)
qed

lemma accept_example:
  "mempool_accept example_tx example_utxos \<lparr>min_relay_feerate = 0\<rparr> (new_mempool example_limits) =
     Some (Inr (), example_pool)"
proof -
  have "mempool_accept example_tx example_utxos \<lparr>min_relay_feerate = 0\<rparr> (new_mempool example_limits) =
      Some (Inr (), add_entry (accepted_entry example_tx \<lparr>adm_fee = 3, adm_size_bytes = 92\<rparr>) (new_mempool example_limits))"
    by (rule accept_fits [OF new_mempool_ok valid_example])
      (simp_all add: new_mempool_def example_limits_def pool_bytes_def length_example_tx)
  then show ?thesis
    by (simp add: add_entry_def accepted_entry_def new_mempool_def example_pool_def example_entry_def)
      (simp add: example_tx_def)
qed

lemma example_pool_ok: "mempool_ok example_pool"
  using accept_ok [OF new_mempool_ok accept_example] .

lemma accept_effect:
  assumes "mempool_ok pool" and "mempool_accept tx utxos policy pool = Some (res, pool')"
  shows "case res of
      Inr _ \<Rightarrow> \<exists>adm. mempool_valid tx utxos policy adm \<and> \<not> mempool_contains (tx_txid tx) pool \<and>
        mempool_find (tx_txid tx) pool' = Some (accepted_entry tx adm) \<and>
        set (by_txid pool') \<subseteq> insert (tx_txid tx, accepted_entry tx adm) (set (by_txid pool)) \<and>
        (\<forall>k e. (k, e) \<in> set (by_txid pool) \<and> (k, e) \<notin> set (by_txid pool') \<longrightarrow>
           strictly_higher_feerate (accepted_entry tx adm) e \<and>
           (\<forall>k' e'. (k', e') \<in> set (by_txid pool') \<and> k' \<noteq> tx_txid tx \<longrightarrow> higher_feerate e' e))
    | Inl e \<Rightarrow> err_code e \<in> {kInvalidTransaction, kPolicyRejected, kResourceLimitExceeded} \<and>
        (err_code e \<noteq> kResourceLimitExceeded \<longrightarrow> pool' = pool)"
proof (cases res)
  case (Inl e)
  then show ?thesis using accept_spec [OF assms(1), of tx utxos policy] assms(2) by auto
next
  case (Inr u)
  then obtain adm pool1 where a: "mempool_valid tx utxos policy adm" "map_of (by_txid pool) (tx_txid tx) = None"
    "mempool_ok pool1" "evicts (accepted_entry tx adm) pool pool1" "pool' = add_entry (accepted_entry tx adm) pool1"
    using accept_spec [OF assms(1), of tx utxos policy] assms(2) by auto
  let ?in = "accepted_entry tx adm"
  have id: "e_txid ?in = tx_txid tx" by (simp add: accepted_entry_def)
  have absent: "map_of (by_txid pool1) (tx_txid tx) = None" using evicts_absent [OF a(4,2)] .
  note view = add_entry_view(1) [OF a(3), of ?in, unfolded id, OF absent]
  have ok: "map_ok Hash256Less (by_txid pool')"
    using accept_ok [OF assms] by (simp add: mempool_ok_def)
  have "map_of (by_txid pool') (tx_txid tx) = Some ?in"
    using hash_less.in_set_map_of [OF ok, of "tx_txid tx" ?in] view a(5) by simp
  moreover have "(k', e') \<in> set (by_txid pool1)" if "(k', e') \<in> set (by_txid pool')" "k' \<noteq> tx_txid tx" for k' e'
    using that view a(5) by auto
  ultimately show ?thesis
    using Inr a(1,2,4) view unfolding evicts_def a(5) mempool_contains_def mempool_find_def
    by (auto simp: hash_less.map_find_map_of intro!: exI [of _ adm])
qed

text \<open>
  A transaction that is larger than the byte limit of a full pool is refused, but only after the loop
  has evicted a cheaper entry: the difference of limit and size wraps around, so the loop looks at the
  number of entries alone.
\<close>

lemma oversized_newcomer_evicts:
  assumes "mempool_ok pool" and "by_txid pool = [(k, e)]" and "max_transactions (mp_limits pool) = 1"
    and "mempool_valid tx utxos policy adm" and "k \<noteq> tx_txid tx"
    and "\<forall>input \<in> set (tx_inputs tx). map_find OutPointLess (in_prevout input) (spent_by pool) = None"
    and "adm_size_bytes adm > max_total_bytes (mp_limits pool)"
    and "strictly_higher_feerate (accepted_entry tx adm) e"
  shows "\<exists>pool'. mempool_accept tx utxos policy pool =
      Some (make_error kResourceLimitExceeded ''transaction exceeds mempool byte limit'', pool') \<and> by_txid pool' = []"
proof -
  let ?in = "accepted_entry tx adm" and ?pool = "mempool_remove k pool"
  have e: "e_txid e = k" using mempool_entry [OF assms(1), of k e] assms(2) by (simp add: entry_ok_def)
  have ok: "map_ok Hash256Less (by_txid pool)" using assms(1) by (simp add: mempool_ok_def)
  have pool: "by_txid ?pool = []" "total_bytes ?pool = 0"
    using remove_by_txid [OF ok, of k] remove_ok [OF assms(1), of k] assms(2)
    by (simp_all add: mempool_ok_def pool_bytes_def unat_eq_0)
  have "find_lowest_feerate (by_txid pool) = Some e" by (simp add: find_lowest_feerate_def assms(2))
  then have "make_room ?in pool = make_room ?in ?pool" using assms(2,3,8) e by (subst make_room.simps) simp
  also have "\<dots> = Some (Inr (), ?pool)" using pool assms(3) by (subst make_room.simps) simp
  finally have "mempool_accept tx utxos policy pool =
      Some (make_error kResourceLimitExceeded ''transaction exceeds mempool byte limit'', ?pool)"
    using assms(2,4-7) by (simp add: mempool_accept_def validate_for_mempool_iff [THEN iffD2] Let_def accepted_entry_def)
  with pool(1) show ?thesis by blast
qed

text \<open>C19. What \<open>accept\<close> does. It always returns: on every pool in a consistent state the eviction loop
  ends. On success the transaction was valid and new, it is in the pool with its exact fee, every
  other entry was there before, and every entry that was evicted pays a strictly lower fee rate than
  the newcomer and ranks below everything that stayed from the old pool. A rejection for any reason
  but the capacity limits leaves the pool as it was.\<close>

theorem mempool_accept_outcome:
  assumes "mempool_ok pool"
  shows "\<exists>res pool'. mempool_accept tx utxos policy pool = Some (res, pool') \<and>
    (case res of
      Inr _ \<Rightarrow> \<exists>adm. mempool_valid tx utxos policy adm \<and> \<not> mempool_contains (tx_txid tx) pool \<and>
        mempool_find (tx_txid tx) pool' = Some (accepted_entry tx adm) \<and>
        set (by_txid pool') \<subseteq> insert (tx_txid tx, accepted_entry tx adm) (set (by_txid pool)) \<and>
        (\<forall>k e. (k, e) \<in> set (by_txid pool) \<and> (k, e) \<notin> set (by_txid pool') \<longrightarrow>
           strictly_higher_feerate (accepted_entry tx adm) e \<and>
           (\<forall>k' e'. (k', e') \<in> set (by_txid pool') \<and> k' \<noteq> tx_txid tx \<longrightarrow> higher_feerate e' e))
    | Inl e \<Rightarrow> err_code e \<in> {kInvalidTransaction, kPolicyRejected, kResourceLimitExceeded} \<and>
        (err_code e \<noteq> kResourceLimitExceeded \<longrightarrow> pool' = pool))"
proof -
  obtain res pool' where run: "mempool_accept tx utxos policy pool = Some (res, pool')"
    using accept_spec [OF assms, of tx utxos policy] by blast
  from accept_effect [OF assms this] run show ?thesis by blast
qed

theorem mempool_accept_outcome_witness:
  "\<exists>adm. mempool_valid example_tx example_utxos \<lparr>min_relay_feerate = 0\<rparr> adm \<and>
     mempool_find (tx_txid example_tx) example_pool = Some (accepted_entry example_tx adm)"
  using mempool_accept_outcome [OF new_mempool_ok, of example_tx example_utxos "\<lparr>min_relay_feerate = 0\<rparr>" example_limits]
    accept_example by auto

text \<open>C13. Every pool built by accepting and removing transactions is consistent: no two of its
  transactions spend the same outpoint, an id occurs once and is the id of its transaction,
  the byte count is the exact sum of the sizes, and both limits hold.\<close>

theorem mempool_reachable_consistent:
  assumes "reachable (\<lambda>pool. \<exists>limits. pool = new_mempool limits) mempool_step pool"
  shows "(\<forall>k k' e e'. (k, e) \<in> set (by_txid pool) \<and> (k', e') \<in> set (by_txid pool) \<and> k \<noteq> k' \<longrightarrow>
      set (tx_prevouts (e_transaction e)) \<inter> set (tx_prevouts (e_transaction e')) = {}) \<and>
    distinct (map fst (by_txid pool)) \<and> (\<forall>(k, e) \<in> set (by_txid pool). k = tx_txid (e_transaction e)) \<and>
    unat (total_bytes pool) = (\<Sum>(k, e) \<leftarrow> by_txid pool. length (tx_to_bytes (e_transaction e))) \<and>
    length (by_txid pool) \<le> unat (max_transactions (mp_limits pool)) \<and>
    unat (total_bytes pool) \<le> unat (max_total_bytes (mp_limits pool))"
proof -
  have ok: "mempool_ok pool" using assms by (rule mempool_system.reachable_inv)
  then have keys: "map_ok Hash256Less (by_txid pool)" by (simp add: mempool_ok_def)
  have "set (tx_prevouts (e_transaction e)) \<inter> set (tx_prevouts (e_transaction e')) = {}"
    if "(k, e) \<in> set (by_txid pool)" "(k', e') \<in> set (by_txid pool)" "k \<noteq> k'" for k k' e e'
    using that mempool_no_conflict [OF ok] by (simp add: hash_less.in_set_map_of [OF keys])
  then have "\<forall>k k' e e'. (k, e) \<in> set (by_txid pool) \<and> (k', e') \<in> set (by_txid pool) \<and> k \<noteq> k' \<longrightarrow>
      set (tx_prevouts (e_transaction e)) \<inter> set (tx_prevouts (e_transaction e')) = {}" by blast
  moreover have "\<forall>(k, e) \<in> set (by_txid pool). k = tx_txid (e_transaction e)"
    using ok by (auto simp: mempool_ok_def entry_ok_def)
  ultimately show ?thesis
    using ok hash_less.map_ok_distinct [OF keys] by (simp add: mempool_ok_def pool_bytes_def)
qed

theorem mempool_reachable_consistent_witness:
  "unat (total_bytes example_pool) = (\<Sum>(k, e) \<leftarrow> by_txid example_pool. length (tx_to_bytes (e_transaction e)))"
proof -
  have "reachable (\<lambda>pool. \<exists>limits. pool = new_mempool limits) mempool_step example_pool"
    by (rule reach_step [where s = "new_mempool example_limits"])
      (auto intro: reach_init step_accept [OF accept_example])
  from mempool_reachable_consistent [OF this] show ?thesis by blast
qed

text \<open>Fee rates are compared exactly: one entry goes before another when its fee divided by its
  size is strictly greater, as a fraction of unbounded integers, and equal rates are ordered
  by id.\<close>

lemma higher_feerate_exact:
  "higher_feerate a b \<longleftrightarrow>
     unat (e_fee b) * unat (e_size_bytes a) < unat (e_fee a) * unat (e_size_bytes b) \<or>
     unat (e_fee b) * unat (e_size_bytes a) = unat (e_fee a) * unat (e_size_bytes b) \<and>
     Hash256Less (e_txid a) (e_txid b)"
  by (rule feerate_products)

text \<open>The entries handed to the block builder are exactly the pool's, each once, and every
  earlier one ranks above every later one.\<close>

lemma entries_by_feerate_sorted:
  assumes "mempool_ok pool"
  shows "sorted_wrt higher_feerate (entries_by_feerate pool) \<and>
    mset (entries_by_feerate pool) = mset (map snd (by_txid pool))"
  unfolding entries_by_feerate_def
  using std_sort_sorted [OF distinct_entries [OF assms], of higher_feerate] mempool_orders(1,2) [OF assms]
  by simp

text \<open>A stored pool comes back: when each of its transactions is still valid, re-admitting the
  exported list into an empty pool with the same limits succeeds for every transaction and
  gives a consistent pool with the same transactions.\<close>

lemma restore_mempool_round_trip:
  assumes "mempool_ok pool" and "\<forall>tx \<in> pool_txs pool. \<exists>adm. mempool_valid tx utxos policy adm"
  shows "\<exists>pool'. restore_mempool (new_mempool (mp_limits pool)) utxos (sorted_transactions pool) policy =
      Some (Inr (), pool') \<and> mempool_ok pool' \<and> pool_txs pool' = pool_txs pool"
  using assms by (rule restore_sorted)

end
