(* ===== verification/Chain.thy ===== *)
theory Chain
  imports Mempool
begin

text \<open>
  \<^verbatim>\<open>consensus/chain.hpp\<close> and \<^verbatim>\<open>src/consensus/chain.cpp\<close>: the active chain, a tip header with the
  unspent outputs behind it. A chain together with the list of blocks it was built from is a
  transition system; its invariant says that the blocks are linked from the genesis block on,
  and that the unspent outputs are what the abstract ledger gives for exactly those blocks.
\<close>

section \<open>Operations\<close>

record Chain =
  ch_tip :: BlockHeader
  ch_utxos :: UtxoSet
  ch_params :: ConsensusParams

definition chain_height :: "Chain \<Rightarrow> u32" where
  "chain_height c = hdr_height (ch_tip c)"

definition chain_tip_hash :: "Chain \<Rightarrow> Hash256" where
  "chain_tip_hash c = header_hash (ch_tip c)"

definition check_links_to :: "BlockHeader \<Rightarrow> BlockHeader \<Rightarrow> unit Result" where
  "check_links_to tip next =
     (if hdr_version next \<noteq> kBlockVersion
      then make_error kUnsupportedVersion ''unsupported block version''
      else if hdr_prev_block next \<noteq> header_hash tip
      then make_error kInvalidBlock ''block does not extend the current tip''
      else if hdr_height tip = UINT32_MAX
      then make_error kInvalidBlock ''chain height would overflow''
      else if hdr_height next \<noteq> hdr_height tip + 1
      then make_error kInvalidBlock ''block height does not follow the tip''
      else if hdr_timestamp next < hdr_timestamp tip
      then make_error kInvalidBlock ''block timestamp precedes the tip''
      else Inr ())"

definition chain_create :: "Block \<Rightarrow> ConsensusParams \<Rightarrow> Chain Result" where
  "chain_create genesis params =
     (if hdr_version (blk_header genesis) \<noteq> kBlockVersion
      then make_error kUnsupportedVersion ''unsupported genesis block version''
      else if hdr_height (blk_header genesis) \<noteq> 0
      then make_error kInvalidBlock ''genesis block must have height 0''
      else if hdr_prev_block (blk_header genesis) \<noteq> zero_hash
      then make_error kInvalidBlock ''genesis block must reference the zero hash''
      else bindR (check_block_sanity genesis) (\<lambda>_.
           case connect_block genesis empty_utxos params of
             (Inl e, _) \<Rightarrow> Inl e
           | (Inr _, utxos) \<Rightarrow> Inr \<lparr>ch_tip = blk_header genesis, ch_utxos = utxos, ch_params = params\<rparr>))"

text \<open>
  \<^verbatim>\<open>submit_block\<close> works on the chain and, when it is given one, on the caller's mempool; the
  model returns both after the call.
\<close>

definition submit_block :: "Block \<Rightarrow> Chain \<Rightarrow> Mempool option \<Rightarrow> u64 Result \<times> Chain \<times> Mempool option" where
  "submit_block block c mempool =
     (case check_links_to (ch_tip c) (blk_header block) of
        Inl e \<Rightarrow> (Inl e, c, mempool)
      | Inr _ \<Rightarrow>
     (case check_block_sanity block of
        Inl e \<Rightarrow> (Inl e, c, mempool)
      | Inr _ \<Rightarrow>
     (case connect_block block (ch_utxos c) (ch_params c) of
        (Inl e, utxos) \<Rightarrow> (Inl e, c\<lparr>ch_utxos := utxos\<rparr>, mempool)
      | (Inr fees, utxos) \<Rightarrow>
          (Inr fees, c\<lparr>ch_utxos := utxos, ch_tip := blk_header block\<rparr>,
           map_option (\<lambda>pool. foldl (\<lambda>pool tx. mempool_remove (tx_txid tx) pool) pool (blk_transactions block))
             mempool))))"

section \<open>When blocks are accepted\<close>

definition links_to :: "BlockHeader \<Rightarrow> BlockHeader \<Rightarrow> bool" where
  "links_to tip next \<longleftrightarrow>
     hdr_version next = kBlockVersion \<and> hdr_prev_block next = header_hash tip \<and>
     unat (hdr_height next) = unat (hdr_height tip) + 1 \<and>
     unat (hdr_timestamp tip) \<le> unat (hdr_timestamp next)"

lemma u32_succ:
  "h \<noteq> UINT32_MAX \<and> n = h + 1 \<longleftrightarrow> unat n = unat (h :: u32) + 1"
proof
  assume a: "h \<noteq> UINT32_MAX \<and> n = h + 1"
  then have "unat h + 1 < 2 ^ 32" using unat_u32_less [of h] by (simp add: word_unat_eq_iff)
  with a show "unat n = unat h + 1" by (simp add: unat_add_no_wrap)
next
  assume "unat n = unat h + 1"
  moreover from this have "unat h + 1 < 2 ^ 32" using unat_u32_less [of n] by simp
  ultimately show "h \<noteq> UINT32_MAX \<and> n = h + 1"
    by (auto simp: word_unat_eq_iff unat_add_no_wrap)
qed

lemma check_links_to_iff: "check_links_to tip next = Inr () \<longleftrightarrow> links_to tip next"
  using u32_succ [of "hdr_height tip" "hdr_height next"]
  by (auto simp: check_links_to_def links_to_def result_simps word_less_nat_alt)

lemma check_links_to_code [simp]:
  "fails_with {kUnsupportedVersion, kInvalidBlock} (check_links_to tip next)"
  by (simp add: check_links_to_def)

lemma submit_block_ok:
  "submit_block b c m = (Inr fees, c', m') \<longleftrightarrow>
     links_to (ch_tip c) (blk_header b) \<and>
     (\<exists>utxos. connect_block b (ch_utxos c) (ch_params c) = (Inr fees, utxos) \<and>
        c' = c\<lparr>ch_utxos := utxos, ch_tip := blk_header b\<rparr>) \<and>
     m' = map_option (\<lambda>pool. foldl (\<lambda>pool tx. mempool_remove (tx_txid tx) pool) pool (blk_transactions b)) m"
proof -
  have "connect_block b (ch_utxos c) (ch_params c) = (Inr fees, utxos) \<Longrightarrow> check_block_sanity b = Inr ()" for utxos
    by (auto simp: connect_block_Inr connect_working_def result_simps)
  then show ?thesis
    using check_links_to_iff [of "ch_tip c" "blk_header b"]
    by (auto simp: submit_block_def split: sum.splits prod.splits)
qed

lemma submit_block_error:
  "submit_block b c m = (Inl e, c', m') \<Longrightarrow> c' = c \<and> m' = m"
  by (auto simp: submit_block_def split: sum.splits prod.splits dest!: connect_block_error)

lemma chain_create_ok:
  "chain_create g params = Inr c \<longleftrightarrow>
     hdr_version (blk_header g) = kBlockVersion \<and> hdr_height (blk_header g) = 0 \<and>
     hdr_prev_block (blk_header g) = zero_hash \<and>
     (\<exists>fees utxos. connect_block g empty_utxos params = (Inr fees, utxos) \<and>
        c = \<lparr>ch_tip = blk_header g, ch_utxos = utxos, ch_params = params\<rparr>)"
proof -
  have "connect_block g empty_utxos params = (Inr fees, utxos) \<Longrightarrow> check_block_sanity g = Inr ()" for fees utxos
    by (auto simp: connect_block_Inr connect_working_def result_simps)
  then show ?thesis
    by (auto simp: chain_create_def result_simps split: sum.splits prod.splits)
qed

lemma submit_block_code [simp]:
  "fails_with {kUnsupportedVersion, kInvalidBlock, kInvalidTransaction, kInvalidStateTransition}
     (fst (submit_block b c m))"
  using check_links_to_code [of "ch_tip c" "blk_header b"] check_block_sanity_code [of b]
    connect_block_code [of b "ch_utxos c" "ch_params c"]
  by (cases "check_links_to (ch_tip c) (blk_header b)"; cases "check_block_sanity b";
      cases "connect_block b (ch_utxos c) (ch_params c)") (auto simp: submit_block_def split: sum.splits)

section \<open>Chains and their blocks\<close>

type_synonym history = "Block list \<times> Chain"

definition chain_init :: "ConsensusParams \<Rightarrow> history \<Rightarrow> bool" where
  "chain_init params = (\<lambda>(bs, c). \<exists>g. bs = [g] \<and> chain_create g params = Inr c)"

inductive chain_step :: "history \<Rightarrow> history \<Rightarrow> bool" where
  "submit_block b c m = (Inr fees, c', m') \<Longrightarrow> chain_step (bs, c) (bs @ [b], c')"

inductive_cases chain_stepE: "chain_step (bs, c) s'"

text \<open>The ledger after a list of blocks, from nothing.\<close>

fun ledger_blocks :: "ConsensusParams \<Rightarrow> Block list \<Rightarrow> ledger \<Rightarrow> ledger option" where
  "ledger_blocks params [] L = Some L"
| "ledger_blocks params (b # bs) L =
     (case ledger_block params b L of None \<Rightarrow> None | Some (fees, L') \<Rightarrow> ledger_blocks params bs L')"

definition linked :: "Block list \<Rightarrow> bool" where
  "linked bs \<longleftrightarrow> (\<forall>i. Suc i < length bs \<longrightarrow> links_to (blk_header (bs ! i)) (blk_header (bs ! Suc i)))"

definition chain_inv :: "ConsensusParams \<Rightarrow> history \<Rightarrow> bool" where
  "chain_inv params = (\<lambda>(bs, c).
     bs \<noteq> [] \<and> ch_params c = params \<and> ch_tip c = blk_header (last bs) \<and>
     hdr_prev_block (blk_header (hd bs)) = zero_hash \<and> linked bs \<and>
     length bs = unat (chain_height c) + 1 \<and>
     utxo_ok (ch_utxos c) \<and> ledger_blocks params bs Map.empty = Some (utxo_view (ch_utxos c)) \<and>
     utxo_total (ch_utxos c) \<le> length bs * unat (block_subsidy params))"

lemma ledger_blocks_append:
  "ledger_blocks params (bs @ cs) L = Option.bind (ledger_blocks params bs L) (ledger_blocks params cs)"
  by (induction bs arbitrary: L) (auto split: option.splits)

lemma linked_snoc:
  assumes "bs \<noteq> []"
  shows "linked (bs @ [b]) \<longleftrightarrow> linked bs \<and> links_to (blk_header (last bs)) (blk_header b)"
proof -
  obtain n where n: "length bs = Suc n" using assms by (cases bs) auto
  then have "last bs = bs ! n" using assms by (simp add: last_conv_nth)
  with n show ?thesis by (auto simp: linked_def nth_append less_Suc_eq)
qed

lemma connect_block_facts:
  assumes "utxo_ok s" and "connect_block b s params = (Inr fees, s')"
  shows "utxo_ok s'" "ledger_block params b (utxo_view s) = Some (unat fees, utxo_view s')"
    "utxo_total s' \<le> utxo_total s + unat (block_subsidy params)"
proof -
  have "connect_working b s params = Inr (fees, s')" using assms(2) by (simp add: connect_block_Inr)
  with connect_working_iff [OF assms(1)] connect_working_total [OF assms(1)]
  show "utxo_ok s'" "ledger_block params b (utxo_view s) = Some (unat fees, utxo_view s')"
    "utxo_total s' \<le> utxo_total s + unat (block_subsidy params)"
    by force+
qed

interpretation chain_system: inv_system "chain_init params" chain_step "chain_inv params" for params
proof unfold_locales
  fix s assume "chain_init params s"
  then obtain g c where s: "s = ([g], c)" and c: "chain_create g params = Inr c" by (auto simp: chain_init_def)
  then show "chain_inv params s"
    by (auto simp: chain_inv_def chain_create_ok linked_def chain_height_def
        dest: connect_block_facts [OF utxo_ok_empty])
next
  fix s s' assume inv: "chain_inv params s" and step: "chain_step s s'"
  obtain bs c where s: "s = (bs, c)" by fastforce
  from step obtain b m fees c' m' where s': "s' = (bs @ [b], c')" and sub: "submit_block b c m = (Inr fees, c', m')"
    by (auto simp: s elim: chain_stepE)
  from sub obtain utxos where l: "links_to (ch_tip c) (blk_header b)"
    and con: "connect_block b (ch_utxos c) params = (Inr fees, utxos)"
    and c': "c' = c\<lparr>ch_utxos := utxos, ch_tip := blk_header b\<rparr>"
    using inv by (auto simp: submit_block_ok chain_inv_def s)
  have "utxo_ok (ch_utxos c)" using inv by (simp add: chain_inv_def s)
  note facts = connect_block_facts [OF this con]
  show "chain_inv params s'"
    using inv facts l unfolding s s' c'
    by (auto simp: chain_inv_def chain_height_def linked_snoc ledger_blocks_append links_to_def)
qed

lemma remove_all:
  assumes "mempool_ok pool"
  shows "mempool_ok (foldl (\<lambda>pool tx. mempool_remove (tx_txid tx) pool) pool txs) \<and>
    mempool_find k (foldl (\<lambda>pool tx. mempool_remove (tx_txid tx) pool) pool txs) =
       (if k \<in> tx_txid ` set txs then None else mempool_find k pool)"
  using assms
proof (induction txs arbitrary: pool)
  case (Cons tx txs)
  have "map_ok Hash256Less (by_txid pool)" using Cons.prems by (simp add: mempool_ok_def)
  then have "mempool_find k (mempool_remove (tx_txid tx) pool) = (if k = tx_txid tx then None else mempool_find k pool)"
    by (auto simp: mempool_find_def remove_by_txid hash_less.map_of_erase)
  with Cons.IH [OF remove_ok [OF Cons.prems, of "tx_txid tx"]] show ?case by auto
qed simp

section \<open>Properties\<close>

text \<open>A genesis block without transactions, and a second block with one coinbase.\<close>

definition example_genesis :: Block where
  "example_genesis = \<lparr>blk_header = \<lparr>hdr_version = 1, hdr_prev_block = zero_hash,
     hdr_merkle_root = zero_hash, hdr_timestamp = 100, hdr_height = 0\<rparr>, blk_transactions = []\<rparr>"

definition example_coinbase :: Transaction where
  "example_coinbase = make_coinbase 1 50 zero_hash"

definition example_block1 :: Block where
  "example_block1 = \<lparr>blk_header = \<lparr>hdr_version = 1, hdr_prev_block = header_hash (blk_header example_genesis),
     hdr_merkle_root = tx_txid example_coinbase, hdr_timestamp = 160, hdr_height = 1\<rparr>,
     blk_transactions = [example_coinbase]\<rparr>"

definition example_params :: ConsensusParams where
  "example_params = \<lparr>block_subsidy = 50, coinbase_maturity = 100\<rparr>"

definition example_chain0 :: Chain where
  "example_chain0 = \<lparr>ch_tip = blk_header example_genesis, ch_utxos = empty_utxos, ch_params = example_params\<rparr>"

definition example_chain1 :: Chain where
  "example_chain1 = \<lparr>ch_tip = blk_header example_block1,
     ch_utxos = \<lparr>coins = [(\<lparr>op_txid = tx_txid example_coinbase, op_index = 0\<rparr>,
       \<lparr>coin_output = \<lparr>out_value = 50, out_recipient = zero_hash\<rparr>, coin_height = 1, coin_coinbase = True\<rparr>)]\<rparr>,
     ch_params = example_params\<rparr>"

lemma compute_merkle_root_single [simp]: "compute_merkle_root [tx] = tx_txid tx"
  by (simp add: compute_merkle_root_def merkle_reduce.simps)

lemma compute_merkle_root_Nil [simp]: "compute_merkle_root [] = zero_hash"
  by (simp add: compute_merkle_root_def)

lemma wf_merkle_reduce: "xs \<noteq> [] \<Longrightarrow> list_all wf_hash xs \<Longrightarrow> wf_hash (merkle_reduce xs)"
proof (induction xs rule: merkle_reduce.induct)
  case (1 xs)
  show ?case
  proof (cases "length xs > 1")
    case True
    then have "merkle_next xs \<noteq> []" using length_merkle_next [of xs] by (cases "merkle_next xs") auto
    then show ?thesis
      using 1 True by (simp add: merkle_reduce.simps [of xs] wf_pair_up merkle_next_def)
  next
    case False
    then have "merkle_reduce xs = hd xs" by (simp add: merkle_reduce.simps)
    with 1 show ?thesis by (cases xs) simp_all
  qed
qed

lemma wf_compute_merkle_root [simp]: "wf_hash (compute_merkle_root txs)"
  using wf_merkle_reduce [of "map tx_txid txs"]
  by (auto simp: compute_merkle_root_def list_all_iff)

lemma length_block_to_bytes:
  "wf_header (blk_header b) \<Longrightarrow>
     length (block_to_bytes b) = 84 + (\<Sum>tx \<leftarrow> blk_transactions b. length (tx_to_bytes tx))"
  using length_header_bytes [of "blk_header b"]
  by (simp add: wire_simps enc_block_def enc_counted_def length_concat o_def)

lemma connect_empty_block:
  assumes "blk_transactions b = []" "hdr_merkle_root (blk_header b) = zero_hash" "wf_header (blk_header b)"
  shows "connect_block b s params = (Inr 0, s)"
proof -
  have "length (block_to_bytes b) \<le> 1048576"
    using assms by (simp add: length_block_to_bytes)
  with assms have "check_block_sanity b = Inr ()" by (simp add: check_block_sanity_iff sane_block_def)
  with assms(1) show ?thesis
    by (simp add: connect_block_def connect_working_def has_coinbase_def Let_def)
qed

text \<open>The size of a coinbase does not depend on its height or its value.\<close>

lemma length_make_coinbase:
  assumes "wf_hash recipient"
  shows "length (tx_to_bytes (make_coinbase height v recipient)) = 92"
proof -
  have "wf_tx (make_coinbase height v recipient)"
    using encodable_make_coinbase [OF assms, of height v] by (simp add: encodable_tx_def)
  then show ?thesis by (simp add: length_tx_to_bytes) (simp add: make_coinbase_eq)
qed

lemma sane_make_coinbase:
  "wf_hash recipient \<Longrightarrow> unat v \<le> 21000000 * 100000000 \<Longrightarrow> sane_tx (make_coinbase height v recipient)"
  by (simp add: sane_tx_def length_make_coinbase tx_out_total_def) (simp add: make_coinbase_eq tx_prevouts_def)

lemma sane_example_coinbase: "sane_tx example_coinbase"
  by (simp add: example_coinbase_def sane_make_coinbase)

lemma example_coinbase_outputs: "tx_outputs example_coinbase = [\<lparr>out_value = 50, out_recipient = zero_hash\<rparr>]"
  by (simp add: example_coinbase_def)

lemma example_create: "chain_create example_genesis example_params = Inr example_chain0"
  using connect_empty_block [of example_genesis empty_utxos example_params]
  by (simp add: chain_create_ok example_chain0_def) (simp add: example_genesis_def wf_header_def kBlockVersion_def)

lemma example_connect1:
  "connect_block example_block1 empty_utxos example_params = (Inr 0, ch_utxos example_chain1)"
proof -
  have "wf_header (blk_header example_block1)"
    by (simp add: example_block1_def wf_header_def)
  then have "length (block_to_bytes example_block1) = 176"
    by (simp add: length_block_to_bytes) (simp add: example_block1_def example_coinbase_def length_make_coinbase)
  then have "check_block_sanity example_block1 = Inr ()"
    using sane_example_coinbase by (simp add: check_block_sanity_iff sane_block_def) (simp add: example_block1_def)
  moreover have "add_outputs example_coinbase 1 True empty_utxos = Inr (ch_utxos example_chain1)"
    by (simp add: add_outputs_def example_coinbase_outputs utxo_add_def empty_utxos_def example_chain1_def)
  moreover have "checked_add 50 0 = Some (50 :: u64)" "sum_outputs example_coinbase = 50"
    by (simp_all add: checked_add_def sum_outputs_def example_coinbase_outputs)
  moreover have "is_coinbase example_coinbase" by (simp add: example_coinbase_def)
  ultimately show ?thesis
    by (simp add: connect_block_Inr connect_working_def has_coinbase_def Let_def connect_coinbase_def
        example_block1_def example_params_def)
qed

lemma example_links: "links_to (blk_header example_genesis) (blk_header example_block1)"
  by (simp add: links_to_def example_block1_def kBlockVersion_def) (simp add: example_genesis_def)

lemma example_submit: "submit_block example_block1 example_chain0 None = (Inr 0, example_chain1, None)"
  using example_links example_connect1
  by (auto simp: submit_block_ok example_chain0_def example_chain1_def)

lemma example_reachable:
  "reachable (chain_init example_params) chain_step ([example_genesis, example_block1], example_chain1)"
proof (rule reach_step [where s = "([example_genesis], example_chain0)"])
  show "reachable (chain_init example_params) chain_step ([example_genesis], example_chain0)"
    using example_create by (auto simp: chain_init_def intro: reach_init)
  show "chain_step ([example_genesis], example_chain0) ([example_genesis, example_block1], example_chain1)"
    using chain_step.intros [OF example_submit, of "[example_genesis]"] by simp
qed

text \<open>C2. In every chain that creation and successful submissions can reach, the tip is the
  header of the last block, the blocks are linked from a genesis block by hash, consecutive
  height and non-decreasing time, the height counts them, and the unspent outputs are exactly
  what the abstract ledger computes for this list of blocks from nothing.\<close>

theorem chain_history:
  assumes "reachable (chain_init params) chain_step (bs, c)"
  shows "bs \<noteq> [] \<and> ch_tip c = blk_header (last bs) \<and> ch_params c = params \<and>
    hdr_prev_block (blk_header (hd bs)) = zero_hash \<and> linked bs \<and>
    length bs = unat (chain_height c) + 1 \<and>
    utxo_ok (ch_utxos c) \<and> ledger_blocks params bs Map.empty = Some (utxo_view (ch_utxos c))"
  using chain_system.reachable_inv [OF assms] by (simp add: chain_inv_def)

theorem chain_history_witness:
  "ledger_blocks example_params [example_genesis, example_block1] Map.empty = Some (utxo_view (ch_utxos example_chain1))"
  using chain_history [OF example_reachable] by simp

text \<open>C6. The money in the unspent outputs of a reachable chain never exceeds one block subsidy
  for each of its blocks.\<close>

theorem chain_supply_bound:
  assumes "reachable (chain_init params) chain_step (bs, c)"
  shows "utxo_total (ch_utxos c) \<le> (unat (chain_height c) + 1) * unat (block_subsidy params)"
  using chain_system.reachable_inv [OF assms] by (auto simp: chain_inv_def)

theorem chain_supply_bound_witness: "utxo_total (ch_utxos example_chain1) \<le> 100"
  using chain_supply_bound [OF example_reachable]
  by (simp add: chain_height_def example_chain1_def example_block1_def example_params_def)

text \<open>C17. Submitting a block is all or nothing. When it fails neither the tip, nor the unspent
  outputs, nor the mempool has changed and the error is one of the four documented codes; when it
  succeeds the block follows the old tip and becomes the new one, its ledger transition is
  applied, and the mempool stays consistent and loses exactly the transactions of the block.\<close>

theorem submit_block_all_or_nothing:
  assumes "utxo_ok (ch_utxos c)" "mempool_ok pool"
  shows "case submit_block b c (Some pool) of
      (Inl e, c', m') \<Rightarrow> c' = c \<and> m' = Some pool \<and>
        err_code e \<in> {kUnsupportedVersion, kInvalidBlock, kInvalidTransaction, kInvalidStateTransition}
    | (Inr fees, c', m') \<Rightarrow> links_to (ch_tip c) (blk_header b) \<and> ch_tip c' = blk_header b \<and>
        ch_params c' = ch_params c \<and>
        ledger_block (ch_params c) b (utxo_view (ch_utxos c)) = Some (unat fees, utxo_view (ch_utxos c')) \<and>
        (\<exists>pool'. m' = Some pool' \<and> mempool_ok pool' \<and>
          (\<forall>k. mempool_find k pool' =
            (if k \<in> tx_txid ` set (blk_transactions b) then None else mempool_find k pool)))"
proof (cases "submit_block b c (Some pool)")
  case (fields r c' m')
  show ?thesis
  proof (cases r)
    case (Inl e)
    then show ?thesis
      using fields submit_block_error [of b c "Some pool" e c' m'] submit_block_code [of b c "Some pool"]
      by simp
  next
    case (Inr fees)
    then obtain utxos where "links_to (ch_tip c) (blk_header b)"
      and con: "connect_block b (ch_utxos c) (ch_params c) = (Inr fees, utxos)"
      and c': "c' = c\<lparr>ch_utxos := utxos, ch_tip := blk_header b\<rparr>"
      and m': "m' = Some (foldl (\<lambda>pool tx. mempool_remove (tx_txid tx) pool) pool (blk_transactions b))"
      using fields by (auto simp: submit_block_ok)
    then show ?thesis
      using connect_block_facts(2) [OF assms(1) con] remove_all [OF assms(2)]
      by (simp add: fields Inr)
  qed
qed

theorem submit_block_all_or_nothing_witness:
  "ledger_block example_params example_block1 Map.empty = Some (0, utxo_view (ch_utxos example_chain1))"
proof -
  have "utxo_ok (ch_utxos example_chain0)" by (simp add: example_chain0_def utxo_ok_empty)
  moreover have "submit_block example_block1 example_chain0 (Some example_pool) =
      (Inr 0, example_chain1, Some (mempool_remove (tx_txid example_coinbase) example_pool))"
    using example_submit by (auto simp: submit_block_ok example_block1_def)
  ultimately show ?thesis
    using submit_block_all_or_nothing [OF _ example_pool_ok, of example_chain0 example_block1]
    by (simp add: example_chain0_def)
qed

end
