(* ===== verification/Block_Builder.thy ===== *)
theory Block_Builder
  imports Chain "HOL-Library.Sublist"
begin

text \<open>
  \<^verbatim>\<open>production/block_builder.hpp\<close> and \<^verbatim>\<open>src/production/block_builder.cpp\<close>: selection of mempool
  transactions for a candidate block. The local variables of the selection loop are the fields of
  a record; \<^verbatim>\<open>break\<close> ends the recursion and \<^verbatim>\<open>continue\<close> keeps the record. The file's private
  \<^verbatim>\<open>checked_add\<close> is the same function as the one of the transaction checks.
\<close>

section \<open>Operations\<close>

record BlockTemplateParams =
  bt_version :: u32
  bt_max_block_size_bytes :: u32
  bt_max_transactions :: u32
  bt_consensus :: ConsensusParams
  bt_coinbase_recipient :: Hash256

record BlockTemplate =
  bt_block :: Block
  bt_total_fees :: u64
  bt_selected_count :: u64

text \<open>The returned flag and the caller's set after the call.\<close>

definition try_apply :: "Transaction \<Rightarrow> u32 \<Rightarrow> UtxoSet \<Rightarrow> bool \<times> UtxoSet" where
  "try_apply tx height working =
     (case foldR (\<lambda>trial input. bindR (utxo_spend (in_prevout input) trial) (\<lambda>(_, trial). Inr trial))
             working (tx_inputs tx) of
        Inl _ \<Rightarrow> (False, working)
      | Inr trial \<Rightarrow>
          let txid = tx_txid tx
          in case foldR (\<lambda>trial (i, output).
                    utxo_add \<lparr>op_txid = txid, op_index = of_nat i\<rparr>
                      \<lparr>coin_output = output, coin_height = height, coin_coinbase = False\<rparr> trial)
                  trial (List.enumerate 0 (tx_outputs tx)) of
               Inl _ \<Rightarrow> (False, working)
             | Inr trial \<Rightarrow> (True, trial))"

record Selection =
  sel_size :: u64
  sel_working :: UtxoSet
  sel_fees :: u64
  sel_count :: u64
  sel_txs :: "Transaction list"

definition select_entry :: "BlockTemplateParams \<Rightarrow> u32 \<Rightarrow> Entry \<Rightarrow> Selection \<Rightarrow> Selection" where
  "select_entry params height entry st =
     (let projected = sel_size st + e_size_bytes entry
      in if projected > ucast (bt_max_block_size_bytes params) then st
         else case check_transaction_inputs (e_transaction entry) (sel_working st) of
           Inl _ \<Rightarrow> st
         | Inr fee \<Rightarrow>
             if \<not> is_ok (check_coinbase_maturity (e_transaction entry) (sel_working st) height
                       (coinbase_maturity (bt_consensus params)))
             then st
             else case try_apply (e_transaction entry) height (sel_working st) of
               (False, working) \<Rightarrow> st\<lparr>sel_working := working\<rparr>
             | (True, working) \<Rightarrow>
                 (case checked_add (sel_fees st) fee of
                    None \<Rightarrow> st\<lparr>sel_working := working\<rparr>
                  | Some new_fees \<Rightarrow>
                      st\<lparr>sel_working := working, sel_fees := new_fees, sel_size := projected,
                         sel_txs := sel_txs st @ [e_transaction entry], sel_count := sel_count st + 1\<rparr>))"

fun select_entries :: "BlockTemplateParams \<Rightarrow> u32 \<Rightarrow> Entry list \<Rightarrow> Selection \<Rightarrow> Selection" where
  "select_entries params height [] st = st"
| "select_entries params height (entry # entries) st =
     (if sel_count st \<ge> ucast (bt_max_transactions params) then st
      else select_entries params height entries (select_entry params height entry st))"

definition build_block_template ::
    "BlockHeader \<Rightarrow> u64 \<Rightarrow> Mempool \<Rightarrow> UtxoSet \<Rightarrow> BlockTemplateParams \<Rightarrow> BlockTemplate Result" where
  "build_block_template tip timestamp mempool utxos params =
     (if hdr_height tip = UINT32_MAX
      then make_error kInvalidBlock ''chain height would overflow''
      else
        let height = hdr_height tip + 1;
            header = \<lparr>hdr_version = bt_version params, hdr_prev_block = header_hash tip,
                      hdr_merkle_root = zero_hash, hdr_timestamp = timestamp, hdr_height = height\<rparr>;
            placeholder = make_coinbase height (block_subsidy (bt_consensus params)) (bt_coinbase_recipient params);
            current_size = of_nat (length (block_to_bytes \<lparr>blk_header = header, blk_transactions = [placeholder]\<rparr>));
            st = select_entries params height (entries_by_feerate mempool)
                   \<lparr>sel_size = current_size, sel_working = utxos, sel_fees = 0, sel_count = 0, sel_txs = []\<rparr>
        in case checked_add (block_subsidy (bt_consensus params)) (sel_fees st) of
             None \<Rightarrow> make_error kInvalidBlock ''coinbase reward overflow''
           | Some reward \<Rightarrow>
               let txs = make_coinbase height reward (bt_coinbase_recipient params) # sel_txs st;
                   block = \<lparr>blk_header = header\<lparr>hdr_merkle_root := compute_merkle_root txs\<rparr>, blk_transactions = txs\<rparr>
               in case fst (connect_block block utxos (bt_consensus params)) of
                    Inl e \<Rightarrow> make_error kInvalidBlock (''produced block failed validation: '' @ err_message e)
                  | Inr connected \<Rightarrow>
                      Inr \<lparr>bt_block = block, bt_total_fees = connected, bt_selected_count = sel_count st\<rparr>)"

section \<open>The selection loop\<close>

lemma try_apply_eq:
  "try_apply tx height s =
     (case bindR (spend_inputs tx s) (add_outputs tx height False) of
        Inl _ \<Rightarrow> (False, s) | Inr s' \<Rightarrow> (True, s'))"
  by (simp add: try_apply_def spend_inputs_def add_outputs_def Let_def split: sum.splits)

text \<open>
  What the loop maintains while the fees cannot overflow: the selected transactions connect, in
  order, from the caller's set to the working set, and the size counter is the size of the block
  they make.
\<close>

definition selection_ok ::
    "BlockTemplateParams \<Rightarrow> u32 \<Rightarrow> UtxoSet \<Rightarrow> Entry list \<Rightarrow> Selection \<Rightarrow> bool" where
  "selection_ok params height utxos es st \<longleftrightarrow>
     foldR (connect_tx height (bt_consensus params)) (0, utxos) (sel_txs st) = Inr (sel_fees st, sel_working st) \<and>
     subseq (sel_txs st) (map e_transaction es) \<and>
     unat (sel_size st) = 176 + (\<Sum>tx \<leftarrow> sel_txs st. length (tx_to_bytes tx)) \<and>
     (sel_txs st \<noteq> [] \<longrightarrow> unat (sel_size st) \<le> unat (bt_max_block_size_bytes params)) \<and>
     unat (sel_count st) = length (sel_txs st) \<and> length (sel_txs st) \<le> unat (bt_max_transactions params)"

lemma subseq_in: "subseq xs ys \<Longrightarrow> x \<in> set xs \<Longrightarrow> x \<in> set ys"
  by (induction rule: list_emb.induct) auto

lemma subseq_distinct: "subseq xs ys \<Longrightarrow> distinct ys \<Longrightarrow> distinct xs"
  by (induction rule: list_emb.induct) (auto dest: subseq_in)

lemma select_entry_cases:
  assumes "utxo_ok (sel_working st)" and "sane_tx (e_transaction e)"
    and "utxo_total (sel_working st) + unat (sel_fees st) < 2 ^ 64"
  obtains (skip) "select_entry params height e st = st"
  | (take) fees working where "connect_tx height (bt_consensus params) (sel_fees st, sel_working st) (e_transaction e) =
      Inr (fees, working)"
    "\<not> sel_size st + e_size_bytes e > ucast (bt_max_block_size_bytes params)"
    "select_entry params height e st = st\<lparr>sel_working := working, sel_fees := fees, sel_size := sel_size st + e_size_bytes e,
       sel_txs := sel_txs st @ [e_transaction e], sel_count := sel_count st + 1\<rparr>"
proof (cases "select_entry params height e st = st")
  case False
  let ?tx = "e_transaction e" and ?s = "sel_working st"
  have dist: "distinct (tx_prevouts ?tx)" using assms(2) by (simp add: sane_tx_def)
  from False obtain fee where size: "\<not> sel_size st + e_size_bytes e > ucast (bt_max_block_size_bytes params)"
    and fee: "check_transaction_inputs ?tx ?s = Inr fee"
    and mature: "check_coinbase_maturity ?tx ?s height (coinbase_maturity (bt_consensus params)) = Inr ()"
    by (auto simp: select_entry_def Let_def is_ok_iff split: if_splits sum.splits)
  with False obtain w working where w: "spend_inputs ?tx ?s = Inr w" "add_outputs ?tx height False w = Inr working"
    by (cases "spend_inputs ?tx ?s") (auto simp: select_entry_def Let_def try_apply_eq split: sum.splits)
  have "tx_out_total ?tx + unat fee = view_value (utxo_view ?s) (tx_prevouts ?tx)"
    using fee assms(2) by (simp add: check_transaction_inputs_iff)
  then have "unat (sel_fees st) + unat fee < 2 ^ 64"
    using spend_inputs_total [OF assms(1) dist w(1)] assms(3) by simp
  then have "checked_add (sel_fees st) fee = Some (sel_fees st + fee)" by (simp add: checked_add_Some)
  then show thesis
    using size fee mature w take [of "sel_fees st + fee" working]
    by (simp add: select_entry_def Let_def try_apply_eq connect_tx_def)
qed

lemma select_entry_ok:
  assumes "selection_ok params height utxos es st" and "utxo_ok utxos" and "utxo_total utxos < 2 ^ 64"
    and "\<forall>x \<in> set (es @ [e]). entry_ok (e_txid x) x"
    and "unat (sel_count st) < unat (bt_max_transactions params)"
  shows "selection_ok params height utxos (es @ [e]) (select_entry params height e st)"
proof -
  let ?tx = "e_transaction e" and ?p = "bt_consensus params" and ?st = "select_entry params height e st"
  have st: "foldR (connect_tx height ?p) (0, utxos) (sel_txs st) = Inr (sel_fees st, sel_working st)"
    "subseq (sel_txs st) (map e_transaction es)"
    "unat (sel_size st) = 176 + (\<Sum>tx \<leftarrow> sel_txs st. length (tx_to_bytes tx))"
    "unat (sel_count st) = length (sel_txs st)"
    using assms(1) by (simp_all add: selection_ok_def)
  have keep: "selection_ok params height utxos (es @ [e]) st"
    using assms(1) list_emb_append_mono [OF st(2), of "[]" "[e_transaction e]"] by (auto simp: selection_ok_def)
  have sane: "sane_tx ?tx" "unat (e_size_bytes e) = length (tx_to_bytes ?tx)"
    using assms(4) by (auto simp: entry_ok_def)
  have "\<forall>tx \<in> set (sel_txs st). sane_tx tx" using assms(4) subseq_in [OF st(2)] by (auto simp: entry_ok_def)
  from connect_txs_total [OF assms(2) this st(1)]
  have total: "utxo_total (sel_working st) + unat (sel_fees st) < 2 ^ 64" "utxo_ok (sel_working st)"
    using assms(3) by simp_all
  show ?thesis
  proof (cases rule: select_entry_cases [OF total(2) sane(1) total(1), of params height, case_names skip take])
    case (take fees working)
    have "unat (sel_size st) \<le> 176 + 2 ^ 32"
      using assms(1) unat_u32_less [of "bt_max_block_size_bytes params"]
      by (cases "sel_txs st") (auto simp: selection_ok_def)
    moreover have "length (tx_to_bytes ?tx) \<le> 65536" using sane(1) by (simp add: sane_tx_def)
    ultimately have size: "unat (sel_size st + e_size_bytes e) = unat (sel_size st) + length (tx_to_bytes ?tx)"
      using sane(2) by (simp add: unat_add_no_wrap)
    have count: "unat (sel_count st + 1) = unat (sel_count st) + 1"
      using assms(5) unat_u32_less [of "bt_max_transactions params"] by (simp add: unat_add_no_wrap)
    show ?thesis
      using st take(1,2) assms(5) size count
      by (simp add: take(3) selection_ok_def foldR_append word_less_nat_alt list_emb_append_mono)
  qed (simp add: keep)
qed

lemma select_entries_ok:
  "selection_ok params height utxos es st \<Longrightarrow> utxo_ok utxos \<Longrightarrow> utxo_total utxos < 2 ^ 64 \<Longrightarrow>
   \<forall>x \<in> set (es @ fs). entry_ok (e_txid x) x \<Longrightarrow>
   selection_ok params height utxos (es @ fs) (select_entries params height fs st)"
proof (induction fs arbitrary: es st)
  case (Cons e fs)
  show ?case
  proof (cases "sel_count st \<ge> ucast (bt_max_transactions params)")
    case True
    then show ?thesis
      using Cons.prems(1) list_emb_append_mono [of "(=)" "sel_txs st" "map e_transaction es" "[]"]
      by (auto simp: selection_ok_def)
  next
    case False
    then have "unat (sel_count st) < unat (bt_max_transactions params)" by (simp add: word_le_nat_alt)
    then have "selection_ok params height utxos (es @ [e]) (select_entry params height e st)"
      using Cons.prems by (intro select_entry_ok) auto
    from Cons.IH [OF this Cons.prems(2,3)] Cons.prems(4) False show ?thesis by simp
  qed
qed simp

text \<open>The candidate the builder verifies, for a given selection.\<close>

definition candidate :: "BlockHeader \<Rightarrow> u64 \<Rightarrow> BlockTemplateParams \<Rightarrow> u64 \<Rightarrow> Transaction list \<Rightarrow> Block" where
  "candidate tip timestamp params reward txs =
     (let height = hdr_height tip + 1; txs = make_coinbase height reward (bt_coinbase_recipient params) # txs
      in \<lparr>blk_header = \<lparr>hdr_version = bt_version params, hdr_prev_block = header_hash tip,
            hdr_merkle_root = compute_merkle_root txs, hdr_timestamp = timestamp, hdr_height = height\<rparr>,
          blk_transactions = txs\<rparr>)"

definition initial_selection :: "UtxoSet \<Rightarrow> Selection" where
  "initial_selection utxos = \<lparr>sel_size = 176, sel_working = utxos, sel_fees = 0, sel_count = 0, sel_txs = []\<rparr>"

lemma build_block_template_eq:
  assumes "hdr_height tip \<noteq> UINT32_MAX" and "wf_hash (bt_coinbase_recipient params)"
  shows "build_block_template tip timestamp pool utxos params =
    (let st = select_entries params (hdr_height tip + 1) (entries_by_feerate pool) (initial_selection utxos)
     in case checked_add (block_subsidy (bt_consensus params)) (sel_fees st) of
          None \<Rightarrow> make_error kInvalidBlock ''coinbase reward overflow''
        | Some reward \<Rightarrow>
            let block = candidate tip timestamp params reward (sel_txs st)
            in case fst (connect_block block utxos (bt_consensus params)) of
                 Inl e \<Rightarrow> make_error kInvalidBlock (''produced block failed validation: '' @ err_message e)
               | Inr fees \<Rightarrow>
                   Inr \<lparr>bt_block = block, bt_total_fees = fees, bt_selected_count = sel_count st\<rparr>)"
proof -
  have "wf_header \<lparr>hdr_version = v, hdr_prev_block = header_hash tip, hdr_merkle_root = zero_hash,
      hdr_timestamp = timestamp, hdr_height = h\<rparr>" for v h
    by (simp add: wf_header_def)
  then have "length (block_to_bytes \<lparr>blk_header = \<lparr>hdr_version = v, hdr_prev_block = header_hash tip,
      hdr_merkle_root = zero_hash, hdr_timestamp = timestamp, hdr_height = h\<rparr>,
      blk_transactions = [make_coinbase h' r (bt_coinbase_recipient params)]\<rparr>) = 176" for v h h' r
    using assms(2) by (simp add: length_block_to_bytes length_make_coinbase)
  with assms(1) show ?thesis
    by (simp add: build_block_template_def Let_def initial_selection_def candidate_def
        split: option.split sum.split)
qed

lemma build_block_template_Inr:
  assumes "build_block_template tip timestamp pool utxos params = Inr t"
  shows "hdr_height tip \<noteq> UINT32_MAX \<and>
    (\<exists>reward txs s'. bt_block t = candidate tip timestamp params reward txs \<and>
      connect_block (bt_block t) utxos (bt_consensus params) = (Inr (bt_total_fees t), s'))"
proof -
  have "fst (connect_block b utxos (bt_consensus params)) = Inr fees \<Longrightarrow>
      \<exists>s'. connect_block b utxos (bt_consensus params) = (Inr fees, s')" for b fees
    by (cases "connect_block b utxos (bt_consensus params)") simp
  then show ?thesis
    using assms
    by (auto simp: build_block_template_def Let_def candidate_def result_simps
        split: if_splits option.splits sum.splits)
qed

lemma ledger_txs_dom:
  "ledger_txs h m txs L = Some (n, L') \<Longrightarrow> dom L' \<subseteq> dom L \<union> (\<Union>tx \<in> set txs. tx_outpoints tx)"
proof (induction txs arbitrary: L n)
  case (Cons tx txs)
  then obtain n' where "ledger_txs h m txs (ledger_tx h tx L) = Some (n', L')" by (auto split: if_splits)
  from Cons.IH [OF this] show ?case
    by (auto simp: ledger_tx_def dom_ledger_create ledger_spend_def split: if_splits)
qed simp

lemma entries_facts:
  assumes "mempool_ok pool"
  shows "\<forall>e \<in> set (entries_by_feerate pool). entry_ok (e_txid e) e \<and> e_txid e \<in> fst ` set (by_txid pool)"
    "distinct (map tx_txid (map e_transaction (entries_by_feerate pool)))"
proof -
  have m: "mset (entries_by_feerate pool) = mset (map snd (by_txid pool))"
    using std_sort_sorted [OF distinct_entries [OF assms], of higher_feerate] mempool_orders(1,2) [OF assms]
    by (simp add: entries_by_feerate_def)
  have ok: "entry_ok k e" if "(k, e) \<in> set (by_txid pool)" for k e
    using assms that by (auto simp: mempool_ok_def)
  show "\<forall>e \<in> set (entries_by_feerate pool). entry_ok (e_txid e) e \<and> e_txid e \<in> fst ` set (by_txid pool)"
  proof
    fix e assume "e \<in> set (entries_by_feerate pool)"
    then obtain k where "(k, e) \<in> set (by_txid pool)" using mset_eq_setD [OF m] by auto
    moreover from ok [OF this] have "e_txid e = k" "entry_ok k e" by (simp_all add: entry_ok_def)
    ultimately show "entry_ok (e_txid e) e \<and> e_txid e \<in> fst ` set (by_txid pool)" by force
  qed
  have "map (tx_txid \<circ> e_transaction \<circ> snd) (by_txid pool) = map fst (by_txid pool)"
    using ok by (auto simp: entry_ok_def)
  moreover have "distinct (map fst (by_txid pool))"
    using assms by (auto simp: mempool_ok_def intro: hash_less.map_ok_distinct)
  moreover have "mset (map (tx_txid \<circ> e_transaction) (entries_by_feerate pool)) =
      mset (map (tx_txid \<circ> e_transaction \<circ> snd) (by_txid pool))"
    using m by (metis list.map_comp mset_map)
  ultimately show "distinct (map tx_txid (map e_transaction (entries_by_feerate pool)))"
    by (metis list.map_comp mset_eq_imp_distinct_iff)
qed

text \<open>
  No coinbase for the next height has the id of a pooled transaction or of a transaction with an
  unspent output. Ids are SHA-256 values, so this is a fact about the hash function; the
  consensus rules reject the block where it fails.
\<close>

definition coinbase_fresh :: "u32 \<Rightarrow> Hash256 \<Rightarrow> Mempool \<Rightarrow> UtxoSet \<Rightarrow> bool" where
  "coinbase_fresh height recipient pool utxos \<longleftrightarrow>
     (\<forall>v. tx_txid (make_coinbase height v recipient) \<notin>
       fst ` set (by_txid pool) \<union> op_txid ` dom (utxo_view utxos))"

definition selected :: "BlockHeader \<Rightarrow> Mempool \<Rightarrow> UtxoSet \<Rightarrow> BlockTemplateParams \<Rightarrow> Selection" where
  "selected tip pool utxos params =
     select_entries params (hdr_height tip + 1) (entries_by_feerate pool) (initial_selection utxos)"

lemma selected_facts:
  assumes "mempool_ok pool" and "utxo_ok utxos" and "utxo_total utxos < 2 ^ 64"
    and st_def: "st = selected tip pool utxos params"
  shows "selection_ok params (hdr_height tip + 1) utxos (entries_by_feerate pool) st"
    "\<forall>tx \<in> set (sel_txs st). sane_tx tx \<and> \<not> is_coinbase tx \<and> tx_txid tx \<in> fst ` set (by_txid pool)"
    "distinct (map tx_txid (sel_txs st))"
    "utxo_total (sel_working st) + unat (sel_fees st) = utxo_total utxos \<and> utxo_ok (sel_working st)"
proof -
  let ?h = "hdr_height tip + 1" and ?es = "entries_by_feerate pool"
  have "selection_ok params ?h utxos [] (initial_selection utxos)"
    by (simp add: selection_ok_def initial_selection_def)
  from select_entries_ok [OF this assms(2,3), of ?es] entries_facts(1) [OF assms(1)]
  show ok: "selection_ok params ?h utxos ?es st" by (simp add: st_def selected_def)
  then have sub: "subseq (sel_txs st) (map e_transaction ?es)" by (simp add: selection_ok_def)
  have "sane_tx tx \<and> \<not> is_coinbase tx \<and> tx_txid tx \<in> fst ` set (by_txid pool)" if "tx \<in> set (sel_txs st)" for tx
    using subseq_in [OF sub that] entries_facts(1) [OF assms(1)] by (auto simp: entry_ok_def)
  then show all: "\<forall>tx \<in> set (sel_txs st). sane_tx tx \<and> \<not> is_coinbase tx \<and> tx_txid tx \<in> fst ` set (by_txid pool)"
    by blast
  have "subseq (map tx_txid (sel_txs st)) (map tx_txid (map e_transaction ?es))" using subseq_map [OF sub] .
  then show "distinct (map tx_txid (sel_txs st))" by (rule subseq_distinct) (rule entries_facts(2) [OF assms(1)])
  show "utxo_total (sel_working st) + unat (sel_fees st) = utxo_total utxos \<and> utxo_ok (sel_working st)"
    using ok all connect_txs_total [OF assms(2), of "sel_txs st" ?h "bt_consensus params" 0]
    by (simp add: selection_ok_def)
qed

lemma candidate_simps [simp]:
  "blk_transactions (candidate tip ts params reward txs) =
     make_coinbase (hdr_height tip + 1) reward (bt_coinbase_recipient params) # txs"
  "hdr_height (blk_header (candidate tip ts params reward txs)) = hdr_height tip + 1"
  "hdr_merkle_root (blk_header (candidate tip ts params reward txs)) =
     compute_merkle_root (make_coinbase (hdr_height tip + 1) reward (bt_coinbase_recipient params) # txs)"
  "has_coinbase (candidate tip ts params reward txs)"
  "wf_header (blk_header (candidate tip ts params reward txs))"
  by (simp_all add: candidate_def Let_def has_coinbase_def wf_header_def)

lemma candidate_size:
  "wf_hash (bt_coinbase_recipient params) \<Longrightarrow>
     length (block_to_bytes (candidate tip ts params reward txs)) =
       176 + (\<Sum>tx \<leftarrow> txs. length (tx_to_bytes tx))"
  by (simp add: length_block_to_bytes length_make_coinbase)

lemma add_coinbase_output:
  assumes "utxo_view s \<lparr>op_txid = tx_txid (make_coinbase h v r), op_index = 0\<rparr> = None"
  shows "\<exists>s'. add_outputs (make_coinbase h v r) h True s = Inr s'"
  using assms by (simp add: add_outputs_def utxo_add_def utxo_view_def)

text \<open>
  A transaction takes at least 28 bytes, so a block within the size limit is within the limit on
  the number of transactions too.
\<close>

lemma sane_txs_size: "\<forall>tx \<in> set txs. sane_tx tx \<Longrightarrow> 28 * length txs \<le> (\<Sum>tx \<leftarrow> txs. length (tx_to_bytes tx))"
proof (induction txs)
  case (Cons tx txs)
  then have "tx_inputs tx \<noteq> []" "tx_outputs tx \<noteq> []" by (simp_all add: sane_tx_def)
  then have "28 \<le> length (tx_to_bytes tx)"
    by (cases "tx_inputs tx"; cases "tx_outputs tx")
      (simp_all add: wire_simps enc_tx_def enc_counted_def enc_input_def enc_output_def)
  with Cons show ?case by simp
qed simp

lemma candidate_connects:
  assumes ok: "mempool_ok pool" "utxo_ok utxos"
    and tip: "hdr_height tip \<noteq> UINT32_MAX" and recipient: "wf_hash (bt_coinbase_recipient params)"
    and limits: "unat (bt_max_block_size_bytes params) \<le> 1048576"
    and money: "unat (block_subsidy (bt_consensus params)) + utxo_total utxos \<le> 21000000 * 100000000"
    and fresh: "coinbase_fresh (hdr_height tip + 1) (bt_coinbase_recipient params) pool utxos"
    and st: "st = selected tip pool utxos params"
    and reward: "reward = block_subsidy (bt_consensus params) + sel_fees st"
  shows "\<exists>s'. connect_block (candidate tip ts params reward (sel_txs st)) utxos (bt_consensus params) =
    (Inr (sel_fees st), s')"
proof -
  let ?b = "candidate tip ts params reward (sel_txs st)" and ?h = "hdr_height tip + 1"
    and ?cb = "make_coinbase (hdr_height tip + 1) reward (bt_coinbase_recipient params)"
  have "utxo_total utxos < 2 ^ 64" using money by simp
  note facts = selected_facts [OF ok this st]
  from facts(4) money have sum: "unat (block_subsidy (bt_consensus params)) + unat (sel_fees st) \<le> 21000000 * 100000000"
    by simp
  then have r: "unat reward \<le> 21000000 * 100000000"
    and add: "checked_add (block_subsidy (bt_consensus params)) (sel_fees st) = Some reward"
    by (simp_all add: reward unat_add_no_wrap checked_add_Some)
  have sel: "foldR (connect_tx ?h (bt_consensus params)) (0, utxos) (sel_txs st) = Inr (sel_fees st, sel_working st)"
    "176 + (\<Sum>tx \<leftarrow> sel_txs st. length (tx_to_bytes tx)) \<le> 1048576"
    using facts(1) limits by (cases "sel_txs st"; auto simp: selection_ok_def)+
  moreover have "28 * length (sel_txs st) \<le> (\<Sum>tx \<leftarrow> sel_txs st. length (tx_to_bytes tx))"
    using facts(2) by (intro sane_txs_size) blast
  ultimately have count: "length (sel_txs st) < 65536" by simp
  have cb: "tx_txid ?cb \<notin> fst ` set (by_txid pool)" "tx_txid ?cb \<notin> op_txid ` dom (utxo_view utxos)"
    using fresh by (auto simp: coinbase_fresh_def)
  have "sane_block ?b"
    using facts(2,3) sel(2) count cb(1) recipient r
    by (auto simp: sane_block_def candidate_size sane_make_coinbase)
  moreover have "\<exists>s'. add_outputs ?cb ?h True (sel_working st) = Inr s'"
  proof (rule add_coinbase_output)
    let ?op = "\<lparr>op_txid = tx_txid ?cb, op_index = 0\<rparr>"
    have sane: "\<forall>tx \<in> set (sel_txs st). sane_tx tx" using facts(2) by blast
    obtain n where "ledger_txs ?h (coinbase_maturity (bt_consensus params)) (sel_txs st) (utxo_view utxos) =
        Some (n, utxo_view (sel_working st))"
      using connect_txs_iff [OF ok(2) sane, THEN iffD1, OF sel(1)] by blast
    note dom = ledger_txs_dom [OF this]
    have "?op \<notin> dom (utxo_view utxos)" using cb(2) by force
    moreover have "?op \<notin> tx_outpoints tx" if "tx \<in> set (sel_txs st)" for tx
    proof -
      have "tx_txid tx \<noteq> tx_txid ?cb" using facts(2) that cb(1) by metis
      then show ?thesis by (auto simp: tx_outpoints_def)
    qed
    ultimately have "?op \<notin> dom (utxo_view (sel_working st))" using dom by blast
    then show "utxo_view (sel_working st) ?op = None" by blast
  qed
  moreover have "sum_outputs ?cb = reward" by (simp add: sum_outputs_def)
  ultimately show ?thesis
    using sel(1) add
    by (auto simp: connect_block_Inr connect_working_def check_block_sanity_iff [THEN iffD2] connect_coinbase_def Let_def)
qed

lemma build_block_template_candidate:
  assumes ok: "mempool_ok pool" "utxo_ok utxos"
    and tip: "hdr_height tip \<noteq> UINT32_MAX" and recipient: "wf_hash (bt_coinbase_recipient params)"
    and limits: "unat (bt_max_block_size_bytes params) \<le> 1048576"
    and money: "unat (block_subsidy (bt_consensus params)) + utxo_total utxos \<le> 21000000 * 100000000"
    and fresh: "coinbase_fresh (hdr_height tip + 1) (bt_coinbase_recipient params) pool utxos"
    and st: "st = selected tip pool utxos params"
  shows "build_block_template tip ts pool utxos params =
    Inr \<lparr>bt_block = candidate tip ts params (block_subsidy (bt_consensus params) + sel_fees st) (sel_txs st),
         bt_total_fees = sel_fees st, bt_selected_count = sel_count st\<rparr>"
proof -
  let ?sub = "block_subsidy (bt_consensus params)"
  have "utxo_total utxos < 2 ^ 64" using money by simp
  from selected_facts(4) [OF ok this st] money have "checked_add ?sub (sel_fees st) = Some (?sub + sel_fees st)"
    by (simp add: checked_add_Some)
  moreover from candidate_connects [OF ok tip recipient limits money fresh st refl, of ts]
  have "fst (connect_block (candidate tip ts params (?sub + sel_fees st) (sel_txs st)) utxos (bt_consensus params)) =
      Inr (sel_fees st)"
    by auto
  moreover have "select_entries params (hdr_height tip + 1) (entries_by_feerate pool) (initial_selection utxos) = st"
    by (simp add: st selected_def)
  ultimately show ?thesis by (simp add: build_block_template_eq [OF tip recipient] Let_def)
qed

section \<open>Properties\<close>

definition example_template_params :: BlockTemplateParams where
  "example_template_params = \<lparr>bt_version = 1, bt_max_block_size_bytes = 1000000, bt_max_transactions = 100,
     bt_consensus = example_params, bt_coinbase_recipient = zero_hash\<rparr>"

lemma example_candidate: "candidate (blk_header example_genesis) 160 example_template_params 50 [] = example_block1"
  by (simp add: candidate_def example_block1_def example_template_params_def example_coinbase_def Let_def)
    (simp add: example_genesis_def)

text \<open>C12. A block the builder returns is one the chain accepts. Built for the chain's own tip,
  unspent outputs and parameters, with the supported version and a time not before the tip's, it
  is accepted by a submission, which reports exactly the fees the template announced.\<close>

theorem built_block_is_accepted:
  assumes "build_block_template (ch_tip c) timestamp pool (ch_utxos c) params = Inr t"
    and "bt_consensus params = ch_params c" and "bt_version params = kBlockVersion"
    and "hdr_timestamp (ch_tip c) \<le> timestamp"
  shows "\<exists>c' m'. submit_block (bt_block t) c m = (Inr (bt_total_fees t), c', m') \<and>
    ch_tip c' = blk_header (bt_block t)"
proof -
  from build_block_template_Inr [OF assms(1)] obtain reward txs s' where "hdr_height (ch_tip c) \<noteq> UINT32_MAX"
    and t: "bt_block t = candidate (ch_tip c) timestamp params reward txs"
    and "connect_block (bt_block t) (ch_utxos c) (ch_params c) = (Inr (bt_total_fees t), s')"
    using assms(2) by auto
  moreover from this have "links_to (ch_tip c) (blk_header (bt_block t))"
    using assms(3,4) u32_succ [of "hdr_height (ch_tip c)" "hdr_height (ch_tip c) + 1"]
    by (simp add: links_to_def t candidate_def Let_def word_le_nat_alt)
  ultimately show ?thesis by (simp add: submit_block_ok)
qed

lemma example_build:
  "build_block_template (blk_header example_genesis) 160 (new_mempool example_limits) empty_utxos example_template_params =
     Inr \<lparr>bt_block = example_block1, bt_total_fees = 0, bt_selected_count = 0\<rparr>"
proof -
  let ?tip = "blk_header example_genesis" and ?pool = "new_mempool example_limits" and ?p = example_template_params
  have sel: "initial_selection empty_utxos = selected ?tip ?pool empty_utxos ?p"
    by (simp add: std_sort_def selected_def entries_by_feerate_def new_mempool_def)
  have "build_block_template ?tip 160 ?pool empty_utxos ?p =
      Inr \<lparr>bt_block = candidate ?tip 160 ?p (block_subsidy (bt_consensus ?p) + sel_fees (initial_selection empty_utxos))
             (sel_txs (initial_selection empty_utxos)),
           bt_total_fees = sel_fees (initial_selection empty_utxos),
           bt_selected_count = sel_count (initial_selection empty_utxos)\<rparr>"
  proof (rule build_block_template_candidate [OF new_mempool_ok utxo_ok_empty _ _ _ _ _ sel])
    show "coinbase_fresh (hdr_height ?tip + 1) (bt_coinbase_recipient ?p) ?pool empty_utxos"
      by (simp add: coinbase_fresh_def new_mempool_def utxo_view_def empty_utxos_def)
  qed (simp_all add: example_genesis_def example_template_params_def example_params_def utxo_total_def empty_utxos_def)
  then show ?thesis
    using example_candidate by (simp add: initial_selection_def example_template_params_def example_params_def)
qed

theorem built_block_is_accepted_witness:
  "\<exists>c' m'. submit_block example_block1 example_chain0 None = (Inr 0, c', m') \<and> ch_tip c' = blk_header example_block1"
proof -
  have "build_block_template (ch_tip example_chain0) 160 (new_mempool example_limits) (ch_utxos example_chain0)
      example_template_params = Inr \<lparr>bt_block = example_block1, bt_total_fees = 0, bt_selected_count = 0\<rparr>"
    using example_build by (simp add: example_chain0_def)
  from built_block_is_accepted [OF this] show ?thesis
    by (simp add: example_chain0_def example_template_params_def example_genesis_def kBlockVersion_def)
qed



end
