(* ===== verification/P2p_Message.thy ===== *)
theory P2p_Message
  imports Block
begin

text \<open>
  \<^verbatim>\<open>net/p2p_message.hpp\<close> and \<^verbatim>\<open>src/net/p2p_message.cpp\<close>: the envelope every message between
  nodes travels in, with its network magic, version, type, length and checksum.
\<close>

section \<open>Operations\<close>

definition kNetworkMagic :: u32 where "kNetworkMagic = 0xBC173C01"

definition kMaxP2pPayloadBytes :: u32 where "kMaxP2pPayloadBytes = push_bit 20 1"

definition kP2pEnvelopeOverhead :: nat where "kP2pEnvelopeOverhead = 4 + 4 + 2 + 4 + 4"

datatype P2pMessageType =
  kHandshake | kPing | kPong | kPeerInfo | kTxAnnounce | kTxRequest | kTxResponse |
  kBlockAnnounce | kBlockRequest | kBlockResponse | kReject

text \<open>The underlying values of the enumeration, and which of the 16-bit values are known.\<close>

fun p2p_type_value :: "P2pMessageType \<Rightarrow> u16" where
  "p2p_type_value kHandshake = 1"
| "p2p_type_value kPing = 2"
| "p2p_type_value kPong = 3"
| "p2p_type_value kPeerInfo = 4"
| "p2p_type_value kTxAnnounce = 5"
| "p2p_type_value kTxRequest = 6"
| "p2p_type_value kTxResponse = 7"
| "p2p_type_value kBlockAnnounce = 8"
| "p2p_type_value kBlockRequest = 9"
| "p2p_type_value kBlockResponse = 10"
| "p2p_type_value kReject = 11"

definition known_p2p_message_type :: "u16 \<Rightarrow> P2pMessageType option" where
  "known_p2p_message_type raw =
     find (\<lambda>type. p2p_type_value type = raw)
       [kHandshake, kPing, kPong, kPeerInfo, kTxAnnounce, kTxRequest, kTxResponse,
        kBlockAnnounce, kBlockRequest, kBlockResponse, kReject]"

fun p2p_type_to_string :: "P2pMessageType \<Rightarrow> string" where
  "p2p_type_to_string kHandshake = ''Handshake''"
| "p2p_type_to_string kPing = ''Ping''"
| "p2p_type_to_string kPong = ''Pong''"
| "p2p_type_to_string kPeerInfo = ''PeerInfo''"
| "p2p_type_to_string kTxAnnounce = ''TxAnnounce''"
| "p2p_type_to_string kTxRequest = ''TxRequest''"
| "p2p_type_to_string kTxResponse = ''TxResponse''"
| "p2p_type_to_string kBlockAnnounce = ''BlockAnnounce''"
| "p2p_type_to_string kBlockRequest = ''BlockRequest''"
| "p2p_type_to_string kBlockResponse = ''BlockResponse''"
| "p2p_type_to_string kReject = ''Reject''"

record P2pMessage =
  msg_version :: u32
  msg_type :: P2pMessageType
  msg_payload :: bytes

definition checksum_of :: "bytes \<Rightarrow> u32" where
  "checksum_of data =
     (let digest = sha256 data
      in foldl (\<lambda>value i. value OR push_bit (8 * i) (ucast (digest ! i))) 0 [0..<4])"

definition write_header_body :: "P2pMessage \<Rightarrow> ByteWriter \<Rightarrow> ByteWriter" where
  "write_header_body message writer =
     (let writer = put_u32 kNetworkMagic writer;
          writer = put_u32 (msg_version message) writer;
          writer = put_u16 (p2p_type_value (msg_type message)) writer;
          writer = put_u32 (of_nat (length (msg_payload message))) writer
      in if msg_payload message \<noteq> [] then put_bytes (msg_payload message) writer else writer)"

definition parse_message_type :: "u16 \<Rightarrow> P2pMessageType Result" where
  "parse_message_type raw =
     (case known_p2p_message_type raw of
        None \<Rightarrow> make_error kInvalidMessage (''unknown P2P message type: '' @ to_string_nat (unat raw))
      | Some type \<Rightarrow> Inr type)"

definition p2p_to_bytes :: "P2pMessage \<Rightarrow> bytes" where
  "p2p_to_bytes message =
     (let writer = write_header_body message new_writer
      in buffer (put_u32 (checksum_of (buffer writer)) writer))"

definition p2p_deserialize :: "bytes \<Rightarrow> P2pMessage Result" where
  "p2p_deserialize wire =
     (if length wire < kP2pEnvelopeOverhead then make_error kParseError ''P2P message too short''
      else
        bindR (get_u32 (reader_of wire)) (\<lambda>(magic, reader).
        if magic \<noteq> kNetworkMagic then make_error kInvalidMessage ''unexpected network magic''
        else bindR (get_u32 reader) (\<lambda>(version, reader).
        if version \<noteq> kProtocolVersion then make_error kUnsupportedVersion ''unsupported P2P protocol version''
        else bindR (get_u16 reader) (\<lambda>(type_raw, reader).
        bindR (parse_message_type type_raw) (\<lambda>type.
        bindR (get_length kMaxP2pPayloadBytes reader) (\<lambda>(payload_len, reader).
        bindR (if payload_len > 0 then get_bytes (unat payload_len) reader else Inr ([], reader))
          (\<lambda>(payload, reader).
        bindR (get_u32 reader) (\<lambda>(checksum, reader).
        bindR (expect_end reader) (\<lambda>_.
        if checksum \<noteq> checksum_of (take (length wire - 4) wire)
        then make_error kInvalidMessage ''P2P message checksum mismatch''
        else Inr \<lparr>msg_version = version, msg_type = type, msg_payload = payload\<rparr>)))))))))"

section \<open>The envelope\<close>

definition message_ok :: "P2pMessage \<Rightarrow> bool" where
  "message_ok m \<longleftrightarrow> msg_version m = kProtocolVersion \<and> length (msg_payload m) \<le> 1048576"

definition enc_message_body :: "P2pMessage \<Rightarrow> bytes" where
  "enc_message_body m = enc_u32 kNetworkMagic @ enc_u32 (msg_version m) @
     enc_u16 (p2p_type_value (msg_type m)) @ enc_var_bytes (msg_payload m)"

lemma known_p2p_message_type_iff: "known_p2p_message_type raw = Some t \<longleftrightarrow> p2p_type_value t = raw"
  by (cases t) (auto simp: known_p2p_message_type_def)

lemma parse_message_type_iff [result_simps]: "parse_message_type raw = Inr t \<longleftrightarrow> raw = p2p_type_value t"
  using known_p2p_message_type_iff [of raw t] by (auto simp: parse_message_type_def split: option.splits)

lemma p2p_to_bytes_eq: "p2p_to_bytes m = enc_message_body m @ enc_u32 (checksum_of (enc_message_body m))"
  by (simp add: p2p_to_bytes_def write_header_body_def enc_message_body_def enc_var_bytes_def Let_def wire_simps)

lemma length_message_body [simp]: "length (enc_message_body m) = 14 + length (msg_payload m)"
  by (simp add: enc_message_body_def)

text \<open>Reading a payload is reading a length-prefixed blob: the branch on the empty payload changes nothing.\<close>

lemma get_payload_eq:
  "bindR (get_length m r) (\<lambda>(n, r). bindR (if n > 0 then get_bytes (unat n) r else Inr ([], r)) k) =
     bindR (get_var_bytes m r) k"
proof (cases "get_length m r")
  case (Inr p)
  obtain n r' where p: "p = (n, r')" by fastforce
  have "get_bytes 0 r' = Inr ([], r')" by (simp add: bytes_codec.get_iff)
  then show ?thesis using Inr by (cases "n = 0") (simp_all add: get_var_bytes_def p word_gt_0)
qed (simp add: get_var_bytes_def)

lemma payload_limit: "unat kMaxP2pPayloadBytes = 1048576"
  by (simp add: kMaxP2pPayloadBytes_def)

lemma p2p_deserialize_Inr:
  "p2p_deserialize wire = Inr m \<longleftrightarrow> kP2pEnvelopeOverhead \<le> length wire \<and> message_ok m \<and>
     (\<exists>r c r'. consumes (reader_of wire) (enc_message_body m) r \<and> consumes r (enc_u32 c) r' \<and> at_end r' \<and>
        c = checksum_of (take (length wire - 4) wire))"
proof -
  have "p2p_deserialize wire = Inr m \<longleftrightarrow> kP2pEnvelopeOverhead \<le> length wire \<and>
      (\<exists>r1 r2 r3 r4 c r'. consumes (reader_of wire) (enc_u32 kNetworkMagic) r1 \<and>
        consumes r1 (enc_u32 kProtocolVersion) r2 \<and> consumes r2 (enc_u16 (p2p_type_value (msg_type m))) r3 \<and>
        length (msg_payload m) \<le> 1048576 \<and> consumes r3 (enc_var_bytes (msg_payload m)) r4 \<and>
        consumes r4 (enc_u32 c) r' \<and> at_end r' \<and> c = checksum_of (take (length wire - 4) wire) \<and>
        msg_version m = kProtocolVersion)"
    unfolding p2p_deserialize_def get_payload_eq
    by (cases m) (auto simp: result_simps codec_iffs payload_limit not_less; blast)
  then show ?thesis
    unfolding message_ok_def enc_message_body_def consumes_append by (auto; blast)
qed

lemma p2p_deserialize_to_bytes: "p2p_deserialize wire = Inr m \<longleftrightarrow> message_ok m \<and> wire = p2p_to_bytes m"
proof -
  let ?c = "checksum_of (take (length wire - 4) wire)"
  have "(\<exists>r c r'. consumes (reader_of wire) (enc_message_body m) r \<and> consumes r (enc_u32 c) r' \<and> at_end r' \<and> c = ?c) \<longleftrightarrow>
      (\<exists>r'. consumes (reader_of wire) (enc_message_body m @ enc_u32 ?c) r' \<and> at_end r')"
    by (auto simp: consumes_append)
  also have "\<dots> \<longleftrightarrow> wire = enc_message_body m @ enc_u32 ?c" by (rule consumes_all_iff)
  also have "\<dots> \<longleftrightarrow> wire = p2p_to_bytes m"
  proof
    assume w: "wire = enc_message_body m @ enc_u32 ?c"
    then have "take (length wire - 4) wire = enc_message_body m" by (metis append_eq_conv_conj length_append length_enc(2) add_diff_cancel_right')
    with w show "wire = p2p_to_bytes m" by (simp add: p2p_to_bytes_eq)
  qed (simp add: p2p_to_bytes_eq)
  finally have "p2p_deserialize wire = Inr m \<longleftrightarrow>
      kP2pEnvelopeOverhead \<le> length wire \<and> message_ok m \<and> wire = p2p_to_bytes m"
    by (simp only: p2p_deserialize_Inr)
  moreover have "kP2pEnvelopeOverhead \<le> length (p2p_to_bytes m)"
    by (simp add: p2p_to_bytes_eq kP2pEnvelopeOverhead_def)
  ultimately show ?thesis by auto
qed

text \<open>The codes with which parsing a message can fail.\<close>

abbreviation message_error :: "'a Result \<Rightarrow> bool" where
  "message_error \<equiv> fails_with {kParseError, kInvalidMessage, kUnsupportedVersion, kResourceLimitExceeded}"

lemma reader_message_error: "reader_error r \<Longrightarrow> message_error r"
  by (rule fails_with_mono) auto

lemma p2p_deserialize_code [simp]: "message_error (p2p_deserialize wire)"
  unfolding p2p_deserialize_def get_payload_eq
  by (auto simp: parse_message_type_def reader_message_error split: prod.splits option.splits
      intro!: fails_with_bindR)

section \<open>Properties\<close>

text \<open>C30. A wire message is accepted exactly when it is the encoding, checksum included, of a message
  of the supported version with a payload of at most one mebibyte, and it is decoded to that
  message. Nothing else is accepted: not a wrong magic, an unknown type, a missing or extra byte,
  or a body that does not match its checksum.\<close>

theorem p2p_deserialize_iff:
  "p2p_deserialize wire = Inr m \<longleftrightarrow>
     msg_version m = kProtocolVersion \<and> length (msg_payload m) \<le> unat kMaxP2pPayloadBytes \<and>
     wire = p2p_to_bytes m"
  by (simp add: p2p_deserialize_to_bytes message_ok_def payload_limit)

end
