(* ===== verification/P2p_Payloads.thy ===== *)
theory P2p_Payloads
  imports P2p_Message
begin

text \<open>
  \<^verbatim>\<open>net/p2p_payloads.hpp\<close> and \<^verbatim>\<open>src/net/p2p_payloads.cpp\<close>: the typed payloads. Each kind of message
  has four functions, to serialize and deserialize the payload and to wrap it in and take it out
  of an envelope; the locale \<open>message_kind\<close> is their contract. A \<^verbatim>\<open>std::string\<close> travels as the
  bytes of its characters.
\<close>

section \<open>Fields\<close>

definition kMaxNodeIdBytes :: u32 where "kMaxNodeIdBytes = 64"

definition kMaxRejectReasonBytes :: u32 where "kMaxRejectReasonBytes = 256"

definition string_bytes :: "string \<Rightarrow> bytes" where
  "string_bytes s = map (\<lambda>c. of_nat (of_char c)) s"

definition bytes_string :: "bytes \<Rightarrow> string" where
  "bytes_string bs = map (\<lambda>b. char_of (unat b)) bs"

definition put_node_id :: "string \<Rightarrow> ByteWriter \<Rightarrow> ByteWriter Result" where
  "put_node_id node_id writer =
     (if node_id = [] then make_error kInvalidMessage ''node_id must not be empty''
      else if length node_id > unat kMaxNodeIdBytes
      then make_error kInvalidMessage ''node_id exceeds maximum length''
      else Inr (put_var_bytes (string_bytes node_id) writer))"

definition get_node_id :: "string parser" where
  "get_node_id reader =
     bindR (get_var_bytes kMaxNodeIdBytes reader) (\<lambda>(raw, reader).
     if raw = [] then make_error kInvalidMessage ''node_id must not be empty''
     else Inr (bytes_string raw, reader))"

definition put_reason :: "string \<Rightarrow> ByteWriter \<Rightarrow> ByteWriter Result" where
  "put_reason reason writer =
     (if length reason > unat kMaxRejectReasonBytes
      then make_error kInvalidMessage ''reject reason exceeds maximum length''
      else Inr (put_var_bytes (string_bytes reason) writer))"

definition get_reason :: "string parser" where
  "get_reason reader =
     bindR (get_var_bytes kMaxRejectReasonBytes reader) (\<lambda>(raw, reader). Inr (bytes_string raw, reader))"

definition put_blob :: "bytes \<Rightarrow> u32 \<Rightarrow> string \<Rightarrow> ByteWriter \<Rightarrow> ByteWriter Result" where
  "put_blob bytes max_len label writer =
     (if bytes = [] then make_error kInvalidMessage (label @ '' must not be empty'')
      else if length bytes > unat max_len
      then make_error kInvalidMessage (label @ '' exceeds maximum encoded length'')
      else Inr (put_var_bytes bytes writer))"

definition get_blob :: "u32 \<Rightarrow> string \<Rightarrow> bytes parser" where
  "get_blob max_len label reader =
     bindR (get_var_bytes max_len reader) (\<lambda>(raw, reader).
     if raw = [] then make_error kInvalidMessage (label @ '' must not be empty'')
     else Inr (raw, reader))"

datatype RejectCode =
  RejectCode_kProtocolMismatch | RejectCode_kInvalidMessage | RejectCode_kDuplicate |
  RejectCode_kTooBusy | RejectCode_kInternal

fun reject_code_value :: "RejectCode \<Rightarrow> u16" where
  "reject_code_value RejectCode_kProtocolMismatch = 1"
| "reject_code_value RejectCode_kInvalidMessage = 2"
| "reject_code_value RejectCode_kDuplicate = 3"
| "reject_code_value RejectCode_kTooBusy = 4"
| "reject_code_value RejectCode_kInternal = 5"

definition parse_reject_code :: "u16 \<Rightarrow> RejectCode Result" where
  "parse_reject_code raw =
     (case find (\<lambda>code. reject_code_value code = raw)
             [RejectCode_kProtocolMismatch, RejectCode_kInvalidMessage, RejectCode_kDuplicate,
              RejectCode_kTooBusy, RejectCode_kInternal] of
        Some code \<Rightarrow> Inr code
      | None \<Rightarrow> make_error kInvalidMessage (''unknown reject code: '' @ to_string_nat (unat raw)))"

fun reject_code_to_string :: "RejectCode \<Rightarrow> string" where
  "reject_code_to_string RejectCode_kProtocolMismatch = ''ProtocolMismatch''"
| "reject_code_to_string RejectCode_kInvalidMessage = ''InvalidMessage''"
| "reject_code_to_string RejectCode_kDuplicate = ''Duplicate''"
| "reject_code_to_string RejectCode_kTooBusy = ''TooBusy''"
| "reject_code_to_string RejectCode_kInternal = ''Internal''"

definition expect_exact_size :: "bytes \<Rightarrow> nat \<Rightarrow> unit Result" where
  "expect_exact_size bytes expected =
     (if length bytes \<noteq> expected then make_error kInvalidMessage ''unexpected payload size'' else Inr ())"

definition wrong_message_type :: "'a Result" where
  "wrong_message_type = make_error kInvalidMessage ''unexpected P2P message type''"

section \<open>Handshake\<close>

record HandshakePayload =
  hs_network_magic :: u32
  hs_height :: u32
  hs_tip_hash :: Hash256
  hs_node_id :: string

definition serialize_handshake :: "HandshakePayload \<Rightarrow> bytes Result" where
  "serialize_handshake payload =
     (let writer = put_u32 (hs_network_magic payload) new_writer;
          writer = put_u32 (hs_height payload) writer;
          writer = put_hash (hs_tip_hash payload) writer
      in bindR (put_node_id (hs_node_id payload) writer) (\<lambda>writer. Inr (buffer writer)))"

definition deserialize_handshake :: "bytes \<Rightarrow> HandshakePayload Result" where
  "deserialize_handshake bytes =
     bindR (get_u32 (reader_of bytes)) (\<lambda>(magic, reader).
     if magic \<noteq> kNetworkMagic then make_error kInvalidMessage ''handshake network magic mismatch''
     else bindR (get_u32 reader) (\<lambda>(height, reader).
     bindR (get_hash reader) (\<lambda>(tip, reader).
     bindR (get_node_id reader) (\<lambda>(node_id, reader).
     bindR (expect_end reader) (\<lambda>_.
     Inr \<lparr>hs_network_magic = magic, hs_height = height, hs_tip_hash = tip, hs_node_id = node_id\<rparr>)))))"

definition make_handshake_message :: "HandshakePayload \<Rightarrow> P2pMessage Result" where
  "make_handshake_message payload =
     bindR (serialize_handshake payload) (\<lambda>bytes.
     Inr \<lparr>msg_version = kProtocolVersion, msg_type = kHandshake, msg_payload = bytes\<rparr>)"

definition parse_handshake_message :: "P2pMessage \<Rightarrow> HandshakePayload Result" where
  "parse_handshake_message message =
     (if msg_type message \<noteq> kHandshake then wrong_message_type
      else deserialize_handshake (msg_payload message))"

section \<open>Reject\<close>

record RejectPayload =
  rj_code :: RejectCode
  rj_reason :: string

definition serialize_reject :: "RejectPayload \<Rightarrow> bytes Result" where
  "serialize_reject payload =
     bindR (put_reason (rj_reason payload) (put_u16 (reject_code_value (rj_code payload)) new_writer))
       (\<lambda>writer. Inr (buffer writer))"

definition deserialize_reject :: "bytes \<Rightarrow> RejectPayload Result" where
  "deserialize_reject bytes =
     bindR (get_u16 (reader_of bytes)) (\<lambda>(code_raw, reader).
     bindR (parse_reject_code code_raw) (\<lambda>code.
     bindR (get_reason reader) (\<lambda>(reason, reader).
     bindR (expect_end reader) (\<lambda>_.
     Inr \<lparr>rj_code = code, rj_reason = reason\<rparr>))))"

definition make_reject_message :: "RejectPayload \<Rightarrow> P2pMessage Result" where
  "make_reject_message payload =
     bindR (serialize_reject payload) (\<lambda>bytes.
     Inr \<lparr>msg_version = kProtocolVersion, msg_type = kReject, msg_payload = bytes\<rparr>)"

definition parse_reject_message :: "P2pMessage \<Rightarrow> RejectPayload Result" where
  "parse_reject_message message =
     (if msg_type message \<noteq> kReject then wrong_message_type
      else deserialize_reject (msg_payload message))"

section \<open>Ping and pong\<close>

record PingPayload =
  nonce :: u64

type_synonym PongPayload = PingPayload

definition serialize_ping :: "PingPayload \<Rightarrow> bytes" where
  "serialize_ping payload = buffer (put_u64 (nonce payload) new_writer)"

definition deserialize_ping :: "bytes \<Rightarrow> PingPayload Result" where
  "deserialize_ping bytes =
     bindR (expect_exact_size bytes 8) (\<lambda>_.
     bindR (get_u64 (reader_of bytes)) (\<lambda>(nonce, reader).
     bindR (expect_end reader) (\<lambda>_. Inr \<lparr>nonce = nonce\<rparr>)))"

definition make_ping_message :: "PingPayload \<Rightarrow> P2pMessage Result" where
  "make_ping_message payload =
     Inr \<lparr>msg_version = kProtocolVersion, msg_type = kPing, msg_payload = serialize_ping payload\<rparr>"

definition parse_ping_message :: "P2pMessage \<Rightarrow> PingPayload Result" where
  "parse_ping_message message =
     (if msg_type message \<noteq> kPing then wrong_message_type
      else deserialize_ping (msg_payload message))"

definition serialize_pong :: "PongPayload \<Rightarrow> bytes" where
  "serialize_pong payload = serialize_ping payload"

definition deserialize_pong :: "bytes \<Rightarrow> PongPayload Result" where
  "deserialize_pong bytes = deserialize_ping bytes"

definition make_pong_message :: "PongPayload \<Rightarrow> P2pMessage Result" where
  "make_pong_message payload =
     Inr \<lparr>msg_version = kProtocolVersion, msg_type = kPong, msg_payload = serialize_pong payload\<rparr>"

definition parse_pong_message :: "P2pMessage \<Rightarrow> PongPayload Result" where
  "parse_pong_message message =
     (if msg_type message \<noteq> kPong then wrong_message_type
      else deserialize_pong (msg_payload message))"

section \<open>Transaction relay\<close>

record TxAnnouncePayload =
  tx_bytes :: bytes

definition serialize_tx_announce :: "TxAnnouncePayload \<Rightarrow> bytes Result" where
  "serialize_tx_announce payload =
     bindR (put_blob (tx_bytes payload) kMaxTransactionSizeBytes ''tx_bytes'' new_writer)
       (\<lambda>writer. Inr (buffer writer))"

definition deserialize_tx_announce :: "bytes \<Rightarrow> TxAnnouncePayload Result" where
  "deserialize_tx_announce bytes =
     bindR (get_blob kMaxTransactionSizeBytes ''tx_bytes'' (reader_of bytes)) (\<lambda>(raw, reader).
     bindR (expect_end reader) (\<lambda>_. Inr \<lparr>tx_bytes = raw\<rparr>))"

definition make_tx_announce_message :: "TxAnnouncePayload \<Rightarrow> P2pMessage Result" where
  "make_tx_announce_message payload =
     bindR (serialize_tx_announce payload) (\<lambda>body.
     Inr \<lparr>msg_version = kProtocolVersion, msg_type = kTxAnnounce, msg_payload = body\<rparr>)"

definition parse_tx_announce_message :: "P2pMessage \<Rightarrow> TxAnnouncePayload Result" where
  "parse_tx_announce_message message =
     (if msg_type message \<noteq> kTxAnnounce then wrong_message_type
      else deserialize_tx_announce (msg_payload message))"

section \<open>Block relay\<close>

record BlockAnnouncePayload =
  block_bytes :: bytes

definition serialize_block_announce :: "BlockAnnouncePayload \<Rightarrow> bytes Result" where
  "serialize_block_announce payload =
     bindR (put_blob (block_bytes payload) kMaxBlockSizeBytes ''block_bytes'' new_writer)
       (\<lambda>writer. Inr (buffer writer))"

definition deserialize_block_announce :: "bytes \<Rightarrow> BlockAnnouncePayload Result" where
  "deserialize_block_announce bytes =
     bindR (get_blob kMaxBlockSizeBytes ''block_bytes'' (reader_of bytes)) (\<lambda>(raw, reader).
     bindR (expect_end reader) (\<lambda>_. Inr \<lparr>block_bytes = raw\<rparr>))"

definition make_block_announce_message :: "BlockAnnouncePayload \<Rightarrow> P2pMessage Result" where
  "make_block_announce_message payload =
     bindR (serialize_block_announce payload) (\<lambda>body.
     Inr \<lparr>msg_version = kProtocolVersion, msg_type = kBlockAnnounce, msg_payload = body\<rparr>)"

definition parse_block_announce_message :: "P2pMessage \<Rightarrow> BlockAnnouncePayload Result" where
  "parse_block_announce_message message =
     (if msg_type message \<noteq> kBlockAnnounce then wrong_message_type
      else deserialize_block_announce (msg_payload message))"

record BlockRequestPayload =
  br_height :: u32

definition serialize_block_request :: "BlockRequestPayload \<Rightarrow> bytes" where
  "serialize_block_request payload = buffer (put_u32 (br_height payload) new_writer)"

definition deserialize_block_request :: "bytes \<Rightarrow> BlockRequestPayload Result" where
  "deserialize_block_request bytes =
     bindR (get_u32 (reader_of bytes)) (\<lambda>(height, reader).
     bindR (expect_end reader) (\<lambda>_. Inr \<lparr>br_height = height\<rparr>))"

definition make_block_request_message :: "BlockRequestPayload \<Rightarrow> P2pMessage Result" where
  "make_block_request_message payload =
     Inr \<lparr>msg_version = kProtocolVersion, msg_type = kBlockRequest, msg_payload = serialize_block_request payload\<rparr>"

definition parse_block_request_message :: "P2pMessage \<Rightarrow> BlockRequestPayload Result" where
  "parse_block_request_message message =
     (if msg_type message \<noteq> kBlockRequest then wrong_message_type
      else deserialize_block_request (msg_payload message))"

type_synonym BlockResponsePayload = BlockAnnouncePayload

definition serialize_block_response :: "BlockResponsePayload \<Rightarrow> bytes Result" where
  "serialize_block_response payload = serialize_block_announce payload"

definition deserialize_block_response :: "bytes \<Rightarrow> BlockResponsePayload Result" where
  "deserialize_block_response bytes = deserialize_block_announce bytes"

definition make_block_response_message :: "BlockResponsePayload \<Rightarrow> P2pMessage Result" where
  "make_block_response_message payload =
     bindR (serialize_block_response payload) (\<lambda>body.
     Inr \<lparr>msg_version = kProtocolVersion, msg_type = kBlockResponse, msg_payload = body\<rparr>)"

definition parse_block_response_message :: "P2pMessage \<Rightarrow> BlockResponsePayload Result" where
  "parse_block_response_message message =
     (if msg_type message \<noteq> kBlockResponse then wrong_message_type
      else deserialize_block_response (msg_payload message))"

section \<open>The contract of a message kind\<close>

locale message_kind =
  fixes ser :: "'p \<Rightarrow> bytes Result"
    and de :: "bytes \<Rightarrow> 'p Result"
    and make :: "'p \<Rightarrow> P2pMessage Result"
    and parse :: "P2pMessage \<Rightarrow> 'p Result"
    and kind :: P2pMessageType
    and ok :: "'p \<Rightarrow> bool"
  assumes de_iff: "de bs = Inr p \<longleftrightarrow> ok p \<and> ser p = Inr bs"
    and make_eq: "make p = bindR (ser p) (\<lambda>bs.
      Inr \<lparr>msg_version = kProtocolVersion, msg_type = kind, msg_payload = bs\<rparr>)"
    and parse_eq: "parse m = (if msg_type m \<noteq> kind then wrong_message_type else de (msg_payload m))"
begin

lemma parse_iff: "parse m = Inr p \<longleftrightarrow> msg_type m = kind \<and> ok p \<and> ser p = Inr (msg_payload m)"
  by (auto simp: parse_eq wrong_message_type_def de_iff)

lemma parse_make: "make p = Inr m \<Longrightarrow> ok p \<Longrightarrow> parse m = Inr p"
  by (auto simp: parse_iff make_eq result_simps)

text \<open>A message made from a payload is received as that payload.\<close>

lemma received:
  "make p = Inr m \<Longrightarrow> ok p \<Longrightarrow> length (msg_payload m) \<le> 1048576 \<Longrightarrow>
     bindR (p2p_deserialize (p2p_to_bytes m)) parse = Inr p"
proof -
  assume make: "make p = Inr m" and "ok p" and "length (msg_payload m) \<le> 1048576"
  then have "message_ok m" by (auto simp: message_ok_def make_eq result_simps)
  then have "p2p_deserialize (p2p_to_bytes m) = Inr m" by (simp add: p2p_deserialize_to_bytes)
  with parse_make [OF make \<open>ok p\<close>] show ?thesis by simp
qed

text \<open>What is received as a payload is, byte for byte, the message made from it.\<close>

lemma sent:
  "bindR (p2p_deserialize wire) parse = Inr p \<Longrightarrow> \<exists>m. make p = Inr m \<and> wire = p2p_to_bytes m"
proof -
  assume "bindR (p2p_deserialize wire) parse = Inr p"
  then obtain m where "message_ok m" "wire = p2p_to_bytes m" "msg_type m = kind" "ser p = Inr (msg_payload m)"
    by (auto simp: result_simps p2p_deserialize_to_bytes parse_iff)
  then show ?thesis by (cases m) (auto simp: make_eq message_ok_def)
qed

end

section \<open>Every kind keeps it\<close>

lemma byte_char: "(of_nat (of_char (char_of (unat b) :: char)) :: byte) = b"
proof -
  have "unat b < 256" using unsigned_less [of b, where 'a = nat] by simp
  then show ?thesis by simp
qed

lemma char_byte: "char_of (unat (of_nat (of_char c) :: byte)) = (c :: char)"
proof -
  have "of_char c < (256 :: nat)" by simp
  then show ?thesis by (simp add: unat_of_nat_less)
qed

lemma string_bytes_inverse [simp]: "bytes_string (string_bytes s) = s" "string_bytes (bytes_string bs) = bs"
  by (simp_all add: string_bytes_def bytes_string_def o_def byte_char char_byte del: of_char_of)

lemma length_string_bytes [simp]: "length (string_bytes s) = length s" "length (bytes_string bs) = length bs"
  by (simp_all add: string_bytes_def bytes_string_def)

lemma string_bytes_eq_iff: "bytes_string bs = s \<longleftrightarrow> bs = string_bytes s"
  by auto

interpretation node_id_codec: codec "\<lambda>s. enc_var_bytes (string_bytes s)" get_node_id
  "\<lambda>s. s \<noteq> [] \<and> length s \<le> 64"
proof unfold_locales
  fix r x r'
  have "x \<noteq> [] \<longleftrightarrow> string_bytes x \<noteq> []" by (simp add: string_bytes_def)
  then show "get_node_id r = Inr (x, r') \<longleftrightarrow>
      (x \<noteq> [] \<and> length x \<le> 64) \<and> consumes r (enc_var_bytes (string_bytes x)) r'"
    by (auto simp: get_node_id_def result_simps var_bytes_codec.get_iff string_bytes_eq_iff kMaxNodeIdBytes_def)
qed

interpretation reason_codec: codec "\<lambda>s. enc_var_bytes (string_bytes s)" get_reason "\<lambda>s. length s \<le> 256"
  by unfold_locales
    (auto simp: get_reason_def result_simps var_bytes_codec.get_iff string_bytes_eq_iff kMaxRejectReasonBytes_def)

interpretation blob_codec: codec enc_var_bytes "get_blob m label" "\<lambda>bs. bs \<noteq> [] \<and> length bs \<le> unat m" for m label
  by unfold_locales (auto simp: get_blob_def result_simps var_bytes_codec.get_iff)

lemma parse_reject_code_iff [result_simps]: "parse_reject_code raw = Inr c \<longleftrightarrow> raw = reject_code_value c"
  by (cases c) (auto simp: parse_reject_code_def)

lemma put_field_iff [result_simps]:
  "put_node_id s w = Inr w' \<longleftrightarrow> s \<noteq> [] \<and> length s \<le> 64 \<and> w' = put_var_bytes (string_bytes s) w"
  "put_reason s w = Inr w' \<longleftrightarrow> length s \<le> 256 \<and> w' = put_var_bytes (string_bytes s) w"
  "put_blob bs m label w = Inr w' \<longleftrightarrow> bs \<noteq> [] \<and> length bs \<le> unat m \<and> w' = put_var_bytes bs w"
  by (auto simp: put_node_id_def put_reason_def put_blob_def kMaxNodeIdBytes_def kMaxRejectReasonBytes_def)

definition handshake_ok :: "HandshakePayload \<Rightarrow> bool" where
  "handshake_ok p \<longleftrightarrow> hs_network_magic p = kNetworkMagic \<and> wf_hash (hs_tip_hash p)"

lemma deserialize_handshake_iff:
  "deserialize_handshake bs = Inr p \<longleftrightarrow> handshake_ok p \<and> serialize_handshake p = Inr bs"
proof -
  have "deserialize_handshake bs = Inr p \<longleftrightarrow> handshake_ok p \<and> hs_node_id p \<noteq> [] \<and> length (hs_node_id p) \<le> 64 \<and>
      (\<exists>r. consumes (reader_of bs) (enc_u32 kNetworkMagic @ enc_u32 (hs_height p) @ hs_tip_hash p @
        enc_var_bytes (string_bytes (hs_node_id p))) r \<and> at_end r)"
    by (cases p) (auto simp: deserialize_handshake_def result_simps codec_iffs node_id_codec.get_iff
        handshake_ok_def consumes_append; blast)
  then show ?thesis
    unfolding consumes_all_iff
    by (auto simp: serialize_handshake_def result_simps wire_simps handshake_ok_def)
qed

interpretation handshake_kind: message_kind serialize_handshake deserialize_handshake make_handshake_message
  parse_handshake_message kHandshake handshake_ok
  by unfold_locales
    (simp_all add: deserialize_handshake_iff make_handshake_message_def parse_handshake_message_def)

lemma deserialize_reject_iff: "deserialize_reject bs = Inr p \<longleftrightarrow> True \<and> serialize_reject p = Inr bs"
proof -
  have "deserialize_reject bs = Inr p \<longleftrightarrow> length (rj_reason p) \<le> 256 \<and>
      (\<exists>r. consumes (reader_of bs) (enc_u16 (reject_code_value (rj_code p)) @
        enc_var_bytes (string_bytes (rj_reason p))) r \<and> at_end r)"
    by (cases p) (auto simp: deserialize_reject_def result_simps codec_iffs reason_codec.get_iff consumes_append; blast)
  then show ?thesis
    unfolding consumes_all_iff by (auto simp: serialize_reject_def result_simps wire_simps)
qed

interpretation reject_kind: message_kind serialize_reject deserialize_reject make_reject_message
  parse_reject_message kReject "\<lambda>_. True"
  by unfold_locales
    (simp_all add: deserialize_reject_iff make_reject_message_def parse_reject_message_def)

lemma deserialize_ping_iff: "deserialize_ping bs = Inr p \<longleftrightarrow> serialize_ping p = bs"
proof -
  have "deserialize_ping bs = Inr p \<longleftrightarrow> length bs = 8 \<and>
      (\<exists>r. consumes (reader_of bs) (enc_u64 (nonce p)) r \<and> at_end r)"
    by (cases p) (auto simp: deserialize_ping_def expect_exact_size_def result_simps codec_iffs)
  then show ?thesis unfolding consumes_all_iff by (auto simp: serialize_ping_def wire_simps)
qed

interpretation ping_kind: message_kind "\<lambda>p. Inr (serialize_ping p)" deserialize_ping make_ping_message
  parse_ping_message kPing "\<lambda>_. True"
  by unfold_locales (simp_all add: deserialize_ping_iff make_ping_message_def parse_ping_message_def)

interpretation pong_kind: message_kind "\<lambda>p. Inr (serialize_pong p)" deserialize_pong make_pong_message
  parse_pong_message kPong "\<lambda>_. True"
  by unfold_locales (simp_all add: deserialize_ping_iff make_pong_message_def parse_pong_message_def
      serialize_pong_def deserialize_pong_def)

lemma deserialize_tx_announce_iff:
  "deserialize_tx_announce bs = Inr p \<longleftrightarrow> serialize_tx_announce p = Inr bs"
proof -
  have "deserialize_tx_announce bs = Inr p \<longleftrightarrow> tx_bytes p \<noteq> [] \<and>
      length (tx_bytes p) \<le> unat kMaxTransactionSizeBytes \<and>
      (\<exists>r. consumes (reader_of bs) (enc_var_bytes (tx_bytes p)) r \<and> at_end r)"
    by (cases p) (auto simp: deserialize_tx_announce_def result_simps blob_codec.get_iff)
  then show ?thesis
    unfolding consumes_all_iff by (auto simp: serialize_tx_announce_def result_simps wire_simps)
qed

interpretation tx_announce_kind: message_kind serialize_tx_announce deserialize_tx_announce
  make_tx_announce_message parse_tx_announce_message kTxAnnounce "\<lambda>_. True"
  by unfold_locales
    (simp_all add: deserialize_tx_announce_iff make_tx_announce_message_def parse_tx_announce_message_def)

lemma deserialize_block_announce_iff:
  "deserialize_block_announce bs = Inr p \<longleftrightarrow> serialize_block_announce p = Inr bs"
proof -
  have "deserialize_block_announce bs = Inr p \<longleftrightarrow> block_bytes p \<noteq> [] \<and>
      length (block_bytes p) \<le> unat kMaxBlockSizeBytes \<and>
      (\<exists>r. consumes (reader_of bs) (enc_var_bytes (block_bytes p)) r \<and> at_end r)"
    by (cases p) (auto simp: deserialize_block_announce_def result_simps blob_codec.get_iff)
  then show ?thesis
    unfolding consumes_all_iff by (auto simp: serialize_block_announce_def result_simps wire_simps)
qed

interpretation block_announce_kind: message_kind serialize_block_announce deserialize_block_announce
  make_block_announce_message parse_block_announce_message kBlockAnnounce "\<lambda>_. True"
  by unfold_locales
    (simp_all add: deserialize_block_announce_iff make_block_announce_message_def
      parse_block_announce_message_def)

interpretation block_response_kind: message_kind serialize_block_response deserialize_block_response
  make_block_response_message parse_block_response_message kBlockResponse "\<lambda>_. True"
  by unfold_locales
    (simp_all add: deserialize_block_announce_iff make_block_response_message_def
      parse_block_response_message_def serialize_block_response_def deserialize_block_response_def)

lemma deserialize_block_request_iff: "deserialize_block_request bs = Inr p \<longleftrightarrow> serialize_block_request p = bs"
proof -
  have "deserialize_block_request bs = Inr p \<longleftrightarrow>
      (\<exists>r. consumes (reader_of bs) (enc_u32 (br_height p)) r \<and> at_end r)"
    by (cases p) (auto simp: deserialize_block_request_def result_simps codec_iffs)
  then show ?thesis unfolding consumes_all_iff by (auto simp: serialize_block_request_def wire_simps)
qed

interpretation block_request_kind: message_kind "\<lambda>p. Inr (serialize_block_request p)" deserialize_block_request
  make_block_request_message parse_block_request_message kBlockRequest "\<lambda>_. True"
  by unfold_locales
    (simp_all add: deserialize_block_request_iff make_block_request_message_def parse_block_request_message_def)

section \<open>Properties\<close>

text \<open>The bytes received as a handshake are exactly the bytes sent for it. A wire message is taken
  as a handshake with given contents precisely when the contents carry this network's magic and
  the message is the one a node makes from them; a node id is never empty or longer than 64 bytes.\<close>

lemma handshake_on_the_wire:
  "bindR (p2p_deserialize wire) parse_handshake_message = Inr p \<longleftrightarrow>
     handshake_ok p \<and> hs_node_id p \<noteq> [] \<and> length (hs_node_id p) \<le> 64 \<and>
     (\<exists>m. make_handshake_message p = Inr m \<and> wire = p2p_to_bytes m)"
proof
  assume a: "bindR (p2p_deserialize wire) parse_handshake_message = Inr p"
  then obtain m where "parse_handshake_message m = Inr p" by (auto simp: result_simps)
  then have "handshake_ok p" "hs_node_id p \<noteq> [] \<and> length (hs_node_id p) \<le> 64"
    by (auto simp: handshake_kind.parse_iff serialize_handshake_def result_simps Let_def)
  with handshake_kind.sent [OF a] show "handshake_ok p \<and> hs_node_id p \<noteq> [] \<and> length (hs_node_id p) \<le> 64 \<and>
     (\<exists>m. make_handshake_message p = Inr m \<and> wire = p2p_to_bytes m)" by blast
next
  assume "handshake_ok p \<and> hs_node_id p \<noteq> [] \<and> length (hs_node_id p) \<le> 64 \<and>
     (\<exists>m. make_handshake_message p = Inr m \<and> wire = p2p_to_bytes m)"
  then obtain m where ok: "handshake_ok p" and m: "make_handshake_message p = Inr m" "wire = p2p_to_bytes m" by blast
  then have "length (msg_payload m) \<le> 1048576"
    by (auto simp: make_handshake_message_def serialize_handshake_def result_simps wire_simps handshake_ok_def
        wf_hash_def)
  with handshake_kind.received [OF m(1) ok] m(2) show "bindR (p2p_deserialize wire) parse_handshake_message = Inr p"
    by simp
qed

lemma make_block_announce_iff:
  "make_block_announce_message \<lparr>block_bytes = bs\<rparr> = Inr m \<longleftrightarrow> bs \<noteq> [] \<and> length bs \<le> 1048576 \<and>
     m = \<lparr>msg_version = kProtocolVersion, msg_type = kBlockAnnounce, msg_payload = enc_var_bytes bs\<rparr>"
  by (auto simp: make_block_announce_message_def serialize_block_announce_def result_simps wire_simps
      kMaxBlockSizeBytes_def)

lemma block_bytes_nonempty [simp]: "enc_block b \<noteq> []"
  by (simp add: enc_block_def enc_header_def enc_u32_def)

text \<open>A block a node announces arrives. If its encoding is at most four bytes short of the maximum
  block size, announcing it succeeds, and the receiver of the wire message recovers the very same
  block.\<close>

lemma announced_block_arrives:
  assumes "encodable_block b" and "length (block_to_bytes b) \<le> 1048572"
  shows "\<exists>m. make_block_announce_message \<lparr>block_bytes = block_to_bytes b\<rparr> = Inr m \<and>
    bindR (bindR (p2p_deserialize (p2p_to_bytes m)) parse_block_announce_message)
      (\<lambda>p. parse_all block_deserialize (block_bytes p)) = Inr b"
proof -
  let ?p = "\<lparr>block_bytes = block_to_bytes b\<rparr>"
  obtain m where m: "make_block_announce_message ?p = Inr m" "length (msg_payload m) \<le> 1048576"
    using assms(2) by (simp add: make_block_announce_iff wire_simps)
  have "parse_all block_deserialize (block_to_bytes b) = Inr b"
    using assms(1) by (simp add: wire_simps block_codec.parse_all_enc)
  then show ?thesis using block_announce_kind.received [OF m(1) _ m(2)] m(1) by auto
qed

definition empty_block :: Block where
  "empty_block = \<lparr>blk_header = \<lparr>hdr_version = 1, hdr_prev_block = zero_hash, hdr_merkle_root = zero_hash,
     hdr_timestamp = 0, hdr_height = 0\<rparr>, blk_transactions = []\<rparr>"

lemma empty_block_ok: "encodable_block empty_block" "length (block_to_bytes empty_block) = 84"
  using length_header_bytes [of "blk_header empty_block"]
  by (simp_all add: empty_block_def encodable_block_def wf_header_def wire_simps enc_block_def enc_counted_def)

text \<open>The largest blocks cannot be relayed. A block encoding within the last four bytes below the
  maximum block size is accepted for announcement, but every receiver refuses the message, because
  the length prefix pushes the payload over the maximum payload size.\<close>

lemma largest_blocks_not_relayed:
  assumes "1048572 < length bs" and "length bs \<le> unat kMaxBlockSizeBytes"
  shows "\<exists>m. make_block_announce_message \<lparr>block_bytes = bs\<rparr> = Inr m \<and> \<not> is_ok (p2p_deserialize (p2p_to_bytes m))"
proof -
  let ?m = "\<lparr>msg_version = kProtocolVersion, msg_type = kBlockAnnounce, msg_payload = enc_var_bytes bs\<rparr>"
  have "make_block_announce_message \<lparr>block_bytes = bs\<rparr> = Inr ?m"
    using assms by (auto simp: make_block_announce_iff kMaxBlockSizeBytes_def)
  moreover have "p2p_deserialize (p2p_to_bytes ?m) \<noteq> Inr m'" for m'
  proof
    assume "p2p_deserialize (p2p_to_bytes ?m) = Inr m'"
    then have "message_ok m'" "p2p_to_bytes ?m = p2p_to_bytes m'" by (simp_all add: p2p_deserialize_to_bytes)
    then have "length (p2p_to_bytes ?m) = length (p2p_to_bytes m')" by simp
    with \<open>message_ok m'\<close> assms(1) show False by (simp add: p2p_to_bytes_eq message_ok_def)
  qed
  ultimately show ?thesis by (auto simp: is_ok_iff)
qed

end
