(* ===== verification/Char_Conv.thy ===== *)
theory Char_Conv
  imports Prelude
begin

text \<open>
  What the node uses of the standard library on text: \<^verbatim>\<open>std::from_chars\<close> for unsigned integers,
  \<^verbatim>\<open>std::isdigit\<close> and \<^verbatim>\<open>std::isspace\<close> in the C locale, and the searches \<^verbatim>\<open>rfind\<close> and \<^verbatim>\<open>find\<close>
  of strings.
\<close>

section \<open>Definitions\<close>

definition isdigit :: "char \<Rightarrow> bool" where
  "isdigit c \<longleftrightarrow> 48 \<le> (of_char c :: nat) \<and> (of_char c :: nat) \<le> 57"

definition isspace :: "char \<Rightarrow> bool" where
  "isspace c \<longleftrightarrow> (of_char c :: nat) \<in> {9, 10, 11, 12, 13, 32}"

definition digit_value :: "char \<Rightarrow> nat" where
  "digit_value c = of_char c - 48"

definition decimal_value :: "string \<Rightarrow> nat" where
  "decimal_value ds = foldl (\<lambda>v c. 10 * v + digit_value c) 0 ds"

text \<open>
  The value and the unread rest, for a type of \<open>w\<close> bits; \<^verbatim>\<open>None\<close> when there is no digit or the
  value is out of range. No sign and no white space is accepted.
\<close>

definition from_chars :: "nat \<Rightarrow> string \<Rightarrow> (nat \<times> string) option" where
  "from_chars w s =
     (let ds = takeWhile isdigit s
      in if ds = [] \<or> decimal_value ds \<ge> 2 ^ w then None
         else Some (decimal_value ds, dropWhile isdigit s))"

definition rfind :: "char \<Rightarrow> string \<Rightarrow> nat option" where
  "rfind c s = find (\<lambda>i. s ! i = c) (rev [0..<length s])"

definition contains_substring :: "string \<Rightarrow> string \<Rightarrow> bool" where
  "contains_substring pat s \<longleftrightarrow> list_ex (\<lambda>i. take (length pat) (drop i s) = pat) [0..<Suc (length s)]"

section \<open>Lemmas\<close>

lemma decimal_value_snoc [simp]: "decimal_value (ds @ [c]) = 10 * decimal_value ds + digit_value c"
  by (simp add: decimal_value_def)

lemma from_chars_all:
  "from_chars w s = Some (v, []) \<longleftrightarrow> s \<noteq> [] \<and> list_all isdigit s \<and> v = decimal_value s \<and> v < 2 ^ w"
proof (cases "list_all isdigit s")
  case True
  then have tw: "takeWhile isdigit s = s" and dw: "dropWhile isdigit s = []" by (simp_all add: list_all_iff)
  show ?thesis unfolding from_chars_def Let_def tw dw using True by auto
next
  case False
  then have "dropWhile isdigit s \<noteq> []" by (simp add: list_all_iff)
  with False show ?thesis by (auto simp: from_chars_def Let_def)
qed

lemma of_digit_char: "d < 10 \<Longrightarrow> (of_char (digit_char d) :: nat) = 48 + d"
  by (simp add: digit_char_def)

lemma digit_char_simps: "d < 10 \<Longrightarrow> isdigit (digit_char d)" "d < 10 \<Longrightarrow> digit_value (digit_char d) = d"
  by (simp_all add: isdigit_def digit_value_def of_digit_char)

lemma to_string_nat_digits:
  "list_all isdigit (to_string_nat n) \<and> decimal_value (to_string_nat n) = n"
proof (induction n rule: less_induct)
  case (less n)
  show ?case
  proof (cases "n < 10")
    case True
    then show ?thesis
      by (simp add: to_string_nat.simps [of n] digit_char_simps decimal_value_def)
  next
    case False
    then have "n div 10 < n" by simp
    from less.IH [OF this] show ?thesis
      using False by (simp add: to_string_nat.simps [of n] digit_char_simps)
  qed
qed

lemma from_chars_to_string: "n < 2 ^ w \<Longrightarrow> from_chars w (to_string_nat n) = Some (n, [])"
  by (simp add: from_chars_all to_string_nat_not_empty to_string_nat_digits)

lemma rfind_snoc: "rfind c (s @ [x]) = (if x = c then Some (length s) else rfind c s)"
  by (auto simp: rfind_def nth_append intro!: find_cong)

lemma rfind_Some: "rfind c s = Some i \<longleftrightarrow> i < length s \<and> s ! i = c \<and> c \<notin> set (drop (Suc i) s)"
proof (induction s rule: rev_induct)
  case Nil
  show ?case by (simp add: rfind_def)
next
  case (snoc x s)
  show ?case
  proof (cases "i < length s")
    case True
    then show ?thesis using snoc by (auto simp: rfind_snoc nth_append)
  next
    case False
    then show ?thesis using snoc by (auto simp: rfind_snoc nth_append)
  qed
qed

lemma rfind_None: "rfind c s = None \<longleftrightarrow> c \<notin> set s"
  by (auto simp: rfind_def find_None_iff in_set_conv_nth)

lemma contains_substringI [intro]: "contains_substring pat (xs @ pat @ ys)"
  by (auto simp: contains_substring_def list_ex_iff intro!: bexI [of _ "length xs"])

end
