(* ===== verification/Socket_IO.thy ===== *)
theory Socket_IO
  imports P2p_Payloads Char_Conv
begin

text \<open>
  \<^verbatim>\<open>net/socket_io.hpp\<close> and \<^verbatim>\<open>src/net/socket_io.cpp\<close>: endpoints and length-prefixed frames over a
  TCP connection. The system calls \<^verbatim>\<open>send\<close> and \<^verbatim>\<open>recv\<close> are arguments; a call of \<^verbatim>\<open>send\<close> returns the
  number of bytes taken (or a value that is not positive), one of \<^verbatim>\<open>recv\<close> the bytes delivered (or
  none), and both the value of \<^verbatim>\<open>errno\<close> and the connection afterwards. The locale \<open>byte_stream\<close>
  states what a connected stream socket documents of them; it is interpreted on a connection that
  may cut every transfer into chunks of any size.
\<close>

section \<open>Endpoints\<close>

record TcpEndpoint =
  ep_host :: string
  ep_port :: u16

definition parse_tcp_endpoint :: "string \<Rightarrow> TcpEndpoint Result" where
  "parse_tcp_endpoint text =
     (case rfind CHR '':'' text of
        None \<Rightarrow> make_error kInvalidConfig ''peer must be host:port''
      | Some colon \<Rightarrow>
          if colon = 0 \<or> colon + 1 \<ge> length text then make_error kInvalidConfig ''peer must be host:port''
          else case from_chars 16 (drop (colon + 1) text) of
                 None \<Rightarrow> make_error kInvalidConfig ''invalid peer port''
               | Some (port, rest) \<Rightarrow>
                   if rest \<noteq> [] then make_error kInvalidConfig ''invalid peer port''
                   else if (of_nat port :: u16) = 0 then make_error kInvalidConfig ''peer port must not be zero''
                   else Inr \<lparr>ep_host = take colon text, ep_port = of_nat port\<rparr>)"

section \<open>Sockets\<close>

type_synonym 'os send_call = "'os \<Rightarrow> bytes \<Rightarrow> int \<times> nat \<times> 'os"
type_synonym 'os recv_call = "'os \<Rightarrow> nat \<Rightarrow> bytes \<times> nat \<times> 'os"

definition kMaxP2pFrameBytes :: u32 where
  "kMaxP2pFrameBytes = kMaxP2pPayloadBytes + of_nat kP2pEnvelopeOverhead"

definition socket_error :: "string \<Rightarrow> nat \<Rightarrow> Error" where
  "socket_error ctxt errno =
     \<lparr>err_code = kPeerMisbehavior, err_message = ctxt @ '' (errno='' @ to_string_nat errno @ '')''\<rparr>"

definition recv_closed :: "Error \<Rightarrow> bool" where
  "recv_closed err \<longleftrightarrow>
     err_code err = kPeerMisbehavior \<and> contains_substring ''socket recv failed'' (err_message err)"

function send_all_native :: "'os send_call \<Rightarrow> bytes \<Rightarrow> 'os \<Rightarrow> unit Result \<times> 'os" where
  "send_all_native send data os =
     (if data = [] then (Inr (), os)
      else case send os data of
             (rc, errno, os) \<Rightarrow>
               if rc \<le> 0 then (Inl (socket_error ''socket send failed'' errno), os)
               else send_all_native send (drop (nat rc) data) os)"
  by pat_completeness auto
termination
  by (relation "measure (\<lambda>(send, data, os). length data)") auto

function recv_all_native :: "'os recv_call \<Rightarrow> nat \<Rightarrow> 'os \<Rightarrow> bytes Result \<times> 'os" where
  "recv_all_native recv wanted os =
     (if wanted = 0 then (Inr [], os)
      else case recv os wanted of
             (chunk, errno, os) \<Rightarrow>
               if chunk = [] then (Inl (socket_error ''socket recv failed'' errno), os)
               else case recv_all_native recv (wanted - length chunk) os of
                      (Inl e, os) \<Rightarrow> (Inl e, os)
                    | (Inr rest, os) \<Rightarrow> (Inr (chunk @ rest), os))"
  by pat_completeness auto
termination
  by (relation "measure (\<lambda>(recv, wanted, os). wanted)") auto

declare send_all_native.simps [simp del] recv_all_native.simps [simp del]

record 'os TcpSocket =
  sock_handle :: int
  sock_os :: 'os

definition sock_valid :: "('os, 'a) TcpSocket_scheme \<Rightarrow> bool" where
  "sock_valid socket \<longleftrightarrow> sock_handle socket \<ge> 0 \<and> sock_handle socket \<noteq> -1"

definition send_raw :: "'os send_call \<Rightarrow> bytes \<Rightarrow> 'os TcpSocket \<Rightarrow> unit Result \<times> 'os TcpSocket" where
  "send_raw send data socket =
     (if \<not> sock_valid socket then (make_error kPeerMisbehavior ''socket is not connected'', socket)
      else if data = [] then (Inr (), socket)
      else case send_all_native send data (sock_os socket) of (r, os) \<Rightarrow> (r, socket\<lparr>sock_os := os\<rparr>))"

definition send_frame_length_prefix :: "'os send_call \<Rightarrow> u32 \<Rightarrow> 'os TcpSocket \<Rightarrow> unit Result \<times> 'os TcpSocket" where
  "send_frame_length_prefix send len socket =
     send_raw send (map (\<lambda>i. ucast (drop_bit (8 * i) len AND 0xff)) [0..<4]) socket"

definition send_framed :: "'os send_call \<Rightarrow> bytes \<Rightarrow> 'os TcpSocket \<Rightarrow> unit Result \<times> 'os TcpSocket" where
  "send_framed send body socket =
     (if \<not> sock_valid socket then (make_error kPeerMisbehavior ''socket is not connected'', socket)
      else if length body > unat kMaxP2pFrameBytes
      then (make_error kResourceLimitExceeded ''frame exceeds maximum size'', socket)
      else
        let len = (of_nat (length body) :: u32);
            len_bytes = map (\<lambda>i. ucast (drop_bit (8 * i) len AND 0xff)) [0..<4]
        in case send_all_native send len_bytes (sock_os socket) of
             (Inl e, os) \<Rightarrow> (Inl e, socket\<lparr>sock_os := os\<rparr>)
           | (Inr _, os) \<Rightarrow>
               if body = [] then (Inr (), socket\<lparr>sock_os := os\<rparr>)
               else case send_all_native send body os of (r, os) \<Rightarrow> (r, socket\<lparr>sock_os := os\<rparr>))"

definition recv_framed :: "'os recv_call \<Rightarrow> u32 \<Rightarrow> 'os TcpSocket \<Rightarrow> bytes Result \<times> 'os TcpSocket" where
  "recv_framed recv max_frame_bytes socket =
     (if \<not> sock_valid socket then (make_error kPeerMisbehavior ''socket is not connected'', socket)
      else case recv_all_native recv 4 (sock_os socket) of
             (Inl e, os) \<Rightarrow> (Inl e, socket\<lparr>sock_os := os\<rparr>)
           | (Inr len_bytes, os) \<Rightarrow>
               let len = foldl (\<lambda>len i. len OR push_bit (8 * i) (ucast (len_bytes ! i))) (0 :: u32) [0..<4]
               in if len > max_frame_bytes
                  then (make_error kResourceLimitExceeded ''frame length exceeds maximum'', socket\<lparr>sock_os := os\<rparr>)
                  else if len > 0
                  then case recv_all_native recv (unat len) os of
                         (Inl e, os) \<Rightarrow>
                           if recv_closed e
                           then (make_error kInvalidMessage ''incomplete frame body'', socket\<lparr>sock_os := os\<rparr>)
                           else (Inl e, socket\<lparr>sock_os := os\<rparr>)
                       | (Inr body, os) \<Rightarrow> (Inr body, socket\<lparr>sock_os := os\<rparr>)
                  else (Inr [], socket\<lparr>sock_os := os\<rparr>))"

definition send_message :: "'os send_call \<Rightarrow> P2pMessage \<Rightarrow> 'os TcpSocket \<Rightarrow> unit Result \<times> 'os TcpSocket" where
  "send_message send message socket = send_framed send (p2p_to_bytes message) socket"

definition recv_message :: "'os recv_call \<Rightarrow> 'os TcpSocket \<Rightarrow> P2pMessage Result \<times> 'os TcpSocket" where
  "recv_message recv socket =
     (case recv_framed recv kMaxP2pFrameBytes socket of
        (Inl e, socket) \<Rightarrow> (Inl e, socket)
      | (Inr frame, socket) \<Rightarrow> (p2p_deserialize frame, socket))"

section \<open>Frames\<close>

lemma send_framed_steps:
  assumes "sock_valid socket" and "length body \<le> unat kMaxP2pFrameBytes"
    and "send_all_native send (enc_u32 (of_nat (length body))) (sock_os socket) = (Inr (), os1)"
    and "send_all_native send body os1 = (Inr (), os2)"
  shows "send_framed send body socket = (Inr (), socket\<lparr>sock_os := os2\<rparr>)"
proof -
  let ?len = "of_nat (length body) :: u32"
  have enc: "map (\<lambda>i. ucast (drop_bit (8 * i) ?len AND 0xff)) [0..<4] = enc_u32 ?len"
    by (simp add: enc_u32_def and_mask_byte)
  show ?thesis
    using assms unfolding send_framed_def Let_def enc by (auto simp: send_all_native.simps [of send "[]"])
qed

lemma recv_framed_steps:
  assumes "sock_valid socket" and "length body \<le> unat m"
    and "recv_all_native recv 4 (sock_os socket) = (Inr (enc_u32 (of_nat (length body))), os1)"
    and "recv_all_native recv (length body) os1 = (Inr body, os2)"
  shows "recv_framed recv m socket = (Inr body, socket\<lparr>sock_os := os2\<rparr>)"
proof -
  let ?len = "of_nat (length body) :: u32"
  have len: "unat ?len = length body" using assms(2) unat_u32_less [of m] by (simp add: unat_of_nat_less)
  have dec: "foldl (\<lambda>len i. len OR push_bit (8 * i) (ucast (enc_u32 v ! i))) (0 :: u32) [0..<4] = v" for v
    using dec_enc_u32 [of v] by (simp add: dec_u32_def mult.commute)
  have "\<not> ?len > m" using assms(2) len by (simp add: word_less_nat_alt)
  then show ?thesis
    using assms(1,3,4) len
    by (cases "body = []") (auto simp: recv_framed_def dec Let_def word_less_nat_alt recv_all_native.simps [of recv 0]
        simp del: upt_4 upt_rec_numeral)
qed

lemma message_frame_size:
  assumes "message_ok m"
  shows "length (p2p_to_bytes m) \<le> unat kMaxP2pFrameBytes"
proof -
  have "unat kMaxP2pFrameBytes = 1048594"
    by (simp add: kMaxP2pFrameBytes_def kMaxP2pPayloadBytes_def kP2pEnvelopeOverhead_def)
  moreover have "length (p2p_to_bytes m) \<le> 1048594"
    using assms by (simp add: p2p_to_bytes_eq message_ok_def)
  ultimately show ?thesis by simp
qed

section \<open>What a stream socket promises\<close>

locale byte_stream =
  fixes send :: "'os send_call"
    and recv :: "'os recv_call"
    and sent :: "'os \<Rightarrow> bytes"
    and incoming :: "'os \<Rightarrow> bytes"
  assumes send_law: "data \<noteq> [] \<Longrightarrow> send os data = (rc, errno, os') \<Longrightarrow>
      incoming os' = incoming os \<and> 0 < rc \<and> rc \<le> int (length data) \<and> sent os' = sent os @ take (nat rc) data"
    and recv_law: "0 < n \<Longrightarrow> recv os n = (chunk, errno, os') \<Longrightarrow>
      sent os' = sent os \<and> length chunk \<le> n \<and> incoming os = chunk @ incoming os'"
    and recv_some: "0 < n \<Longrightarrow> recv os n = (chunk, errno, os') \<Longrightarrow> incoming os \<noteq> [] \<Longrightarrow> chunk \<noteq> []"
begin

text \<open>However the transfers are cut, the whole buffer is sent.\<close>

lemma send_all: "\<exists>os'. send_all_native send data os = (Inr (), os') \<and> sent os' = sent os @ data \<and> incoming os' = incoming os"
proof (induction "length data" arbitrary: data os rule: less_induct)
  case less
  show ?case
  proof (cases "data = []")
    case False
    obtain rc errno os1 where s: "send os data = (rc, errno, os1)" by (cases "send os data") auto
    from send_law [OF False this] have law: "0 < rc" "rc \<le> int (length data)"
      "sent os1 = sent os @ take (nat rc) data" "incoming os1 = incoming os" by auto
    have "length (drop (nat rc) data) < length data" using law False by simp
    from less.hyps [OF this, of os1] law show ?thesis
      by (subst send_all_native.simps) (auto simp: s)
  qed (simp add: send_all_native.simps)
qed

text \<open>However the transfers are cut, what was asked for is received and nothing more.\<close>

lemma recv_all:
  "incoming os = data @ rest \<Longrightarrow>
     \<exists>os'. recv_all_native recv (length data) os = (Inr data, os') \<and> incoming os' = rest \<and> sent os' = sent os"
proof (induction "length data" arbitrary: data os rule: less_induct)
  case less
  show ?case
  proof (cases "data = []")
    case False
    obtain chunk errno os1 where r: "recv os (length data) = (chunk, errno, os1)"
      by (cases "recv os (length data)") auto
    have "incoming os \<noteq> []" "0 < length data" using False less.prems by auto
    then have law: "sent os1 = sent os" "length chunk \<le> length data" "incoming os = chunk @ incoming os1" "chunk \<noteq> []"
      using recv_law [OF _ r] recv_some [OF _ r] by auto
    from law(2,3) less.prems obtain data' where data: "data = chunk @ data'" "incoming os1 = data' @ rest"
      by (auto simp: append_eq_append_conv2)
    then have "length data' < length data" using law(4) by simp
    moreover have "recv os (length chunk + length data') = (chunk, errno, os1)" using r data(1) by simp
    ultimately show ?thesis
      using less.hyps [OF _ data(2)] law(1,4) data(1) by (subst recv_all_native.simps) auto
  qed (use less.prems in \<open>simp add: recv_all_native.simps\<close>)
qed

lemma send_framed_ok:
  assumes "sock_valid socket" and "length body \<le> unat kMaxP2pFrameBytes"
  shows "\<exists>socket'. send_framed send body socket = (Inr (), socket') \<and> sock_valid socket' \<and>
    sent (sock_os socket') = sent (sock_os socket) @ enc_var_bytes body \<and>
    incoming (sock_os socket') = incoming (sock_os socket)"
proof -
  let ?len = "of_nat (length body) :: u32"
  obtain os1 where os1: "send_all_native send (enc_u32 ?len) (sock_os socket) = (Inr (), os1)"
    "sent os1 = sent (sock_os socket) @ enc_u32 ?len" "incoming os1 = incoming (sock_os socket)"
    using send_all by blast
  obtain os2 where os2: "send_all_native send body os1 = (Inr (), os2)"
    "sent os2 = sent os1 @ body" "incoming os2 = incoming os1"
    using send_all by blast
  from send_framed_steps [OF assms os1(1) os2(1)] show ?thesis
    using assms(1) os1(2,3) os2(2,3) by (simp add: enc_var_bytes_def sock_valid_def)
qed

lemma recv_framed_ok:
  assumes "sock_valid socket" and "length body \<le> unat m"
    and "incoming (sock_os socket) = enc_var_bytes body @ rest"
  shows "\<exists>socket'. recv_framed recv m socket = (Inr body, socket') \<and> sock_valid socket' \<and>
    incoming (sock_os socket') = rest \<and> sent (sock_os socket') = sent (sock_os socket)"
proof -
  let ?len = "of_nat (length body) :: u32"
  have "incoming (sock_os socket) = enc_u32 ?len @ body @ rest" using assms(3) by (simp add: enc_var_bytes_def)
  from recv_all [OF this] obtain os1 where os1: "recv_all_native recv 4 (sock_os socket) = (Inr (enc_u32 ?len), os1)"
    "incoming os1 = body @ rest" "sent os1 = sent (sock_os socket)" by auto
  from recv_all [OF os1(2)] obtain os2 where os2: "recv_all_native recv (length body) os1 = (Inr body, os2)"
    "incoming os2 = rest" "sent os2 = sent os1" by blast
  from recv_framed_steps [OF assms(1,2) os1(1) os2(1)] show ?thesis
    using assms(1) os1(3) os2(2,3) by (simp add: sock_valid_def)
qed

text \<open>One message, from one end of a connection to the other.\<close>

lemma message_transfer:
  assumes "message_ok m"
  shows "sock_valid a \<Longrightarrow> \<exists>a'. send_message send m a = (Inr (), a') \<and> sock_valid a' \<and>
      sent (sock_os a') = sent (sock_os a) @ enc_var_bytes (p2p_to_bytes m) \<and>
      incoming (sock_os a') = incoming (sock_os a)"
    and "sock_valid b \<Longrightarrow> incoming (sock_os b) = enc_var_bytes (p2p_to_bytes m) @ rest \<Longrightarrow>
      \<exists>b'. recv_message recv b = (Inr m, b') \<and> sock_valid b' \<and> incoming (sock_os b') = rest \<and>
        sent (sock_os b') = sent (sock_os b)"
proof -
  note size = message_frame_size [OF assms]
  show "sock_valid a \<Longrightarrow> \<exists>a'. send_message send m a = (Inr (), a') \<and> sock_valid a' \<and>
      sent (sock_os a') = sent (sock_os a) @ enc_var_bytes (p2p_to_bytes m) \<and>
      incoming (sock_os a') = incoming (sock_os a)"
    using send_framed_ok [OF _ size] by (simp add: send_message_def)
  have "p2p_deserialize (p2p_to_bytes m) = Inr m" using assms by (simp add: p2p_deserialize_to_bytes)
  then show "sock_valid b \<Longrightarrow> incoming (sock_os b) = enc_var_bytes (p2p_to_bytes m) @ rest \<Longrightarrow>
      \<exists>b'. recv_message recv b = (Inr m, b') \<and> sock_valid b' \<and> incoming (sock_os b') = rest \<and>
        sent (sock_os b') = sent (sock_os b)"
    using recv_framed_ok [OF _ size] by (fastforce simp: recv_message_def)
qed

end

section \<open>A connection that cuts transfers\<close>

text \<open>
  The bytes sent and those waiting to be read, with a list of chunk sizes that bounds successive
  system calls; when it is used up a call transfers all it can.
\<close>

record Pipe =
  pipe_out :: bytes
  pipe_in :: bytes
  pipe_chunks :: "nat list"

definition next_chunk :: "Pipe \<Rightarrow> nat \<Rightarrow> nat" where
  "next_chunk p n = (case pipe_chunks p of [] \<Rightarrow> n | c # _ \<Rightarrow> max 1 (min c n))"

definition pipe_send :: "Pipe send_call" where
  "pipe_send p data =
     (let n = next_chunk p (length data)
      in (int n, 0, p\<lparr>pipe_out := pipe_out p @ take n data, pipe_chunks := tl (pipe_chunks p)\<rparr>))"

definition pipe_recv :: "Pipe recv_call" where
  "pipe_recv p wanted =
     (let n = next_chunk p wanted
      in (take n (pipe_in p), 0, p\<lparr>pipe_in := drop n (pipe_in p), pipe_chunks := tl (pipe_chunks p)\<rparr>))"

lemma next_chunk_bounds: "0 < n \<Longrightarrow> 0 < next_chunk p n \<and> next_chunk p n \<le> n"
  by (auto simp: next_chunk_def split: list.splits)

interpretation pipe: byte_stream pipe_send pipe_recv pipe_out pipe_in
proof unfold_locales
  fix data :: bytes and os rc errno os'
  assume "data \<noteq> []" "pipe_send os data = (rc, errno, os')"
  then show "pipe_in os' = pipe_in os \<and> 0 < rc \<and> rc \<le> int (length data) \<and> pipe_out os' = pipe_out os @ take (nat rc) data"
    using next_chunk_bounds [of "length data" os] by (auto simp: pipe_send_def Let_def)
next
  fix n os chunk errno os'
  assume a: "0 < n" "pipe_recv os n = (chunk, errno, os')"
  then show "pipe_out os' = pipe_out os \<and> length chunk \<le> n \<and> pipe_in os = chunk @ pipe_in os'"
    using next_chunk_bounds [of n os] by (auto simp: pipe_recv_def Let_def)
  assume "pipe_in os \<noteq> []"
  then show "chunk \<noteq> []" using a next_chunk_bounds [of n os] by (auto simp: pipe_recv_def Let_def)
qed

section \<open>Properties\<close>

text \<open>C31. A message crosses a connection intact, however the operating system cuts the transfers. On
  connected sockets, sending a message of the supported version and size succeeds, and a peer with
  these bytes in front of it receives that message and leaves exactly the bytes behind it.\<close>

theorem message_crosses_connection:
  assumes "sock_valid a" "sock_valid b" "message_ok m"
  shows "\<exists>a' frame. send_message pipe_send m a = (Inr (), a') \<and>
    pipe_out (sock_os a') = pipe_out (sock_os a) @ frame \<and>
    (\<forall>rest. pipe_in (sock_os b) = frame @ rest \<longrightarrow>
      (\<exists>b'. recv_message pipe_recv b = (Inr m, b') \<and> pipe_in (sock_os b') = rest))"
  using pipe.message_transfer(1) [OF assms(3,1)] pipe.message_transfer(2) [OF assms(3,2)] by blast

theorem message_crosses_connection_witness:
  "\<exists>b'. recv_message pipe_recv \<lparr>sock_handle = 4, sock_os = \<lparr>pipe_out = [],
       pipe_in = pipe_out (sock_os (snd (send_message pipe_send
         \<lparr>msg_version = 1, msg_type = kPing, msg_payload = [1, 2, 3, 4, 5, 6, 7, 8]\<rparr>
         \<lparr>sock_handle = 3, sock_os = \<lparr>pipe_out = [], pipe_in = [], pipe_chunks = [1, 2, 3]\<rparr>\<rparr>))) @ [9],
       pipe_chunks = [2, 5, 1]\<rparr>\<rparr> =
     (Inr \<lparr>msg_version = 1, msg_type = kPing, msg_payload = [1, 2, 3, 4, 5, 6, 7, 8]\<rparr>, b') \<and>
     pipe_in (sock_os b') = [9]"
proof -
  let ?m = "\<lparr>msg_version = 1, msg_type = kPing, msg_payload = [1, 2, 3, 4, 5, 6, 7, 8]\<rparr>"
  let ?a = "\<lparr>sock_handle = 3, sock_os = \<lparr>pipe_out = [], pipe_in = [], pipe_chunks = [1, 2, 3]\<rparr>\<rparr>"
  let ?b = "\<lparr>sock_handle = 4, sock_os = \<lparr>pipe_out = [],
       pipe_in = pipe_out (sock_os (snd (send_message pipe_send ?m ?a))) @ [9], pipe_chunks = [2, 5, 1]\<rparr>\<rparr>"
  have "sock_valid ?a" "sock_valid ?b" "message_ok ?m"
    by (simp_all add: sock_valid_def message_ok_def kProtocolVersion_def)
  from message_crosses_connection [OF this] show ?thesis by auto
qed

text \<open>A peer address is accepted exactly when it is a non-empty host, a colon and the decimal
  digits of a port between 1 and 65535, and it is split at the last colon.\<close>

lemma parse_tcp_endpoint_iff:
  "parse_tcp_endpoint text = Inr ep \<longleftrightarrow>
     ep_host ep \<noteq> [] \<and> ep_port ep \<noteq> 0 \<and>
     (\<exists>digits. text = ep_host ep @ '':'' @ digits \<and> digits \<noteq> [] \<and> list_all isdigit digits \<and>
       decimal_value digits = unat (ep_port ep))"
proof
  assume "parse_tcp_endpoint text = Inr ep"
  then obtain i port where i: "rfind CHR '':'' text = Some i" "i \<noteq> 0" "i + 1 < length text"
    and port: "from_chars 16 (drop (i + 1) text) = Some (port, [])" "(of_nat port :: u16) \<noteq> 0"
    and ep: "ep = \<lparr>ep_host = take i text, ep_port = of_nat port\<rparr>"
    by (auto simp: parse_tcp_endpoint_def split: option.splits if_splits)
  have "text = take i text @ '':'' @ drop (i + 1) text"
    using i id_take_nth_drop [of i "text"] by (simp add: rfind_Some)
  moreover have "unat (of_nat port :: u16) = port" using port(1) by (simp add: from_chars_all unat_of_nat_less)
  ultimately show "ep_host ep \<noteq> [] \<and> ep_port ep \<noteq> 0 \<and>
     (\<exists>digits. text = ep_host ep @ '':'' @ digits \<and> digits \<noteq> [] \<and> list_all isdigit digits \<and>
       decimal_value digits = unat (ep_port ep))"
    using i port by (auto simp: ep from_chars_all)
next
  assume "ep_host ep \<noteq> [] \<and> ep_port ep \<noteq> 0 \<and>
     (\<exists>digits. text = ep_host ep @ '':'' @ digits \<and> digits \<noteq> [] \<and> list_all isdigit digits \<and>
       decimal_value digits = unat (ep_port ep))"
  then obtain digits where d: "ep_host ep \<noteq> []" "ep_port ep \<noteq> 0" "text = ep_host ep @ '':'' @ digits"
    "digits \<noteq> []" "list_all isdigit digits" "decimal_value digits = unat (ep_port ep)" by blast
  have "\<not> isdigit CHR '':''" by (simp add: isdigit_def)
  then have "CHR '':'' \<notin> set digits" using d(5) by (auto simp: list_all_iff)
  then have "rfind CHR '':'' text = Some (length (ep_host ep))" by (simp add: rfind_Some d(3))
  moreover have "from_chars 16 digits = Some (unat (ep_port ep), [])"
    using d unsigned_less [of "ep_port ep", where 'a = nat] by (simp add: from_chars_all)
  ultimately show "parse_tcp_endpoint text = Inr ep"
    using d by (cases ep) (simp add: parse_tcp_endpoint_def)
qed

end
