(* ===== verification/Hex.thy ===== *)
theory Hex
  imports Sha256_Correct
begin

text \<open>
  The hex form of digests, \<^verbatim>\<open>hash_from_hex\<close> and \<^verbatim>\<open>to_hex\<close> of \<^verbatim>\<open>src/crypto/sha256.cpp\<close>: printing
  and parsing are inverse, and parsing accepts exactly 64 hex digits of either case.
\<close>

section \<open>Hex digests\<close>

lemma to_hex_map:
  "to_hex h = concat (map (\<lambda>v. [kDigits ! unat (drop_bit 4 v), kDigits ! unat (v AND 0x0f)]) h)"
proof -
  have "foldl (\<lambda>out v. out @ g v) acc h = acc @ concat (map g h)" for g :: "byte \<Rightarrow> string" and acc
    by (induction h arbitrary: acc) auto
  then show ?thesis by (simp add: to_hex_def)
qed

lemma hex_digit_kDigits: "n < 16 \<Longrightarrow> hex_digit (kDigits ! n) = Some (of_nat n)"
proof -
  have "\<forall>n \<in> set [0..<16]. hex_digit (kDigits ! n) = Some (of_nat n)" by code_simp
  then show "n < 16 \<Longrightarrow> ?thesis" by (simp del: upt_rec_numeral)
qed

text \<open>The index loop of \<^verbatim>\<open>hash_from_hex\<close> fills the array from the front.\<close>

lemma foldR_fill:
  assumes "k \<le> n"
  shows "foldR (\<lambda>a i. case f i of Some v \<Rightarrow> Inr (a[i := v]) | None \<Rightarrow> Inl e) (replicate n z) [0..<k] =
    (if \<forall>i<k. f i \<noteq> None then Inr (map (\<lambda>i. the (f i)) [0..<k] @ replicate (n - k) z) else Inl e)"
  using assms
proof (induction k)
  case (Suc k)
  have "replicate (n - k) z = z # replicate (n - Suc k) z"
    using Suc.prems by (simp add: Suc_diff_Suc flip: replicate_Suc)
  then show ?case
    using Suc by (auto simp: foldR_append less_Suc_eq list_update_append split: option.splits)
qed simp

definition hex_byte :: "string \<Rightarrow> nat \<Rightarrow> byte option" where
  "hex_byte hex i = (case (hex_digit (hex ! (i * 2)), hex_digit (hex ! (i * 2 + 1))) of
     (Some hi, Some lo) \<Rightarrow> Some (push_bit 4 hi OR lo) | _ \<Rightarrow> None)"

lemma hash_from_hex_eq:
  "hash_from_hex hex =
     (if length hex \<noteq> 64 then make_error kParseError ''hash hex must be exactly 64 characters''
      else if \<forall>i<32. hex_byte hex i \<noteq> None then Inr (map (\<lambda>i. the (hex_byte hex i)) [0..<32])
      else make_error kParseError ''hash hex contains invalid characters'')"
proof -
  have "(\<lambda>hash i. case (hex_digit (hex ! (i * 2)), hex_digit (hex ! (i * 2 + 1))) of
             (Some hi, Some lo) \<Rightarrow> Inr (hash[i := push_bit 4 hi OR lo])
           | _ \<Rightarrow> make_error kParseError ''hash hex contains invalid characters'') =
        (\<lambda>hash i. case hex_byte hex i of Some v \<Rightarrow> Inr (hash[i := v])
           | None \<Rightarrow> Inl \<lparr>err_code = kParseError, err_message = ''hash hex contains invalid characters''\<rparr>)"
    by (auto simp: fun_eq_iff hex_byte_def make_error_def split: option.splits)
  then show ?thesis
    unfolding hash_from_hex_def using foldR_fill [of 32 32 _ "hex_byte hex"]
    by (auto simp: make_error_def simp del: upt_rec_numeral)
qed

lemma and_mask_nibble: "v AND 0x0f = take_bit 4 (v :: byte)"
  by (simp add: take_bit_eq_mask mask_eq_exp_minus_1)

lemma nibbles: "push_bit 4 (drop_bit 4 v) OR (v AND 0x0f) = (v :: byte)"
proof -
  have "push_bit 4 (drop_bit 4 v) OR take_bit 4 v = v"
    by (rule bit_eqI) (auto simp: bit_simps)
  then show ?thesis by (simp only: and_mask_nibble)
qed

lemma unat_nibbles: "unat (drop_bit 4 (v :: byte)) < 16" "unat (v AND 0x0f :: byte) < 16"
proof -
  have "unat v < 256" using unsigned_less [of v, where 'a = nat] by simp
  then show "unat (drop_bit 4 v) < 16" by (simp add: drop_bit_eq_div unat_div)
  show "unat (v AND 0x0f) < 16"
    unfolding and_mask_nibble by (simp add: take_bit_eq_mod unat_mod)
qed

lemma nth_pairs:
  "i < length h \<Longrightarrow> concat (map (\<lambda>v. [f v, g v]) h) ! (i * 2) = f (h ! i)"
  "i < length h \<Longrightarrow> concat (map (\<lambda>v. [f v, g v]) h) ! (i * 2 + 1) = g (h ! i)"
  by (induction h arbitrary: i) (auto simp: nth_Cons split: nat.splits)

lemma length_to_hex [simp]: "length (to_hex h) = 2 * length h"
  by (induction h) (auto simp: to_hex_map)

lemma hex_byte_to_hex: "i < length h \<Longrightarrow> hex_byte (to_hex h) i = Some (h ! i)"
  unfolding hex_byte_def to_hex_map
  by (simp only: nth_pairs) (simp add: hex_digit_kDigits unat_nibbles nibbles)

lemma hash_from_hex_to_hex: "wf_hash h \<Longrightarrow> hash_from_hex (to_hex h) = Inr h"
  by (auto simp: hash_from_hex_eq wf_hash_def hex_byte_to_hex simp del: upt_rec_numeral
      intro!: nth_equalityI)

text \<open>Parsing accepts both cases of a digit: \<open>hex_lower\<close> is the form \<open>to_hex\<close> prints.\<close>

definition hex_lower :: "char \<Rightarrow> char" where
  "hex_lower c = (if c \<in> set ''ABCDEF'' then char_of (of_char c + 32 :: nat) else c)"

lemma hex_digit_cases:
  "case hex_digit c of Some v \<Rightarrow> unat v < 16 \<and> hex_lower c = kDigits ! unat v
   | None \<Rightarrow> hex_lower c \<notin> set kDigits"
proof -
  have "\<forall>c \<in> set (enum_class.enum :: char list). case hex_digit c of
      Some v \<Rightarrow> unat v < 16 \<and> hex_lower c = kDigits ! unat v | None \<Rightarrow> hex_lower c \<notin> set kDigits"
    by code_simp
  then show ?thesis unfolding UNIV_enum [symmetric] by simp
qed

lemma hex_digit_iff: "hex_digit c = Some v \<longleftrightarrow> unat v < 16 \<and> hex_lower c = kDigits ! unat v"
proof -
  have digits: "distinct kDigits" "length kDigits = 16" by (simp_all add: kDigits_def)
  show ?thesis
    using hex_digit_cases [of c] digits
    by (auto split: option.splits simp: nth_eq_iff_index_eq word_unat_eq_iff)
qed

lemma hex_byte_iff:
  "hex_byte hex i = Some v \<longleftrightarrow> hex_lower (hex ! (i * 2)) = kDigits ! unat (drop_bit 4 v) \<and>
     hex_lower (hex ! (i * 2 + 1)) = kDigits ! unat (v AND 0x0f)"
proof -
  have nib: "push_bit 4 hi OR lo = v \<longleftrightarrow> hi = drop_bit 4 v \<and> lo = v AND 0x0f"
    if "unat hi < 16" "unat lo < 16" for hi lo :: byte
  proof -
    have small: "take_bit 4 hi = hi" "take_bit 4 lo = lo"
      using that by (simp_all add: word_unat_eq_iff unsigned_take_bit_eq take_bit_nat_eq_self)
    have "drop_bit 4 (push_bit 4 (take_bit 4 hi) OR take_bit 4 lo) = take_bit 4 hi"
      "take_bit 4 (push_bit 4 (take_bit 4 hi) OR take_bit 4 lo) = take_bit 4 lo"
      by (rule bit_eqI; auto simp: bit_simps)+
    then show ?thesis using nibbles [of v] small by (auto simp: and_mask_nibble)
  qed
  show ?thesis
  proof
    assume "hex_byte hex i = Some v"
    then obtain hi lo where "hex_digit (hex ! (i * 2)) = Some hi" "hex_digit (hex ! (i * 2 + 1)) = Some lo"
      "v = push_bit 4 hi OR lo" by (auto simp: hex_byte_def split: option.splits)
    with nib [of hi lo] show "hex_lower (hex ! (i * 2)) = kDigits ! unat (drop_bit 4 v) \<and>
        hex_lower (hex ! (i * 2 + 1)) = kDigits ! unat (v AND 0x0f)"
      by (simp add: hex_digit_iff)
  next
    assume "hex_lower (hex ! (i * 2)) = kDigits ! unat (drop_bit 4 v) \<and>
        hex_lower (hex ! (i * 2 + 1)) = kDigits ! unat (v AND 0x0f)"
    then have "hex_digit (hex ! (i * 2)) = Some (drop_bit 4 v)"
      "hex_digit (hex ! (i * 2 + 1)) = Some (v AND 0x0f)"
      by (simp_all add: hex_digit_iff unat_nibbles)
    then show "hex_byte hex i = Some v" by (simp add: hex_byte_def nibbles)
  qed
qed

lemma to_hex_nth_iff:
  assumes "length s = 2 * length h"
  shows "s = to_hex h \<longleftrightarrow> (\<forall>i < length h. s ! (i * 2) = kDigits ! unat (drop_bit 4 (h ! i)) \<and>
    s ! (i * 2 + 1) = kDigits ! unat (h ! i AND 0x0f))" (is "_ \<longleftrightarrow> ?R")
proof
  assume ?R
  show "s = to_hex h"
  proof (rule nth_equalityI)
    fix j assume "j < length s"
    then obtain i where "i < length h" "j = i * 2 \<or> j = i * 2 + 1"
      using assms by (intro that [of "j div 2"]) auto
    with \<open>?R\<close> nth_pairs [of i h "\<lambda>v. kDigits ! unat (drop_bit 4 v)" "\<lambda>v. kDigits ! unat (v AND 0x0f)"]
    show "s ! j = to_hex h ! j" unfolding to_hex_map by auto
  qed (simp add: assms)
next
  assume "s = to_hex h"
  then show ?R by (auto simp: to_hex_map simp del: One_nat_def add_Suc_right simp flip: add.assoc intro: nth_pairs)
qed

text \<open>Parsing a hex digest succeeds exactly on 64 digits of either case, and gives the one
  hash that prints as that text in lower case. Printing and parsing are inverse.\<close>

lemma hash_from_hex_iff:
  "hash_from_hex s = Inr h \<longleftrightarrow> wf_hash h \<and> map hex_lower s = to_hex h"
proof -
  have "hash_from_hex s = Inr h \<longleftrightarrow>
      length s = 64 \<and> length h = 32 \<and> (\<forall>i < 32. hex_byte s i = Some (h ! i))"
    by (auto simp: hash_from_hex_eq list_eq_iff_nth_eq simp del: upt_rec_numeral)
      (metis option.sel)
  also have "\<dots> \<longleftrightarrow> wf_hash h \<and> map hex_lower s = to_hex h"
  proof (cases "length s = 64 \<and> length h = 32")
    case True
    then show ?thesis
      using to_hex_nth_iff [of "map hex_lower s" h] by (auto simp: wf_hash_def hex_byte_iff)
  next
    case False
    then show ?thesis
      by (metis length_map length_to_hex wf_hash_def mult_2 numeral_Bit0)
  qed
  finally show ?thesis .
qed

end
