(* ===== verification/Config.thy ===== *)
theory Config
  imports Block_Builder Socket_IO Hex
begin

text \<open>
  \<^verbatim>\<open>node/config.hpp\<close>, the field parsers and validation of \<^verbatim>\<open>src/node/config.cpp\<close>, and
  \<^verbatim>\<open>src/node/genesis.cpp\<close>: the configuration of a node and what is derived from it.
\<close>

section \<open>Data\<close>

datatype LogLevel = kError | kWarn | kInfo | kDebug | kTrace

datatype NetworkMode = NetworkMode_kPing | NetworkMode_kRelay

record NodeConfig =
  cfg_genesis_timestamp :: u64
  cfg_block_subsidy :: u64
  cfg_max_block_size_bytes :: u32
  cfg_mine_blocks :: u32
  cfg_mine_after_tx :: u32
  cfg_relay_blocks_after_tx :: u32
  cfg_relay_max_sessions :: u32
  cfg_coinbase_maturity :: u32
  cfg_listen_port :: u16
  cfg_peer_port :: u16
  cfg_log_level :: LogLevel
  cfg_listen_enabled :: bool
  cfg_persist :: bool
  cfg_restore :: bool
  cfg_network_mode :: NetworkMode
  cfg_node_id :: string
  cfg_data_dir :: string
  cfg_coinbase_recipient_hex :: string
  cfg_listen_host :: string
  cfg_peer_host :: string
  cfg_port_file :: string
  cfg_announce_tx_files :: "string list"
  cfg_mempool_max_transactions :: u32
  cfg_mempool_max_bytes :: u64
  cfg_min_relay_feerate :: u64

definition default_config :: NodeConfig where
  "default_config = \<lparr>
     cfg_genesis_timestamp = 0, cfg_block_subsidy = 0, cfg_max_block_size_bytes = 0, cfg_mine_blocks = 0,
     cfg_mine_after_tx = 0, cfg_relay_blocks_after_tx = 0, cfg_relay_max_sessions = 1,
     cfg_coinbase_maturity = 0, cfg_listen_port = 0, cfg_peer_port = 0, cfg_log_level = kInfo,
     cfg_listen_enabled = False, cfg_persist = False, cfg_restore = False,
     cfg_network_mode = NetworkMode_kPing, cfg_node_id = ''node-0'', cfg_data_dir = ''./data'',
     cfg_coinbase_recipient_hex = '''', cfg_listen_host = ''127.0.0.1'', cfg_peer_host = '''',
     cfg_port_file = '''', cfg_announce_tx_files = [], cfg_mempool_max_transactions = 0,
     cfg_mempool_max_bytes = 0, cfg_min_relay_feerate = 0\<rparr>"

section \<open>Operations\<close>

definition parse_u64 :: "string \<Rightarrow> string \<Rightarrow> u64 Result" where
  "parse_u64 text flag =
     (case from_chars 64 text of
        Some (v, []) \<Rightarrow> Inr (of_nat v)
      | _ \<Rightarrow> make_error kInvalidConfig
          (''invalid unsigned integer for '' @ flag @ '': '' @ [CHR 0x27] @ text @ [CHR 0x27]))"

definition parse_u32 :: "string \<Rightarrow> string \<Rightarrow> u32 Result" where
  "parse_u32 text flag =
     bindR (parse_u64 text flag) (\<lambda>parsed.
     if parsed > ucast (UINT32_MAX :: u32) then make_error kInvalidConfig (''value out of range for '' @ flag)
     else Inr (ucast parsed))"

definition parse_log_level :: "string \<Rightarrow> LogLevel Result" where
  "parse_log_level text =
     (if text = ''error'' then Inr kError
      else if text = ''warn'' then Inr kWarn
      else if text = ''info'' then Inr kInfo
      else if text = ''debug'' then Inr kDebug
      else if text = ''trace'' then Inr kTrace
      else make_error kInvalidConfig (''unknown log level: '' @ [CHR 0x27] @ text @ [CHR 0x27]))"

fun log_level_to_string :: "LogLevel \<Rightarrow> string" where
  "log_level_to_string kError = ''error''"
| "log_level_to_string kWarn = ''warn''"
| "log_level_to_string kInfo = ''info''"
| "log_level_to_string kDebug = ''debug''"
| "log_level_to_string kTrace = ''trace''"

definition parse_network_mode :: "string \<Rightarrow> NetworkMode Result" where
  "parse_network_mode text =
     (if text = ''ping'' then Inr NetworkMode_kPing
      else if text = ''relay'' then Inr NetworkMode_kRelay
      else make_error kInvalidConfig (''unknown network mode: '' @ [CHR 0x27] @ text @ [CHR 0x27]))"

fun network_mode_to_string :: "NetworkMode \<Rightarrow> string" where
  "network_mode_to_string NetworkMode_kPing = ''ping''"
| "network_mode_to_string NetworkMode_kRelay = ''relay''"

definition resolved_mempool_limits :: "NodeConfig \<Rightarrow> MempoolLimits" where
  "resolved_mempool_limits config =
     \<lparr>max_transactions = (if cfg_mempool_max_transactions config \<noteq> 0
        then cfg_mempool_max_transactions config else kDefaultMempoolMaxTransactions),
      max_total_bytes = (if cfg_mempool_max_bytes config \<noteq> 0
        then cfg_mempool_max_bytes config else kDefaultMempoolMaxBytes)\<rparr>"

definition resolved_mempool_policy :: "NodeConfig \<Rightarrow> MempoolPolicy" where
  "resolved_mempool_policy config = \<lparr>min_relay_feerate = cfg_min_relay_feerate config\<rparr>"

definition config_validate :: "NodeConfig \<Rightarrow> unit Result" where
  "config_validate config =
     (if cfg_node_id config = [] then make_error kInvalidConfig ''node_id must not be empty''
      else if cfg_data_dir config = [] then make_error kInvalidConfig ''data_dir must not be empty''
      else if cfg_coinbase_recipient_hex config \<noteq> [] \<and> \<not> is_ok (hash_from_hex (cfg_coinbase_recipient_hex config))
      then make_error kInvalidConfig ''coinbase_recipient_hex must be a 64-character hex hash''
      else if cfg_listen_enabled config \<and> cfg_peer_port config \<noteq> 0
      then make_error kInvalidConfig ''specify either --listen-port (server) or --peer (client), not both''
      else if cfg_relay_max_sessions config = 0
      then make_error kInvalidConfig ''relay_max_sessions must be at least 1''
      else Inr ())"

definition build_genesis_block :: "NodeConfig \<Rightarrow> Block" where
  "build_genesis_block config =
     \<lparr>blk_header = \<lparr>hdr_version = kBlockVersion, hdr_prev_block = zero_hash,
        hdr_merkle_root = compute_merkle_root [],
        hdr_timestamp = cfg_genesis_timestamp config, hdr_height = 0\<rparr>,
      blk_transactions = []\<rparr>"

section \<open>Lemmas\<close>

lemma parse_u64_ok:
  "parse_u64 s flag = Inr v \<longleftrightarrow> s \<noteq> [] \<and> list_all isdigit s \<and> decimal_value s < 2 ^ 64 \<and> v = of_nat (decimal_value s)"
proof -
  have "parse_u64 s flag = Inr v \<longleftrightarrow> (\<exists>n. from_chars 64 s = Some (n, []) \<and> v = of_nat n)"
    by (auto simp: parse_u64_def split: option.splits prod.splits list.splits)
  then show ?thesis by (auto simp: from_chars_all)
qed

lemma parse_u32_ok:
  "parse_u32 s flag = Inr v \<longleftrightarrow> s \<noteq> [] \<and> list_all isdigit s \<and> decimal_value s < 2 ^ 32 \<and> v = of_nat (decimal_value s)"
proof (cases "decimal_value s < 2 ^ 32")
  case True
  let ?w = "of_nat (decimal_value s) :: u64"
  have "(ucast ?w :: u32) = of_nat (decimal_value s)"
    using True by (simp add: word_unat_eq_iff unat_of_nat_less unsigned_ucast_eq take_bit_nat_eq_self)
  moreover have "\<not> ?w > ucast (UINT32_MAX :: u32)"
    using True by (auto simp: word_less_nat_alt unat_of_nat_less)
  ultimately show ?thesis using True by (auto simp: parse_u32_def result_simps parse_u64_ok)
next
  case False
  then have "decimal_value s < 2 ^ 64 \<Longrightarrow> (of_nat (decimal_value s) :: u64) > ucast (UINT32_MAX :: u32)"
    by (auto simp: word_less_nat_alt unat_of_nat_less)
  with False show ?thesis by (auto simp: parse_u32_def result_simps parse_u64_ok)
qed

lemma config_parsers_code [simp]:
  "fails_with {kInvalidConfig} (parse_u64 s flag)" "fails_with {kInvalidConfig} (parse_u32 s flag)"
  "fails_with {kInvalidConfig} (parse_log_level s)" "fails_with {kInvalidConfig} (parse_network_mode s)"
  "fails_with {kInvalidConfig} (config_validate c)" "fails_with {kInvalidConfig} (parse_tcp_endpoint s)"
proof -
  show u64: "fails_with {kInvalidConfig} (parse_u64 s flag)" for s flag
    by (auto simp: parse_u64_def split: option.splits prod.splits list.splits)
  show "fails_with {kInvalidConfig} (parse_u32 s flag)"
    by (auto simp: parse_u32_def intro!: fails_with_bindR u64)
qed (auto simp: parse_log_level_def parse_network_mode_def config_validate_def parse_tcp_endpoint_def
    split: option.splits)

definition valid_config :: "NodeConfig \<Rightarrow> bool" where
  "valid_config c \<longleftrightarrow> cfg_node_id c \<noteq> [] \<and> cfg_data_dir c \<noteq> [] \<and>
     (cfg_coinbase_recipient_hex c = [] \<or> is_ok (hash_from_hex (cfg_coinbase_recipient_hex c))) \<and>
     (cfg_listen_enabled c \<longrightarrow> cfg_peer_port c = 0) \<and> cfg_relay_max_sessions c \<noteq> 0"

lemma config_validate_iff: "config_validate c = Inr () \<longleftrightarrow> valid_config c"
  by (auto simp: config_validate_def valid_config_def)

lemma genesis_connects:
  "connect_block (build_genesis_block config) s params = (Inr 0, s)"
  by (rule connect_empty_block) (simp_all add: build_genesis_block_def wf_header_def)

lemma genesis_chain:
  "chain_create (build_genesis_block config) params =
     Inr \<lparr>ch_tip = blk_header (build_genesis_block config), ch_utxos = empty_utxos, ch_params = params\<rparr>"
  using genesis_connects [of config empty_utxos params]
  by (simp add: chain_create_ok) (simp add: build_genesis_block_def)

end
