(* ===== verification/Ledger_Store.thy ===== *)
theory Ledger_Store
  imports Chain
begin

text \<open>
  \<^verbatim>\<open>storage/ledger_format.hpp\<close>, \<^verbatim>\<open>storage/chain_store.hpp\<close> and \<^verbatim>\<open>src/storage/chain_store.cpp\<close>: the
  ledger file, its encoding, its replay, and how it is written and read back. The files of the
  machine are a map from paths to contents. What the operating system may refuse is an argument:
  every primitive of a save can be made to fail, a failing write leaving any prefix behind, so
  that the statements about a save also speak of one that was cut short.
\<close>

section \<open>The format\<close>

definition kLedgerMagic :: u32 where "kLedgerMagic = 0xBC570001"

definition kLedgerFormatVersion :: u32 where "kLedgerFormatVersion = 2"

definition kLedgerFormatVersion1 :: u32 where "kLedgerFormatVersion1 = 1"

definition kMaxLedgerBlocks :: u32 where "kMaxLedgerBlocks = 1000000"

definition kMaxLedgerMempoolTransactions :: u32 where "kMaxLedgerMempoolTransactions = 10000"

definition ledger_filename :: string where "ledger_filename = ''ledger.bin''"

definition ledger_temp_filename :: string where "ledger_temp_filename = ''ledger.bin.tmp''"

lemmas ledger_constants =
  kLedgerMagic_def kLedgerFormatVersion_def kLedgerFormatVersion1_def kMaxLedgerBlocks_def
  kMaxLedgerMempoolTransactions_def ledger_filename_def ledger_temp_filename_def

record LedgerData =
  ld_blocks :: "Block list"
  ld_params :: ConsensusParams
  ld_mempool_transactions :: "Transaction list"

definition ledger_checksum :: "bytes \<Rightarrow> u32" where
  "ledger_checksum body =
     (let digest = sha256 body
      in foldl (\<lambda>value i. value OR push_bit (8 * i) (ucast (digest ! i))) 0 [0..<4])"

definition with_ledger_checksum :: "bytes \<Rightarrow> bytes" where
  "with_ledger_checksum body = buffer (put_u32 (ledger_checksum body) (put_bytes body new_writer))"

definition put_block :: "Block \<Rightarrow> ByteWriter \<Rightarrow> ByteWriter Result" where
  "put_block block writer =
     (let bytes = block_to_bytes block
      in if length bytes > unat kMaxBlockSizeBytes
         then make_error kResourceLimitExceeded ''block exceeds maximum encoded size''
         else Inr (put_var_bytes bytes writer))"

definition get_block :: "Block parser" where
  "get_block reader =
     bindR (get_var_bytes kMaxBlockSizeBytes reader) (\<lambda>(raw, reader).
     bindR (block_deserialize (reader_of raw)) (\<lambda>(block, block_reader).
     bindR (expect_end block_reader) (\<lambda>_. Inr (block, reader))))"

definition put_transaction :: "Transaction \<Rightarrow> ByteWriter \<Rightarrow> ByteWriter Result" where
  "put_transaction tx writer =
     (let bytes = tx_to_bytes tx
      in if length bytes > unat kMaxTransactionSizeBytes
         then make_error kResourceLimitExceeded ''transaction exceeds maximum encoded size''
         else Inr (put_var_bytes bytes writer))"

definition get_transaction :: "Transaction parser" where
  "get_transaction reader =
     bindR (get_var_bytes kMaxTransactionSizeBytes reader) (\<lambda>(raw, reader).
     bindR (tx_deserialize (reader_of raw)) (\<lambda>(tx, tx_reader).
     bindR (expect_end tx_reader) (\<lambda>_. Inr (tx, reader))))"

definition validate_block_sequence :: "Block list \<Rightarrow> unit Result" where
  "validate_block_sequence blocks =
     (if blocks = [] then make_error kStorageCorruption ''ledger contains no blocks''
      else if hdr_height (blk_header (blocks ! 0)) \<noteq> 0
      then make_error kStorageCorruption ''genesis must be at height 0''
      else foldR (\<lambda>_ i.
             if hdr_height (blk_header (blocks ! i)) \<noteq> hdr_height (blk_header (blocks ! (i - 1))) + 1
             then make_error kStorageCorruption ''block heights are not contiguous''
             else Inr ()) () [1..<length blocks])"

definition replay_chain :: "Block list \<Rightarrow> ConsensusParams \<Rightarrow> Chain Result" where
  "replay_chain blocks params =
     bindR (validate_block_sequence blocks) (\<lambda>_.
     bindR (chain_create (blocks ! 0) params) (\<lambda>chain.
     foldR (\<lambda>chain i.
       case submit_block (blocks ! i) chain None of
         (Inl e, _, _) \<Rightarrow> Inl e
       | (Inr _, chain, _) \<Rightarrow> Inr chain) chain [1..<length blocks]))"

definition encode_ledger :: "Block list \<Rightarrow> ConsensusParams \<Rightarrow> Transaction list \<Rightarrow> bytes Result" where
  "encode_ledger blocks params mempool =
     (if length blocks > unat kMaxLedgerBlocks
      then make_error kResourceLimitExceeded ''too many blocks for ledger''
      else if length mempool > unat kMaxLedgerMempoolTransactions
      then make_error kResourceLimitExceeded ''too many mempool transactions for ledger''
      else
        let writer = put_u32 kLedgerMagic new_writer;
            writer = put_u32 kLedgerFormatVersion writer;
            writer = put_u64 (block_subsidy params) writer;
            writer = put_u32 (coinbase_maturity params) writer;
            writer = put_u32 (of_nat (length blocks)) writer
        in bindR (foldR (\<lambda>writer block. put_block block writer) writer blocks) (\<lambda>writer.
           bindR (foldR (\<lambda>writer tx. put_transaction tx writer)
                    (put_u32 (of_nat (length mempool)) writer) mempool) (\<lambda>writer.
           Inr (with_ledger_checksum (buffer writer)))))"

text \<open>The two counted sections of the body: the blocks, and the mempool of format version 2.\<close>

definition decode_blocks :: "Block list parser" where
  "decode_blocks reader =
     bindR (get_u32 reader) (\<lambda>(count, reader).
     if count = 0 \<or> count > kMaxLedgerBlocks
     then make_error kStorageCorruption ''ledger block count out of range''
     else get_loop get_block (unat count) [] reader)"

definition decode_mempool :: "u32 \<Rightarrow> Transaction list parser" where
  "decode_mempool version reader =
     (if version \<ge> kLedgerFormatVersion
      then bindR (get_u32 reader) (\<lambda>(mempool_count, reader).
           if mempool_count > kMaxLedgerMempoolTransactions
           then make_error kStorageCorruption ''ledger mempool count out of range''
           else get_loop get_transaction (unat mempool_count) [] reader)
      else Inr ([], reader))"

definition decode_ledger_body :: "bytes \<Rightarrow> LedgerData Result" where
  "decode_ledger_body body =
     (case get_u32 (reader_of body) of
        Inl _ \<Rightarrow> make_error kStorageCorruption ''ledger magic mismatch''
      | Inr (magic, reader) \<Rightarrow>
          if magic \<noteq> kLedgerMagic then make_error kStorageCorruption ''ledger magic mismatch''
          else bindR (get_u32 reader) (\<lambda>(version, reader).
               if version \<noteq> kLedgerFormatVersion \<and> version \<noteq> kLedgerFormatVersion1
               then make_error kUnsupportedVersion ''unsupported ledger format version''
               else bindR (get_u64 reader) (\<lambda>(subsidy, reader).
                    bindR (get_u32 reader) (\<lambda>(maturity, reader).
                    bindR (decode_blocks reader) (\<lambda>(blocks, reader).
                    bindR (decode_mempool version reader) (\<lambda>(mempool, reader).
                    bindR (expect_end reader) (\<lambda>_.
                    bindR (validate_block_sequence blocks) (\<lambda>_.
                    Inr \<lparr>ld_blocks = blocks,
                         ld_params = \<lparr>block_subsidy = subsidy, coinbase_maturity = maturity\<rparr>,
                         ld_mempool_transactions = mempool\<rparr>))))))))"

definition decode_ledger :: "bytes \<Rightarrow> LedgerData Result" where
  "decode_ledger bytes =
     (if length bytes < 4 then make_error kStorageCorruption ''ledger file is too short''
      else
        let body = take (length bytes - 4) bytes;
            expected = ledger_checksum body;
            actual = foldl (\<lambda>actual i. actual OR push_bit (8 * i) (ucast (bytes ! (length bytes - 4 + i))))
                       0 [0..<4]
        in if actual \<noteq> expected then make_error kStorageCorruption ''ledger checksum mismatch''
           else decode_ledger_body body)"

section \<open>Files\<close>

type_synonym files = "string \<Rightarrow> bytes option"

record Faults =
  mkdir_error :: "string option"
  open_fails :: bool
  write_fails :: "nat option"
  rename_error :: "string option"
  read_fails :: bool

definition join_path :: "string \<Rightarrow> string \<Rightarrow> string" where
  "join_path dir filename =
     (if dir = [] then filename
      else if last dir = CHR ''/'' \<or> last dir = CHR 0x5C then dir @ filename
      else dir @ ''/'' @ filename)"

definition ledger_path :: "string \<Rightarrow> string" where
  "ledger_path data_dir = join_path data_dir ledger_filename"

definition ledger_temp_path :: "string \<Rightarrow> string" where
  "ledger_temp_path data_dir = join_path data_dir ledger_temp_filename"

definition read_file :: "Faults \<Rightarrow> files \<Rightarrow> string \<Rightarrow> bytes Result" where
  "read_file faults fs path =
     (case fs path of
        None \<Rightarrow> make_error kStorageCorruption ''ledger file is missing or unreadable''
      | Some bytes \<Rightarrow>
          if length bytes > unat (ucast kMaxBlockSizeBytes * ucast kMaxLedgerBlocks + 1024 :: u64)
          then make_error kResourceLimitExceeded ''ledger file is too large''
          else if read_fails faults then make_error kStorageCorruption ''ledger file read failed''
          else Inr bytes)"

definition is_regular_file :: "files \<Rightarrow> string \<Rightarrow> bool" where
  "is_regular_file fs path \<longleftrightarrow> (case fs path of None \<Rightarrow> False | Some bytes \<Rightarrow> length bytes > 0)"

definition ledger_exists :: "files \<Rightarrow> string \<Rightarrow> bool" where
  "ledger_exists fs data_dir \<longleftrightarrow> is_regular_file fs (ledger_path data_dir)"

definition create_directory :: "Faults \<Rightarrow> unit Result" where
  "create_directory faults =
     (case mkdir_error faults of
        None \<Rightarrow> Inr ()
      | Some reason \<Rightarrow> make_error kStorageCorruption (''cannot create data directory: '' @ reason))"

definition rename_file :: "Faults \<Rightarrow> string \<Rightarrow> string \<Rightarrow> files \<Rightarrow> unit Result \<times> files" where
  "rename_file faults from to fs =
     (case rename_error faults of
        None \<Rightarrow> (Inr (), (fs(to := fs from))(from := None))
      | Some reason \<Rightarrow> (make_error kStorageCorruption (''ledger atomic rename failed: '' @ reason), fs))"

definition write_file_atomic :: "Faults \<Rightarrow> string \<Rightarrow> string \<Rightarrow> bytes \<Rightarrow> files \<Rightarrow> unit Result \<times> files" where
  "write_file_atomic faults path temp_path bytes fs =
     (if open_fails faults then (make_error kStorageCorruption ''cannot open ledger temp file for write'', fs)
      else case write_fails faults of
             Some n \<Rightarrow> (make_error kStorageCorruption ''ledger temp file write failed'',
                        fs(temp_path \<mapsto> take n bytes))
           | None \<Rightarrow> rename_file faults temp_path path (fs(temp_path \<mapsto> bytes)))"

definition save_ledger ::
    "Faults \<Rightarrow> string \<Rightarrow> Block list \<Rightarrow> ConsensusParams \<Rightarrow> Transaction list \<Rightarrow> files \<Rightarrow> unit Result \<times> files" where
  "save_ledger faults data_dir blocks params mempool fs =
     (case validate_block_sequence blocks of
        Inl e \<Rightarrow> (Inl e, fs)
      | Inr _ \<Rightarrow>
     (case encode_ledger blocks params mempool of
        Inl e \<Rightarrow> (Inl e, fs)
      | Inr encoded \<Rightarrow>
     (case create_directory faults of
        Inl e \<Rightarrow> (Inl e, fs)
      | Inr _ \<Rightarrow> write_file_atomic faults (ledger_path data_dir) (ledger_temp_path data_dir) encoded fs)))"

definition load_ledger :: "Faults \<Rightarrow> files \<Rightarrow> string \<Rightarrow> LedgerData Result" where
  "load_ledger faults fs data_dir = bindR (read_file faults fs (ledger_path data_dir)) decode_ledger"

definition load_chain :: "Faults \<Rightarrow> files \<Rightarrow> string \<Rightarrow> Chain Result" where
  "load_chain faults fs data_dir =
     bindR (load_ledger faults fs data_dir) (\<lambda>ledger. replay_chain (ld_blocks ledger) (ld_params ledger))"

section \<open>The encoding\<close>

context codec
begin

text \<open>A value stored as a length-prefixed blob of its own, which must be used up.\<close>

lemma nested_codec:
  "codec (\<lambda>x. enc_var_bytes (enc x))
     (\<lambda>r. bindR (get_var_bytes m r) (\<lambda>(raw, r').
          bindR (get (reader_of raw)) (\<lambda>(x, xr). bindR (expect_end xr) (\<lambda>_. Inr (x, r')))))
     (\<lambda>x. ok x \<and> length (enc x) \<le> unat m)"
proof (rule codec.intro)
  fix r x r'
  have "bindR (get (reader_of raw)) (\<lambda>(x, xr). bindR (expect_end xr) (\<lambda>_. Inr (x, r'))) =
      bindR (parse_all get raw) (\<lambda>x. Inr (x, r'))" for raw and r' :: ByteReader
  proof (cases "get (reader_of raw)")
    case (Inr p)
    then show ?thesis by (cases p; cases "expect_end (snd p)") (simp_all add: parse_all_def)
  qed (simp add: parse_all_def)
  then show "bindR (get_var_bytes m r) (\<lambda>(raw, r').
          bindR (get (reader_of raw)) (\<lambda>(x, xr). bindR (expect_end xr) (\<lambda>_. Inr (x, r')))) = Inr (x, r') \<longleftrightarrow>
      (ok x \<and> length (enc x) \<le> unat m) \<and> consumes r (enc_var_bytes (enc x)) r'"
    by (auto simp: result_simps var_bytes_codec.get_iff parse_all_iff)
qed

text \<open>A count that is checked by the caller, followed by that many values.\<close>

lemma checked_count_iff:
  "bindR (get_u32 r) (\<lambda>(n, r). if bad n then make_error c s else get_loop get (unat n) [] r) = Inr (xs, r') \<longleftrightarrow>
     (length xs < 2 ^ 32 \<and> \<not> bad (of_nat (length xs)) \<and> list_all ok xs) \<and> consumes r (enc_counted enc xs) r'"
proof -
  have "length xs = unat n \<Longrightarrow> n = of_nat (length xs) \<and> length xs < 2 ^ 32" for n :: u32
    using unat_u32_less [of n] by simp
  moreover have "length xs < 2 ^ 32 \<Longrightarrow> length xs = unat (of_nat (length xs) :: u32)"
    by (simp add: unat_of_nat_less)
  ultimately show ?thesis
    by (auto simp: result_simps u32_codec.get_iff get_loop_iff enc_counted_def consumes_append)
qed

end

definition enc_block_entry :: "Block \<Rightarrow> bytes" where
  "enc_block_entry b = enc_var_bytes (enc_block b)"

definition enc_tx_entry :: "Transaction \<Rightarrow> bytes" where
  "enc_tx_entry tx = enc_var_bytes (enc_tx tx)"

definition storable_block :: "Block \<Rightarrow> bool" where
  "storable_block b \<longleftrightarrow> encodable_block b \<and> length (block_to_bytes b) \<le> 1048576"

definition storable_tx :: "Transaction \<Rightarrow> bool" where
  "storable_tx tx \<longleftrightarrow> encodable_tx tx \<and> length (tx_to_bytes tx) \<le> 65536"

interpretation block_entry_codec: codec enc_block_entry get_block storable_block
  using block_codec.nested_codec [of kMaxBlockSizeBytes]
  by (simp add: enc_block_entry_def [abs_def] get_block_def [abs_def] storable_block_def [abs_def] wire_simps
      kMaxBlockSizeBytes_def)

interpretation tx_entry_codec: codec enc_tx_entry get_transaction storable_tx
  using tx_codec.nested_codec [of kMaxTransactionSizeBytes]
  by (simp add: enc_tx_entry_def [abs_def] get_transaction_def [abs_def] storable_tx_def [abs_def] wire_simps
      kMaxTransactionSizeBytes_def)

definition ledger_body :: "u32 \<Rightarrow> LedgerData \<Rightarrow> bytes" where
  "ledger_body version ld =
     enc_u32 kLedgerMagic @ enc_u32 version @
     enc_u64 (block_subsidy (ld_params ld)) @ enc_u32 (coinbase_maturity (ld_params ld)) @
     enc_counted enc_block_entry (ld_blocks ld) @
     (if version = 2 then enc_counted enc_tx_entry (ld_mempool_transactions ld) else [])"

definition heights_from_zero :: "Block list \<Rightarrow> bool" where
  "heights_from_zero blocks \<longleftrightarrow> blocks \<noteq> [] \<and>
     (\<forall>i < length blocks. hdr_height (blk_header (blocks ! i)) = of_nat i)"

definition storable_ledger :: "LedgerData \<Rightarrow> bool" where
  "storable_ledger ld \<longleftrightarrow>
     heights_from_zero (ld_blocks ld) \<and> length (ld_blocks ld) \<le> 1000000 \<and>
     length (ld_mempool_transactions ld) \<le> 10000 \<and>
     list_all storable_block (ld_blocks ld) \<and> list_all storable_tx (ld_mempool_transactions ld)"

lemma ledger_checksum_dec: "ledger_checksum body = dec_u32 (take 4 (sha256 body))"
  by (simp add: ledger_checksum_def dec_u32_def Let_def mult.commute)

lemma with_ledger_checksum_eq: "with_ledger_checksum body = body @ enc_u32 (ledger_checksum body)"
  by (simp add: with_ledger_checksum_def wire_simps)

lemma validate_block_sequence_iff: "validate_block_sequence blocks = Inr () \<longleftrightarrow> heights_from_zero blocks"
proof -
  let ?h = "\<lambda>i. hdr_height (blk_header (blocks ! i))"
  have "(\<forall>i \<in> set [1..<length blocks]. ?h i = ?h (i - 1) + 1) \<longleftrightarrow> (\<forall>i < length blocks. ?h i = of_nat i)"
    if "blocks \<noteq> []" "?h 0 = 0"
  proof
    assume step: "\<forall>i \<in> set [1..<length blocks]. ?h i = ?h (i - 1) + 1"
    have "i < length blocks \<Longrightarrow> ?h i = of_nat i" for i
      by (induction i) (use that(2) step in auto)
    then show "\<forall>i < length blocks. ?h i = of_nat i" by blast
  next
    assume all: "\<forall>i < length blocks. ?h i = of_nat i"
    show "\<forall>i \<in> set [1..<length blocks]. ?h i = ?h (i - 1) + 1"
      using all by (auto simp: of_nat_diff)
  qed
  moreover have "foldR (\<lambda>_ i. if ?h i \<noteq> ?h (i - 1) + 1 then make_error c s else Inr ()) () xs = Inr () \<longleftrightarrow>
      (\<forall>i \<in> set xs. ?h i = ?h (i - 1) + 1)" for c s xs
    by (rule foldR_check) auto
  ultimately show ?thesis
    by (auto simp: validate_block_sequence_def heights_from_zero_def result_simps)
qed

lemma decode_blocks_iff:
  "decode_blocks r = Inr (bs, r') \<longleftrightarrow>
     (bs \<noteq> [] \<and> length bs \<le> 1000000 \<and> list_all storable_block bs) \<and>
     consumes r (enc_counted enc_block_entry bs) r'"
proof -
  have "length bs < 2 ^ 32 \<and> \<not> ((of_nat (length bs) :: u32) = 0 \<or> of_nat (length bs) > kMaxLedgerBlocks) \<longleftrightarrow>
      bs \<noteq> [] \<and> length bs \<le> 1000000"
    by (auto simp: word_less_nat_alt word_unat_eq_iff unat_of_nat_less kMaxLedgerBlocks_def)
  then show ?thesis unfolding decode_blocks_def block_entry_codec.checked_count_iff by blast
qed

lemma decode_mempool_iff:
  assumes "version = 1 \<or> version = 2"
  shows "decode_mempool version r = Inr (txs, r') \<longleftrightarrow>
    (length txs \<le> 10000 \<and> list_all storable_tx txs \<and> (version = 1 \<longrightarrow> txs = [])) \<and>
    consumes r (if version = 2 then enc_counted enc_tx_entry txs else []) r'"
proof -
  have "length txs < 2 ^ 32 \<and> \<not> (of_nat (length txs) :: u32) > kMaxLedgerMempoolTransactions \<longleftrightarrow> length txs \<le> 10000"
    by (auto simp: word_less_nat_alt unat_of_nat_less kMaxLedgerMempoolTransactions_def)
  then have "bindR (get_u32 r) (\<lambda>(n, r). if n > kMaxLedgerMempoolTransactions
        then make_error kStorageCorruption ''ledger mempool count out of range''
        else get_loop get_transaction (unat n) [] r) = Inr (txs, r') \<longleftrightarrow>
      (length txs \<le> 10000 \<and> list_all storable_tx txs) \<and> consumes r (enc_counted enc_tx_entry txs) r'"
    unfolding tx_entry_codec.checked_count_iff by blast
  moreover have "\<not> (2 :: u32) \<le> 1" by (simp add: word_le_nat_alt)
  ultimately show ?thesis using assms by (auto simp: decode_mempool_def kLedgerFormatVersion_def)
qed

lemma decode_ledger_body_reads:
  assumes "decode_ledger_body body = Inr ld"
  shows "\<exists>version \<in> {1, 2}. storable_ledger ld \<and> (version = 1 \<longrightarrow> ld_mempool_transactions ld = []) \<and>
    (\<exists>r. consumes (reader_of body) (ledger_body version ld) r \<and> at_end r)"
proof -
  let ?p = "ld_params ld" and ?start = "reader_of body"
  from assms obtain version r1 r2 r3 r4 r5 r6 where v: "version = 1 \<or> version = 2"
    and c: "consumes ?start (enc_u32 kLedgerMagic) r1"
    "consumes r1 (enc_u32 version) r2" "consumes r2 (enc_u64 (block_subsidy ?p)) r3"
    "consumes r3 (enc_u32 (coinbase_maturity ?p)) r4"
    and r: "decode_blocks r4 = Inr (ld_blocks ld, r5)"
    "decode_mempool version r5 = Inr (ld_mempool_transactions ld, r6)" "at_end r6"
    "validate_block_sequence (ld_blocks ld) = Inr ()"
    by (auto simp: decode_ledger_body_def result_simps codec_iffs kLedgerFormatVersion_def
        kLedgerFormatVersion1_def split: sum.splits if_splits) blast+
  have "consumes r4 (enc_counted enc_block_entry (ld_blocks ld)) r5"
    "consumes r5 (if version = 2 then enc_counted enc_tx_entry (ld_mempool_transactions ld) else []) r6"
    using r(1,2) unfolding decode_blocks_iff decode_mempool_iff [OF v] by blast+
  then have "consumes ?start (ledger_body version ld) r6"
    unfolding ledger_body_def by (intro consumes_trans [OF c(1)] consumes_trans [OF c(2)]
        consumes_trans [OF c(3)] consumes_trans [OF c(4)] consumes_trans [of r4 _ r5])
  moreover have "storable_ledger ld" "version = 1 \<longrightarrow> ld_mempool_transactions ld = []"
    using r by (simp_all add: decode_blocks_iff decode_mempool_iff [OF v] validate_block_sequence_iff storable_ledger_def)
  ultimately show ?thesis using v r(3) by blast
qed

lemma decode_ledger_body_accepts:
  assumes "version = 1 \<or> version = 2" and "storable_ledger ld" and "version = 1 \<longrightarrow> ld_mempool_transactions ld = []"
    and "consumes (reader_of body) (ledger_body version ld) r" and "at_end r"
  shows "decode_ledger_body body = Inr ld"
proof -
  let ?p = "ld_params ld" and ?start = "reader_of body"
  from assms(4) obtain r1 r2 r3 r4 r5 where cs: "consumes ?start (enc_u32 kLedgerMagic) r1"
    "consumes r1 (enc_u32 version) r2" "consumes r2 (enc_u64 (block_subsidy ?p)) r3"
    "consumes r3 (enc_u32 (coinbase_maturity ?p)) r4"
    "consumes r4 (enc_counted enc_block_entry (ld_blocks ld)) r5"
    "consumes r5 (if version = 2 then enc_counted enc_tx_entry (ld_mempool_transactions ld) else []) r"
    by (auto simp: ledger_body_def consumes_append)
  have "get_u32 ?start = Inr (kLedgerMagic, r1)" "get_u32 r1 = Inr (version, r2)"
    "get_u64 r2 = Inr (block_subsidy ?p, r3)" "get_u32 r3 = Inr (coinbase_maturity ?p, r4)"
    using cs by (simp_all add: codec_iffs)
  moreover have "decode_blocks r4 = Inr (ld_blocks ld, r5)"
    "decode_mempool version r5 = Inr (ld_mempool_transactions ld, r)"
    "validate_block_sequence (ld_blocks ld) = Inr ()"
    using cs assms(1-3)
    by (simp_all add: decode_blocks_iff decode_mempool_iff validate_block_sequence_iff storable_ledger_def
        heights_from_zero_def)
  moreover have "expect_end r = Inr ()" using assms(5) by (simp add: result_simps)
  ultimately show ?thesis
    using assms(1) by (auto simp: decode_ledger_body_def kLedgerFormatVersion_def kLedgerFormatVersion1_def)
qed

lemma decode_ledger_body_iff:
  "decode_ledger_body body = Inr ld \<longleftrightarrow> storable_ledger ld \<and>
     (\<exists>version \<in> {1, 2}. (version = 1 \<longrightarrow> ld_mempool_transactions ld = []) \<and> body = ledger_body version ld)"
proof -
  have "decode_ledger_body body = Inr ld \<longleftrightarrow>
      (\<exists>version \<in> {1, 2}. storable_ledger ld \<and> (version = 1 \<longrightarrow> ld_mempool_transactions ld = []) \<and>
        (\<exists>r. consumes (reader_of body) (ledger_body version ld) r \<and> at_end r))"
    using decode_ledger_body_reads [of body ld] decode_ledger_body_accepts [of _ ld body] by blast
  then show ?thesis by (auto simp: consumes_all_iff)
qed

lemma decode_ledger_split:
  "decode_ledger bytes = Inr ld \<longleftrightarrow> (\<exists>body. bytes = with_ledger_checksum body \<and> decode_ledger_body body = Inr ld)"
proof (cases "length bytes < 4")
  case True
  then show ?thesis by (auto simp: decode_ledger_def with_ledger_checksum_eq)
next
  case False
  let ?body = "take (length bytes - 4) bytes" and ?tail = "drop (length bytes - 4) bytes"
  have len: "length ?tail = 4" using False by simp
  have actual: "foldl (\<lambda>actual i. actual OR push_bit (8 * i) (ucast (bytes ! (length bytes - 4 + i)))) 0 [0..<4] =
      dec_u32 ?tail"
    using False by (simp add: dec_u32_def)
  have "bytes = with_ledger_checksum body \<longleftrightarrow> body = ?body \<and> dec_u32 ?tail = ledger_checksum body" for body
  proof
    assume "bytes = with_ledger_checksum body"
    then show "body = ?body \<and> dec_u32 ?tail = ledger_checksum body" by (simp add: with_ledger_checksum_eq)
  next
    assume "body = ?body \<and> dec_u32 ?tail = ledger_checksum body"
    then have "body @ enc_u32 (ledger_checksum body) = ?body @ ?tail" using enc_dec_u32 [OF len] by simp
    then show "bytes = with_ledger_checksum body" by (simp add: with_ledger_checksum_eq)
  qed
  with False actual show ?thesis by (auto simp: decode_ledger_def Let_def)
qed

text \<open>The encoder writes the version 2 body, or refuses what is too large.\<close>

lemma foldR_guard:
  "foldR (\<lambda>w x. if bad x then make_error c s else Inr (put x w)) w xs = Inr w' \<longleftrightarrow>
     list_all (\<lambda>x. \<not> bad x) xs \<and> w' = foldl (\<lambda>w x. put x w) w xs"
  by (induction xs arbitrary: w) auto

lemma put_entries_iff:
  "foldR (\<lambda>w b. put_block b w) w bs = Inr w' \<longleftrightarrow>
     list_all (\<lambda>b. length (block_to_bytes b) \<le> 1048576) bs \<and>
     w' = foldl (\<lambda>w b. put_var_bytes (block_to_bytes b) w) w bs"
  "foldR (\<lambda>w tx. put_transaction tx w) w txs = Inr w' \<longleftrightarrow>
     list_all (\<lambda>tx. length (tx_to_bytes tx) \<le> 65536) txs \<and>
     w' = foldl (\<lambda>w tx. put_var_bytes (tx_to_bytes tx) w) w txs"
  by (simp_all add: put_block_def put_transaction_def Let_def foldR_guard not_less
      kMaxBlockSizeBytes_def kMaxTransactionSizeBytes_def)

lemma encode_ledger_iff:
  "encode_ledger blocks params mempool = Inr bytes \<longleftrightarrow>
     length blocks \<le> 1000000 \<and> length mempool \<le> 10000 \<and>
     list_all (\<lambda>b. length (block_to_bytes b) \<le> 1048576) blocks \<and>
     list_all (\<lambda>tx. length (tx_to_bytes tx) \<le> 65536) mempool \<and>
     bytes = with_ledger_checksum (ledger_body 2
       \<lparr>ld_blocks = blocks, ld_params = params, ld_mempool_transactions = mempool\<rparr>)"
  by (auto simp: encode_ledger_def Let_def result_simps put_entries_iff ledger_body_def wire_simps
      enc_counted_def enc_block_entry_def [abs_def] enc_tx_entry_def [abs_def] kMaxLedgerBlocks_def kLedgerFormatVersion_def
      kMaxLedgerMempoolTransactions_def
      buffer_foldl_put [where put = "\<lambda>b. put_var_bytes (enc_block b)" and enc = "\<lambda>b. enc_var_bytes (enc_block b)"]
      buffer_foldl_put [where put = "\<lambda>tx. put_var_bytes (enc_tx tx)" and enc = "\<lambda>tx. enc_var_bytes (enc_tx tx)"])

section \<open>Replay\<close>

definition extend :: "Chain \<Rightarrow> Block \<Rightarrow> Chain Result" where
  "extend c b = (case submit_block b c None of (Inl e, _, _) \<Rightarrow> Inl e | (Inr _, c', _) \<Rightarrow> Inr c')"

lemma foldR_map: "foldR f s (map g xs) = foldR (\<lambda>s x. f s (g x)) s xs"
  by (induction xs arbitrary: s) auto

lemma replay_chain_eq:
  "replay_chain blocks params =
     bindR (validate_block_sequence blocks) (\<lambda>_.
     bindR (chain_create (blocks ! 0) params) (\<lambda>c. foldR extend c (tl blocks)))"
proof -
  have "map ((!) blocks) [1..<length blocks] = tl blocks"
    by (rule nth_equalityI) (auto simp: nth_tl)
  then have "foldR extend c (tl blocks) = foldR (\<lambda>c i. extend c (blocks ! i)) c [1..<length blocks]" for c
    using foldR_map [of extend c "(!) blocks" "[1..<length blocks]"] by simp
  then show ?thesis by (simp add: replay_chain_def extend_def [abs_def])
qed

lemma extend_ok: "extend c b = Inr c' \<longleftrightarrow> (\<exists>m fees m'. submit_block b c m = (Inr fees, c', m'))"
proof
  assume "extend c b = Inr c'"
  then show "\<exists>m fees m'. submit_block b c m = (Inr fees, c', m')"
    by (auto simp: extend_def split: prod.splits sum.splits)
next
  assume "\<exists>m fees m'. submit_block b c m = (Inr fees, c', m')"
  then have "\<exists>fees m'. submit_block b c None = (Inr fees, c', m')" by (auto simp: submit_block_ok)
  then show "extend c b = Inr c'" by (auto simp: extend_def)
qed

lemma extend_reachable:
  "reachable (chain_init params) chain_step (hs, c) \<Longrightarrow> foldR extend c bs = Inr c' \<Longrightarrow>
   reachable (chain_init params) chain_step (hs @ bs, c')"
proof (induction bs arbitrary: hs c)
  case (Cons b bs)
  then obtain c1 where "extend c b = Inr c1" and rest: "foldR extend c1 bs = Inr c'" by (auto simp: result_simps)
  then obtain m fees m' where "submit_block b c m = (Inr fees, c1, m')" by (auto simp: extend_ok)
  then have "chain_step (hs, c) (hs @ [b], c1)" by (rule chain_step.intros)
  with Cons.prems(1) have "reachable (chain_init params) chain_step (hs @ [b], c1)" by (rule reach_step)
  from Cons.IH [OF this rest] show ?case by simp
qed simp

lemma chain_inv_heights:
  assumes "chain_inv params (bs, c)"
  shows "heights_from_zero bs"
proof -
  let ?h = "\<lambda>i. unat (hdr_height (blk_header (bs ! i)))"
  have bs: "bs \<noteq> []" "linked bs" "length bs = unat (hdr_height (blk_header (last bs))) + 1"
    using assms by (auto simp: chain_inv_def chain_height_def)
  have step: "i < length bs \<Longrightarrow> ?h i = ?h 0 + i" for i
  proof (induction i)
    case (Suc i)
    from Suc.prems bs(2) have "links_to (blk_header (bs ! i)) (blk_header (bs ! Suc i))" by (simp add: linked_def)
    then have "?h (Suc i) = ?h i + 1" by (simp add: links_to_def)
    with Suc show ?case by simp
  qed simp
  have "unat (hdr_height (blk_header (last bs))) = length bs - 1" using bs(3) by linarith
  then have "?h (length bs - 1) = length bs - 1" by (simp only: last_conv_nth [OF bs(1)])
  moreover have "length bs - 1 < length bs" using bs(1) by simp
  ultimately have "?h 0 = 0" using step [of "length bs - 1"] by linarith
  have "hdr_height (blk_header (bs ! i)) = of_nat i" if "i < length bs" for i
  proof -
    have "?h i = i" using step [OF that] \<open>?h 0 = 0\<close> by linarith
    then have "of_nat (?h i) = (of_nat i :: u32)" by (rule arg_cong)
    then show ?thesis by simp
  qed
  with bs(1) show ?thesis by (simp add: heights_from_zero_def)
qed

lemma replay_chain_reachable:
  "replay_chain bs params = Inr c \<longleftrightarrow> reachable (chain_init params) chain_step (bs, c)"
proof
  assume r: "replay_chain bs params = Inr c"
  then obtain c0 where "bs \<noteq> []" "chain_create (bs ! 0) params = Inr c0" and rest: "foldR extend c0 (tl bs) = Inr c"
    by (auto simp: replay_chain_eq result_simps validate_block_sequence_iff heights_from_zero_def)
  then have "reachable (chain_init params) chain_step ([bs ! 0], c0)"
    by (intro reach_init) (simp add: chain_init_def)
  from extend_reachable [OF this rest] \<open>bs \<noteq> []\<close> show "reachable (chain_init params) chain_step (bs, c)"
    by (cases bs) simp_all
next
  assume "reachable (chain_init params) chain_step (bs, c)"
  then have "bs \<noteq> [] \<and> bindR (chain_create (bs ! 0) params) (\<lambda>c. foldR extend c (tl bs)) = Inr c"
  proof (induction "(bs, c)" arbitrary: bs c rule: reachable.induct)
    case reach_init
    then show ?case by (auto simp: chain_init_def)
  next
    case (reach_step s)
    obtain bs' c' where s: "s = (bs', c')" by fastforce
    from reach_step(3) obtain b where "bs = bs' @ [b]" "extend c' b = Inr c"
      by (auto simp: s extend_ok elim!: chain_stepE)
    with reach_step(2) [OF s] show ?case
      by (cases bs') (auto simp: result_simps foldR_append)
  qed
  moreover have "validate_block_sequence bs = Inr ()"
    using chain_inv_heights [OF chain_system.reachable_inv [OF \<open>reachable _ _ _\<close>]]
    by (simp add: validate_block_sequence_iff)
  ultimately show "replay_chain bs params = Inr c" by (simp add: replay_chain_eq)
qed

section \<open>Files\<close>

lemma ledger_paths_differ: "ledger_path dir \<noteq> ledger_temp_path dir"
  by (simp add: ledger_path_def ledger_temp_path_def join_path_def ledger_filename_def ledger_temp_filename_def)

lemma read_file_limit: "unat (ucast kMaxBlockSizeBytes * ucast kMaxLedgerBlocks + 1024 :: u64) = 1048576001024"
  by (simp add: kMaxBlockSizeBytes_def kMaxLedgerBlocks_def)

lemma save_ledger_ok:
  "save_ledger faults dir blocks params mempool fs = (Inr (), fs') \<longleftrightarrow>
     heights_from_zero blocks \<and> mkdir_error faults = None \<and> \<not> open_fails faults \<and> write_fails faults = None \<and>
     rename_error faults = None \<and>
     (\<exists>bytes. encode_ledger blocks params mempool = Inr bytes \<and>
       fs' = fs(ledger_path dir \<mapsto> bytes, ledger_temp_path dir := None))"
  using ledger_paths_differ [of dir] validate_block_sequence_iff [of blocks]
  by (auto simp: save_ledger_def create_directory_def write_file_atomic_def rename_file_def
      fun_upd_twist split: sum.splits option.splits if_splits)

lemma saved_ledger_loads:
  assumes "reachable (chain_init params) chain_step (blocks, c)"
    and "save_ledger faults dir blocks params mempool fs = (Inr (), fs')"
    and "list_all encodable_block blocks" "list_all encodable_tx mempool"
    and "\<not> read_fails faults'" "length (the (fs' (ledger_path dir))) \<le> 1048576001024"
  shows "load_ledger faults' fs' dir =
      Inr \<lparr>ld_blocks = blocks, ld_params = params, ld_mempool_transactions = mempool\<rparr> \<and>
    load_chain faults' fs' dir = Inr c"
proof -
  let ?ld = "\<lparr>ld_blocks = blocks, ld_params = params, ld_mempool_transactions = mempool\<rparr>"
  from assms(2) obtain bytes where bytes: "encode_ledger blocks params mempool = Inr bytes"
    and h: "heights_from_zero blocks" and fs': "fs' (ledger_path dir) = Some bytes"
    using ledger_paths_differ by (auto simp: save_ledger_ok)
  have "storable_ledger ?ld"
    using bytes h assms(3,4)
    by (auto simp: encode_ledger_iff storable_ledger_def list_all_iff storable_block_def storable_tx_def)
  then have "decode_ledger bytes = Inr ?ld"
    using bytes by (auto simp: encode_ledger_iff decode_ledger_split decode_ledger_body_iff)
  then have "load_ledger faults' fs' dir = Inr ?ld"
    using fs' assms(5,6) by (simp add: load_ledger_def read_file_def read_file_limit)
  with assms(1) show ?thesis by (simp add: load_chain_def replay_chain_reachable)
qed

section \<open>Properties\<close>

text \<open>C16. A ledger file is accepted exactly when it is the canonical encoding, with its checksum, of
  some ledger within the limits whose blocks have the heights 0, 1, 2 and so on: either in format
  2, or in format 1 and then without stored transactions. The decoded ledger is that ledger, so
  every truncated, extended or otherwise non-canonical file is refused.\<close>

theorem decode_ledger_iff:
  "decode_ledger bytes = Inr ld \<longleftrightarrow> storable_ledger ld \<and>
     (bytes = with_ledger_checksum (ledger_body 2 ld) \<or>
      ld_mempool_transactions ld = [] \<and> bytes = with_ledger_checksum (ledger_body 1 ld))"
  by (auto simp: decode_ledger_split decode_ledger_body_iff)

text \<open>Replaying a stored list of blocks yields a chain exactly when some run of the node, from its
  genesis block through successful submissions, produced these blocks, and then it yields the
  chain that run ended with.\<close>

lemma replay_restores_chain:
  "replay_chain blocks params = Inr c \<longleftrightarrow> reachable (chain_init params) chain_step (blocks, c)"
  by (rule replay_chain_reachable)



definition no_faults :: Faults where
  "no_faults = \<lparr>mkdir_error = None, open_fails = False, write_fails = None, rename_error = None, read_fails = False\<rparr>"

lemma example_encodable: "encodable_block example_genesis" "encodable_block example_block1"
  by (simp_all add: encodable_block_def example_genesis_def example_block1_def wf_header_def
      example_coinbase_def kMaxTransactionsPerBlock_def)

lemma example_lengths: "length (enc_block example_genesis) = 84" "length (enc_block example_block1) = 176"
  using length_block_to_bytes [of example_genesis] length_block_to_bytes [of example_block1] example_encodable
  by (simp_all add: encodable_block_def wire_simps)
    (simp_all add: example_genesis_def example_block1_def example_coinbase_def length_make_coinbase [unfolded wire_simps])


end
