(* ===== verification/Config_Json.thy ===== *)
theory Config_Json
  imports Config Ledger_Store
begin

text \<open>
  \<^verbatim>\<open>node/config_json.hpp\<close> and \<^verbatim>\<open>src/node/config_json.cpp\<close>: the JSON configuration file. The parser's
  position in its input is the suffix it has not consumed yet. The loop over the members of the
  object ends because every member consumes input.
\<close>

section \<open>The parser\<close>

datatype ConfigValue = ConfigString string | ConfigUint u64 | ConfigBool bool

definition kMaxConfigFileBytes :: nat where "kMaxConfigFileBytes = 64 * 1024"

definition json_parse_u64 :: "string \<Rightarrow> string \<Rightarrow> u64 Result" where
  "json_parse_u64 text label =
     (case from_chars 64 text of
        Some (v, []) \<Rightarrow> Inr (of_nat v)
      | _ \<Rightarrow> make_error kInvalidConfig (''invalid unsigned integer for '' @ label))"

definition json_peek :: "string \<Rightarrow> char Result" where
  "json_peek input =
     (case input of [] \<Rightarrow> make_error kInvalidConfig ''unexpected end of JSON input'' | c # _ \<Rightarrow> Inr c)"

definition json_consume :: "string \<Rightarrow> (char \<times> string) Result" where
  "json_consume input = bindR (json_peek input) (\<lambda>ch. Inr (ch, tl input))"

definition skip_ws :: "string \<Rightarrow> string" where
  "skip_ws input = dropWhile isspace input"

definition json_expect :: "char \<Rightarrow> string \<Rightarrow> string Result" where
  "json_expect expected input =
     bindR (json_consume input) (\<lambda>(ch, input).
     if ch \<noteq> expected
     then make_error kInvalidConfig (''expected '' @ [CHR 0x27, expected, CHR 0x27] @ '' in JSON config'')
     else Inr input)"

text \<open>The loop of \<^verbatim>\<open>parse_string\<close>, after the opening quote.\<close>

fun json_string_loop :: "string \<Rightarrow> string \<Rightarrow> (string \<times> string) Result" where
  "json_string_loop out [] = make_error kInvalidConfig ''unexpected end of JSON input''"
| "json_string_loop out (ch # input) =
     (if ch = CHR 0x22 then Inr (out, input)
      else if ch = CHR 0x5C then make_error kInvalidConfig ''JSON config strings may not use escapes''
      else json_string_loop (out @ [ch]) input)"

definition json_parse_string :: "string \<Rightarrow> (string \<times> string) Result" where
  "json_parse_string input = bindR (json_expect CHR 0x22 input) (json_string_loop [])"

definition json_parse_uint :: "string \<Rightarrow> (u64 \<times> string) Result" where
  "json_parse_uint input =
     (let input = skip_ws input
      in if input = [] then make_error kInvalidConfig ''expected JSON number''
         else if hd input = CHR ''-'' then make_error kInvalidConfig ''JSON config numbers must be unsigned''
         else
           let digits = takeWhile isdigit input; rest = dropWhile isdigit input
           in if digits = [] then make_error kInvalidConfig ''expected JSON number''
              else bindR (json_parse_u64 digits ''config'') (\<lambda>v. Inr (v, rest)))"

definition json_parse_bool :: "string \<Rightarrow> (bool \<times> string) Result" where
  "json_parse_bool input =
     (let input = skip_ws input
      in if take 4 input = ''true'' then Inr (True, drop 4 input)
         else if take 5 input = ''false'' then Inr (False, drop 5 input)
         else make_error kInvalidConfig ''expected JSON boolean'')"

definition json_parse_value :: "string \<Rightarrow> (ConfigValue \<times> string) Result" where
  "json_parse_value input =
     (let input = skip_ws input
      in if input = [] then make_error kInvalidConfig ''expected JSON value''
         else
           let ch = hd input
           in if ch = CHR 0x22
              then bindR (json_parse_string input) (\<lambda>(str, input). Inr (ConfigString str, input))
              else if ch = CHR ''t'' \<or> ch = CHR ''f''
              then bindR (json_parse_bool input) (\<lambda>(v, input). Inr (ConfigBool v, input))
              else if ch = CHR ''n''
              then (if take 4 input = ''null'' then Inr (ConfigString [], drop 4 input)
                    else make_error kInvalidConfig ''null is not a supported config value'')
              else if isdigit ch
              then bindR (json_parse_uint input) (\<lambda>(v, input). Inr (ConfigUint v, input))
              else make_error kInvalidConfig ''unsupported JSON value in config'')"

section \<open>Fields\<close>

definition is_ignored_key :: "string \<Rightarrow> bool" where
  "is_ignored_key key \<longleftrightarrow> key \<noteq> [] \<and> hd key = CHR ''_''"

definition unknown_key :: "string \<Rightarrow> 'a Result" where
  "unknown_key key = make_error kInvalidConfig (''unknown config key: '' @ [CHR 0x27] @ key @ [CHR 0x27])"

definition apply_string_field :: "NodeConfig \<Rightarrow> string \<Rightarrow> string \<Rightarrow> NodeConfig Result" where
  "apply_string_field config key value =
     (if key = ''node_id'' then Inr (config\<lparr>cfg_node_id := value\<rparr>)
      else if key = ''data_dir'' then Inr (config\<lparr>cfg_data_dir := value\<rparr>)
      else if key = ''log_level''
      then bindR (parse_log_level value) (\<lambda>level. Inr (config\<lparr>cfg_log_level := level\<rparr>))
      else if key = ''coinbase_recipient_hex'' then Inr (config\<lparr>cfg_coinbase_recipient_hex := value\<rparr>)
      else if key = ''listen_host'' then Inr (config\<lparr>cfg_listen_host := value\<rparr>)
      else if key = ''port_file'' then Inr (config\<lparr>cfg_port_file := value\<rparr>)
      else if key = ''network_mode''
      then bindR (parse_network_mode value) (\<lambda>mode. Inr (config\<lparr>cfg_network_mode := mode\<rparr>))
      else if key = ''peer''
      then (if value = [] then Inr (config\<lparr>cfg_peer_host := [], cfg_peer_port := 0\<rparr>)
            else bindR (parse_tcp_endpoint value) (\<lambda>endpoint.
                 Inr (config\<lparr>cfg_peer_host := ep_host endpoint, cfg_peer_port := ep_port endpoint\<rparr>)))
      else unknown_key key)"

definition apply_uint_field :: "NodeConfig \<Rightarrow> string \<Rightarrow> u64 \<Rightarrow> NodeConfig Result" where
  "apply_uint_field config key value =
     (if key = ''genesis_timestamp'' then Inr (config\<lparr>cfg_genesis_timestamp := value\<rparr>)
      else if key = ''block_subsidy'' then Inr (config\<lparr>cfg_block_subsidy := value\<rparr>)
      else if key = ''max_block_size_bytes'' then Inr (config\<lparr>cfg_max_block_size_bytes := ucast value\<rparr>)
      else if key = ''mine_blocks'' then Inr (config\<lparr>cfg_mine_blocks := ucast value\<rparr>)
      else if key = ''mine_after_tx'' then Inr (config\<lparr>cfg_mine_after_tx := ucast value\<rparr>)
      else if key = ''relay_max_sessions'' then Inr (config\<lparr>cfg_relay_max_sessions := ucast value\<rparr>)
      else if key = ''mempool_max_transactions'' then Inr (config\<lparr>cfg_mempool_max_transactions := ucast value\<rparr>)
      else if key = ''mempool_max_bytes'' then Inr (config\<lparr>cfg_mempool_max_bytes := value\<rparr>)
      else if key = ''min_relay_feerate'' then Inr (config\<lparr>cfg_min_relay_feerate := value\<rparr>)
      else if key = ''coinbase_maturity'' then Inr (config\<lparr>cfg_coinbase_maturity := ucast value\<rparr>)
      else if key = ''listen_port''
      then (if value > 0xFFFF then make_error kInvalidConfig ''listen_port out of range''
            else Inr (config\<lparr>cfg_listen_port := ucast value, cfg_listen_enabled := True\<rparr>))
      else unknown_key key)"

definition apply_bool_field :: "NodeConfig \<Rightarrow> string \<Rightarrow> bool \<Rightarrow> NodeConfig Result" where
  "apply_bool_field config key value =
     (if key = ''persist'' then Inr (config\<lparr>cfg_persist := value\<rparr>)
      else if key = ''restore'' then Inr (config\<lparr>cfg_restore := value\<rparr>)
      else unknown_key key)"

definition apply_config_field :: "NodeConfig \<Rightarrow> string \<Rightarrow> ConfigValue \<Rightarrow> NodeConfig Result" where
  "apply_config_field config key value =
     (if is_ignored_key key then Inr config
      else case value of
             ConfigString s \<Rightarrow> apply_string_field config key s
           | ConfigBool b \<Rightarrow> apply_bool_field config key b
           | ConfigUint n \<Rightarrow> apply_uint_field config key n)"

section \<open>The parser consumes its input\<close>

lemma json_consume_ok: "json_consume input = Inr (c, rest) \<longleftrightarrow> input = c # rest"
  by (cases input) (auto simp: json_consume_def json_peek_def)

lemma json_expect_ok: "json_expect c input = Inr rest \<longleftrightarrow> input = c # rest"
  by (auto simp: json_expect_def result_simps json_consume_ok)

lemma json_string_loop_ok:
  "json_string_loop out input = Inr (s, rest) \<longleftrightarrow>
     (\<exists>body. s = out @ body \<and> input = body @ CHR 0x22 # rest \<and> CHR 0x22 \<notin> set body \<and> CHR 0x5C \<notin> set body)"
proof (induction out input rule: json_string_loop.induct)
  case (2 out ch input)
  show ?case
  proof (cases "ch = CHR 0x22 \<or> ch = CHR 0x5C")
    case True
    have "(\<exists>body. s = out @ body \<and> ch # input = body @ CHR 0x22 # rest \<and> CHR 0x22 \<notin> set body \<and> CHR 0x5C \<notin> set body)
        \<longleftrightarrow> ch = CHR 0x22 \<and> s = out \<and> rest = input"
    proof
      assume "\<exists>body. s = out @ body \<and> ch # input = body @ CHR 0x22 # rest \<and> CHR 0x22 \<notin> set body \<and> CHR 0x5C \<notin> set body"
      then obtain body where b: "s = out @ body" "ch # input = body @ CHR 0x22 # rest"
        "CHR 0x22 \<notin> set body" "CHR 0x5C \<notin> set body" by blast
      then have "body = []" using True by (cases body) auto
      with b show "ch = CHR 0x22 \<and> s = out \<and> rest = input" by simp
    qed (auto intro: exI [of _ "[]"])
    with True show ?thesis by auto
  next
    case False
    then have "(\<exists>body. s = (out @ [ch]) @ body \<and> input = body @ CHR 0x22 # rest \<and> CHR 0x22 \<notin> set body \<and> CHR 0x5C \<notin> set body)
        \<longleftrightarrow> (\<exists>body. s = out @ body \<and> ch # input = body @ CHR 0x22 # rest \<and> CHR 0x22 \<notin> set body \<and> CHR 0x5C \<notin> set body)"
      by (auto simp: Cons_eq_append_conv)
    with 2 False show ?thesis by simp
  qed
qed simp

lemma json_parse_string_ok:
  "json_parse_string input = Inr (s, rest) \<longleftrightarrow>
     input = CHR 0x22 # s @ CHR 0x22 # rest \<and> CHR 0x22 \<notin> set s \<and> CHR 0x5C \<notin> set s"
  by (auto simp: json_parse_string_def result_simps json_expect_ok json_string_loop_ok)

lemma skip_ws_shorter: "length (skip_ws input) \<le> length input"
  by (simp add: skip_ws_def length_dropWhile_le)

lemma json_parse_value_shorter: "json_parse_value input = Inr (v, rest) \<Longrightarrow> length rest \<le> length input"
proof -
  assume a: "json_parse_value input = Inr (v, rest)"
  let ?i = "skip_ws input"
  have "skip_ws ?i = ?i" by (simp add: skip_ws_def dropWhile_idem)
  with a have "length rest \<le> length ?i"
    using length_dropWhile_le [of isdigit ?i]
    by (auto simp: json_parse_value_def Let_def result_simps json_parse_string_ok json_parse_bool_def
        json_parse_uint_def split: if_splits)
  with skip_ws_shorter [of input] show ?thesis by simp
qed

section \<open>Objects and files\<close>

text \<open>The loop over the members of the object.\<close>

function json_members :: "NodeConfig \<Rightarrow> string \<Rightarrow> (NodeConfig \<times> string) Result" where
  "json_members config input =
     bindR (json_parse_string input) (\<lambda>(key, input).
     bindR (json_expect CHR '':'' input) (\<lambda>input.
     bindR (json_parse_value input) (\<lambda>(value, input).
     bindR (apply_config_field config key value) (\<lambda>config.
     bindR (json_consume (skip_ws input)) (\<lambda>(sep, input).
     if sep = CHR ''}'' then Inr (config, input)
     else if sep \<noteq> CHR '','' then make_error kInvalidConfig (''expected '' @ [CHR 0x27, CHR '','', CHR 0x27] @
       '' or '' @ [CHR 0x27, CHR ''}'', CHR 0x27] @ '' in JSON config'')
     else json_members config (skip_ws input))))))"
  by pat_completeness auto
termination
proof (relation "measure (\<lambda>(config, input). length input)")
  fix config :: NodeConfig and input p key i1 i2 q v i3 config' r sep i4
  assume a: "json_parse_string input = Inr p" "(key, i1) = p" "json_expect CHR '':'' i1 = Inr i2"
    "json_parse_value i2 = Inr q" "(v, i3) = q" "json_consume (skip_ws i3) = Inr r" "(sep, i4) = r"
  have "length i3 \<le> length i2" using a(4,5) json_parse_value_shorter [of i2 v i3] by simp
  moreover have "skip_ws i3 = sep # i4" using a(6,7) json_consume_ok [of "skip_ws i3" sep i4] by simp
  moreover have "length (skip_ws i4) \<le> length i4" "length (skip_ws i3) \<le> length i3" by (rule skip_ws_shorter)+
  moreover have "length i2 < length input"
    using a(1-3) by (auto simp: json_parse_string_ok json_expect_ok)
  ultimately show "((config', skip_ws i4), config, input) \<in> measure (\<lambda>(config, input). length input)" by simp
qed simp

declare json_members.simps [simp del]

definition json_parse_object :: "NodeConfig \<Rightarrow> string \<Rightarrow> (NodeConfig \<times> string) Result" where
  "json_parse_object config input =
     bindR (json_expect CHR ''{'' input) (\<lambda>input.
     let input = skip_ws input
     in if json_peek input = Inr CHR ''}''
        then bindR (json_expect CHR ''}'' input) (\<lambda>input. Inr (config, input))
        else json_members config input)"

definition parse_config_json :: "string \<Rightarrow> NodeConfig Result" where
  "parse_config_json json =
     bindR (json_parse_object default_config json) (\<lambda>(config, input).
     if skip_ws input \<noteq> [] then make_error kInvalidConfig ''trailing data after JSON config object''
     else bindR (config_validate config) (\<lambda>_. Inr config))"

definition load_config_file :: "Faults \<Rightarrow> files \<Rightarrow> string \<Rightarrow> NodeConfig Result" where
  "load_config_file faults fs path =
     (case fs path of
        None \<Rightarrow> make_error kInvalidConfig (''cannot open config file: '' @ path)
      | Some bytes \<Rightarrow>
          if length bytes > kMaxConfigFileBytes
          then make_error kResourceLimitExceeded ''config file is too large''
          else if read_fails faults then make_error kInvalidConfig ''config file read failed''
          else parse_config_json (bytes_string bytes))"

section \<open>Rendered files\<close>

definition plain_text :: "string \<Rightarrow> bool" where
  "plain_text s \<longleftrightarrow> CHR 0x22 \<notin> set s \<and> CHR 0x5C \<notin> set s"

definition json_quote :: "string \<Rightarrow> string" where
  "json_quote s = CHR 0x22 # s @ [CHR 0x22]"

fun json_value :: "ConfigValue \<Rightarrow> string" where
  "json_value (ConfigString s) = json_quote s"
| "json_value (ConfigUint n) = to_string_nat (unat n)"
| "json_value (ConfigBool b) = (if b then ''true'' else ''false'')"

fun json_render_members :: "(string \<times> ConfigValue) list \<Rightarrow> string" where
  "json_render_members [] = ''}''"
| "json_render_members [(k, v)] = json_quote k @ '':'' @ json_value v @ ''}''"
| "json_render_members ((k, v) # m # ms) = json_quote k @ '':'' @ json_value v @ '','' @ json_render_members (m # ms)"

definition json_render :: "(string \<times> ConfigValue) list \<Rightarrow> string" where
  "json_render ms = CHR ''{'' # json_render_members ms"

definition plain_member :: "string \<times> ConfigValue \<Rightarrow> bool" where
  "plain_member m \<longleftrightarrow> plain_text (fst m) \<and> (case snd m of ConfigString s \<Rightarrow> plain_text s | _ \<Rightarrow> True)"

lemma takeWhile_digits:
  "list_all isdigit ds \<Longrightarrow> \<not> isdigit c \<Longrightarrow> takeWhile isdigit (ds @ c # rest) = ds \<and> dropWhile isdigit (ds @ c # rest) = c # rest"
  by (induction ds) auto

lemma json_parse_value_render:
  assumes "case v of ConfigString s \<Rightarrow> plain_text s | _ \<Rightarrow> True" and "c = CHR '','' \<or> c = CHR ''}''"
  shows "json_parse_value (json_value v @ c # rest) = Inr (v, c # rest)"
proof (cases v)
  case (ConfigString s)
  then show ?thesis
    using assms(1) json_parse_string_ok [of "json_quote s @ c # rest" s "c # rest"]
    by (simp add: json_parse_value_def skip_ws_def json_quote_def isspace_def plain_text_def)
next
  case (ConfigBool b)
  then show ?thesis
    by (simp add: json_parse_value_def json_parse_bool_def skip_ws_def isspace_def isdigit_def)
next
  case (ConfigUint n)
  let ?ds = "to_string_nat (unat n)"
  obtain d ds where ds: "?ds = d # ds" using to_string_nat_not_empty by (meson list.exhaust)
  have digits: "list_all isdigit ?ds" by (simp add: to_string_nat_digits)
  then have "isdigit d" by (simp add: ds)
  then have d: "\<not> isspace d" "d \<noteq> CHR 0x22" "d \<noteq> CHR ''t''" "d \<noteq> CHR ''f''" "d \<noteq> CHR ''n''" "d \<noteq> CHR ''-''"
    by (auto simp: isspace_def isdigit_def)
  have skip: "skip_ws (?ds @ c # rest) = ?ds @ c # rest" using d(1) by (simp add: skip_ws_def ds)
  have "\<not> isdigit c" using assms(2) by (auto simp: isdigit_def)
  note tw = takeWhile_digits [OF digits this, of rest]
  have "json_parse_u64 ?ds l = Inr n" for l
    using from_chars_to_string [of "unat n" 64] unat_u64_less [of n] by (simp add: json_parse_u64_def)
  then have "json_parse_uint (?ds @ c # rest) = Inr (n, c # rest)"
    using d(6) tw by (simp add: json_parse_uint_def skip Let_def) (simp add: ds)
  then show ?thesis
    using d \<open>isdigit d\<close> by (simp add: json_parse_value_def skip ConfigUint Let_def) (simp add: ds)
qed

lemma json_members_render:
  "ms \<noteq> [] \<Longrightarrow> list_all plain_member ms \<Longrightarrow>
   json_members config (json_render_members ms) =
     bindR (foldR (\<lambda>config (k, v). apply_config_field config k v) config ms) (\<lambda>config. Inr (config, []))"
proof (induction ms arbitrary: config rule: json_render_members.induct)
  case (2 k v)
  have str: "json_parse_string (json_quote k @ rest) = Inr (k, rest)" for rest
    using 2 by (simp add: json_parse_string_ok json_quote_def plain_member_def plain_text_def)
  have "json_parse_value (json_value v @ ''}'') = Inr (v, ''}'')"
    using 2 json_parse_value_render [of v "CHR ''}''" "[]"] by (simp add: plain_member_def)
  then show ?case
    by (cases "apply_config_field config k v")
      (simp_all add: json_members.simps str json_expect_ok [THEN iffD2] skip_ws_def isspace_def
        json_consume_ok [THEN iffD2])
next
  case (3 k v m ms)
  have str: "json_parse_string (json_quote k @ rest) = Inr (k, rest)" for rest
    using 3 by (simp add: json_parse_string_ok json_quote_def plain_member_def plain_text_def)
  have val: "json_parse_value (json_value v @ '','' @ rest) = Inr (v, '','' @ rest)" for rest
    using 3 json_parse_value_render [of v "CHR '',''" rest] by (simp add: plain_member_def)
  have skip: "skip_ws (json_render_members (m # ms)) = json_render_members (m # ms)"
    by (cases m; cases ms) (simp_all add: json_quote_def skip_ws_def isspace_def)
  from 3 val [of "json_render_members (m # ms)"] show ?case
    by (cases "apply_config_field config k v")
      (simp_all add: json_members.simps [of config] str json_expect_ok [THEN iffD2] skip_ws_def [of "CHR '','' # _"]
        isspace_def skip json_consume_ok [THEN iffD2])
qed simp

section \<open>Properties\<close>

text \<open>C38. A configuration file means what it says. Parsing the JSON text of a list of members, written
  with plain strings, applies them in order to the default configuration and then validates the
  result; the first member that does not fit its key, or an invalid result, is the error.\<close>

theorem parse_config_json_render:
  assumes "list_all plain_member ms"
  shows "parse_config_json (json_render ms) =
    bindR (foldR (\<lambda>config (k, v). apply_config_field config k v) default_config ms) (\<lambda>config.
    bindR (config_validate config) (\<lambda>_. Inr config))"
proof (cases ms)
  case Nil
  then show ?thesis
    by (simp add: parse_config_json_def json_parse_object_def json_render_def json_peek_def skip_ws_def
        isspace_def json_expect_ok [THEN iffD2])
next
  case (Cons m ms')
  let ?fold = "foldR (\<lambda>config (k, v). apply_config_field config k v) default_config ms"
  obtain k v where m: "m = (k, v)" by fastforce
  obtain rest where rest: "json_render_members ms = CHR 0x22 # rest"
    by (cases ms') (auto simp: Cons m json_quote_def)
  then have skip: "skip_ws (json_render_members ms) = json_render_members ms"
    by (simp add: skip_ws_def isspace_def)
  have "json_parse_object default_config (json_render ms) = bindR ?fold (\<lambda>config. Inr (config, []))"
  proof -
    have "ms \<noteq> []" by (simp add: Cons)
    moreover have "json_peek (json_render_members ms) \<noteq> Inr CHR ''}''" by (simp add: json_peek_def rest)
    ultimately show ?thesis
      using assms json_members_render [of ms default_config]
      by (simp add: json_parse_object_def json_render_def json_expect_ok [THEN iffD2] Let_def skip)
  qed
  then show ?thesis
    by (cases ?fold) (simp_all add: parse_config_json_def skip_ws_def)
qed

theorem parse_config_json_render_witness:
  "parse_config_json (json_render [(''node_id'', ConfigString ''n1''), (''mine_blocks'', ConfigUint 5)]) =
     Inr (default_config\<lparr>cfg_node_id := ''n1'', cfg_mine_blocks := 5\<rparr>)"
  using parse_config_json_render [of "[(''node_id'', ConfigString ''n1''), (''mine_blocks'', ConfigUint 5)]"]
  by (simp add: plain_member_def plain_text_def apply_config_field_def apply_string_field_def apply_uint_field_def
      is_ignored_key_def config_validate_def default_config_def)

end
