(* ===== verification/Command_Line.thy ===== *)
theory Command_Line
  imports Config_Json
begin

text \<open>
  The command line of \<^verbatim>\<open>src/node/config.cpp\<close>: \<^verbatim>\<open>parse_args\<close>. Its first loop looks for a configuration
  file, its second one applies the flags. The index of the loops is the list of arguments that are
  still to be read.
\<close>

section \<open>Operations\<close>

fun find_config_file :: "string list \<Rightarrow> string option \<Rightarrow> string option Result" where
  "find_config_file [] path = Inr path"
| "find_config_file [arg] path =
     (if arg = ''--config'' then make_error kInvalidConfig ''missing value for --config'' else Inr path)"
| "find_config_file (arg # value # args) path =
     (if arg = ''--config'' then find_config_file args (Some value)
      else find_config_file (value # args) path)"

text \<open>The flags with a value, and what each does with it.\<close>

definition valued_flags :: "string list" where
  "valued_flags =
     [''--node-id'', ''--data-dir'', ''--log-level'', ''--genesis-timestamp'', ''--max-block-size'',
      ''--mine-after-tx'', ''--relay-max-sessions'', ''--relay-blocks-after-tx'', ''--announce-tx-file'',
      ''--mempool-max-transactions'', ''--mempool-max-bytes'', ''--min-relay-feerate'', ''--mine-blocks'',
      ''--block-subsidy'', ''--coinbase-maturity'', ''--coinbase-recipient'', ''--listen-host'',
      ''--listen-port'', ''--port-file'', ''--network-mode'', ''--peer'']"

definition apply_flag :: "string \<Rightarrow> string \<Rightarrow> NodeConfig \<Rightarrow> NodeConfig Result" where
  "apply_flag arg value config =
     (if arg = ''--node-id'' then Inr (config\<lparr>cfg_node_id := value\<rparr>)
      else if arg = ''--data-dir'' then Inr (config\<lparr>cfg_data_dir := value\<rparr>)
      else if arg = ''--log-level''
      then bindR (parse_log_level value) (\<lambda>level. Inr (config\<lparr>cfg_log_level := level\<rparr>))
      else if arg = ''--genesis-timestamp''
      then bindR (parse_u64 value arg) (\<lambda>parsed. Inr (config\<lparr>cfg_genesis_timestamp := parsed\<rparr>))
      else if arg = ''--max-block-size''
      then bindR (parse_u64 value arg) (\<lambda>parsed. Inr (config\<lparr>cfg_max_block_size_bytes := ucast parsed\<rparr>))
      else if arg = ''--mine-after-tx''
      then bindR (parse_u32 value arg) (\<lambda>parsed. Inr (config\<lparr>cfg_mine_after_tx := parsed\<rparr>))
      else if arg = ''--relay-max-sessions''
      then bindR (parse_u32 value arg) (\<lambda>parsed. Inr (config\<lparr>cfg_relay_max_sessions := parsed\<rparr>))
      else if arg = ''--relay-blocks-after-tx''
      then bindR (parse_u32 value arg) (\<lambda>parsed. Inr (config\<lparr>cfg_relay_blocks_after_tx := parsed\<rparr>))
      else if arg = ''--announce-tx-file''
      then Inr (config\<lparr>cfg_announce_tx_files := cfg_announce_tx_files config @ [value]\<rparr>)
      else if arg = ''--mempool-max-transactions''
      then bindR (parse_u32 value arg) (\<lambda>parsed. Inr (config\<lparr>cfg_mempool_max_transactions := parsed\<rparr>))
      else if arg = ''--mempool-max-bytes''
      then bindR (parse_u64 value arg) (\<lambda>parsed. Inr (config\<lparr>cfg_mempool_max_bytes := parsed\<rparr>))
      else if arg = ''--min-relay-feerate''
      then bindR (parse_u64 value arg) (\<lambda>parsed. Inr (config\<lparr>cfg_min_relay_feerate := parsed\<rparr>))
      else if arg = ''--mine-blocks''
      then bindR (parse_u32 value arg) (\<lambda>parsed. Inr (config\<lparr>cfg_mine_blocks := parsed\<rparr>))
      else if arg = ''--block-subsidy''
      then bindR (parse_u64 value arg) (\<lambda>parsed. Inr (config\<lparr>cfg_block_subsidy := parsed\<rparr>))
      else if arg = ''--coinbase-maturity''
      then bindR (parse_u32 value arg) (\<lambda>parsed. Inr (config\<lparr>cfg_coinbase_maturity := parsed\<rparr>))
      else if arg = ''--coinbase-recipient'' then Inr (config\<lparr>cfg_coinbase_recipient_hex := value\<rparr>)
      else if arg = ''--listen-host'' then Inr (config\<lparr>cfg_listen_host := value\<rparr>)
      else if arg = ''--listen-port''
      then bindR (parse_u32 value arg) (\<lambda>parsed.
           Inr (config\<lparr>cfg_listen_port := ucast parsed, cfg_listen_enabled := True\<rparr>))
      else if arg = ''--port-file'' then Inr (config\<lparr>cfg_port_file := value\<rparr>)
      else if arg = ''--network-mode''
      then bindR (parse_network_mode value) (\<lambda>mode. Inr (config\<lparr>cfg_network_mode := mode\<rparr>))
      else bindR (parse_tcp_endpoint value) (\<lambda>endpoint.
           Inr (config\<lparr>cfg_peer_host := ep_host endpoint, cfg_peer_port := ep_port endpoint\<rparr>)))"

fun apply_flags :: "string list \<Rightarrow> NodeConfig \<Rightarrow> NodeConfig Result" where
  "apply_flags [] config = Inr config"
| "apply_flags (arg # args) config =
     (if arg = ''--help'' \<or> arg = ''-h'' then make_error kInvalidConfig ''help requested''
      else if arg = ''--config'' then apply_flags (drop 1 args) config
      else if arg = ''--persist'' then apply_flags args (config\<lparr>cfg_persist := True\<rparr>)
      else if arg = ''--restore'' then apply_flags args (config\<lparr>cfg_restore := True\<rparr>)
      else if arg \<in> set valued_flags
      then (case args of
              [] \<Rightarrow> make_error kInvalidConfig (''missing value for '' @ arg)
            | value # args \<Rightarrow> bindR (apply_flag arg value config) (apply_flags args))
      else make_error kInvalidConfig (''unknown argument: '' @ [CHR 0x27] @ arg @ [CHR 0x27]))"

definition parse_args :: "Faults \<Rightarrow> files \<Rightarrow> string list \<Rightarrow> NodeConfig Result" where
  "parse_args faults fs args =
     bindR (find_config_file args None) (\<lambda>config_file_path.
     bindR (case config_file_path of None \<Rightarrow> Inr default_config | Some path \<Rightarrow> load_config_file faults fs path)
       (\<lambda>config.
     bindR (apply_flags args config) (\<lambda>config.
     bindR (config_validate config) (\<lambda>_. Inr config))))"

section \<open>Errors\<close>

lemma fails_with_if: "fails_with C x \<Longrightarrow> fails_with C y \<Longrightarrow> fails_with C (if b then x else y)"
  by simp

lemmas config_error_intros = fails_with_if fails_with_bindR config_parsers_code fails_with_simps(1)

lemma apply_config_field_code [simp]: "fails_with {kInvalidConfig} (apply_config_field config key v)"
proof -
  have unknown: "fails_with {kInvalidConfig} (unknown_key key)" by (simp add: unknown_key_def)
  have "fails_with {kInvalidConfig} (apply_string_field config key s)" for s
    unfolding apply_string_field_def by (intro config_error_intros unknown)
  moreover have "fails_with {kInvalidConfig} (apply_uint_field config key n)" for n
    unfolding apply_uint_field_def by (intro config_error_intros unknown) simp
  moreover have "fails_with {kInvalidConfig} (apply_bool_field config key b)" for b
    unfolding apply_bool_field_def by (intro config_error_intros unknown)
  ultimately show ?thesis by (cases v) (simp_all add: apply_config_field_def)
qed

lemma apply_flag_code [simp]: "fails_with {kInvalidConfig} (apply_flag arg v config)"
  unfolding apply_flag_def by (intro config_error_intros)

lemma apply_flags_code [simp]: "fails_with {kInvalidConfig} (apply_flags args config)"
  by (induction args config rule: apply_flags.induct) (auto intro!: fails_with_bindR split: list.splits)

lemma find_config_file_code [simp]: "fails_with {kInvalidConfig} (find_config_file args path)"
  by (induction args path rule: find_config_file.induct) auto

lemma json_parse_u64_code [simp]: "fails_with {kInvalidConfig} (json_parse_u64 s l)"
  by (auto simp: json_parse_u64_def split: option.splits prod.splits list.splits)

lemma json_consume_code [simp]:
  "fails_with {kInvalidConfig} (json_consume input)" "fails_with {kInvalidConfig} (json_expect c input)"
  by (auto simp: json_consume_def json_expect_def json_peek_def split: list.splits intro!: fails_with_bindR)

lemma json_parse_string_code [simp]: "fails_with {kInvalidConfig} (json_parse_string input)"
proof -
  have "fails_with {kInvalidConfig} (json_string_loop out input)" for out input
    by (induction out input rule: json_string_loop.induct) auto
  then show ?thesis by (auto simp: json_parse_string_def intro!: fails_with_bindR)
qed

lemma json_parse_value_code [simp]: "fails_with {kInvalidConfig} (json_parse_value input)"
  by (auto simp: json_parse_value_def json_parse_bool_def json_parse_uint_def Let_def
      intro!: fails_with_bindR split: prod.splits)

lemma json_members_code [simp]: "fails_with {kInvalidConfig} (json_members config input)"
proof (induction config input rule: json_members.induct)
  case (1 config input)
  show ?case
    by (subst json_members.simps) (auto intro!: fails_with_bindR 1 split: prod.splits)
qed

lemma parse_config_json_code [simp]: "fails_with {kInvalidConfig} (parse_config_json json)"
  by (auto simp: parse_config_json_def json_parse_object_def Let_def intro!: fails_with_bindR split: prod.splits)

lemma load_config_file_code [simp]:
  "fails_with {kInvalidConfig, kResourceLimitExceeded} (load_config_file faults fs path)"
  by (auto simp: load_config_file_def intro!: fails_with_mono [OF parse_config_json_code] split: option.splits)

lemma parse_args_code: "fails_with {kInvalidConfig, kResourceLimitExceeded} (parse_args faults fs args)"
  unfolding parse_args_def
  by (intro fails_with_bindR fails_with_simps(1))
    (auto intro: fails_with_mono [OF find_config_file_code] fails_with_mono [OF apply_flags_code]
      fails_with_mono [OF config_parsers_code(5)] split: option.splits)

section \<open>Properties\<close>

text \<open>C39. Whatever the arguments and the files are, a command line is either refused, with an
  invalid-configuration code or because its configuration file is too large, or it yields a usable
  configuration: a node id, a data directory, a payout address that is empty or 64 hex digits, a
  server or a client role but not both, and at least one relay session.\<close>

theorem parse_args_result:
  "case parse_args faults fs args of
     Inl e \<Rightarrow> err_code e \<in> {kInvalidConfig, kResourceLimitExceeded}
   | Inr c \<Rightarrow> cfg_node_id c \<noteq> [] \<and> cfg_data_dir c \<noteq> [] \<and>
       (cfg_coinbase_recipient_hex c = [] \<or> is_ok (hash_from_hex (cfg_coinbase_recipient_hex c))) \<and>
       (cfg_peer_port c = 0 \<or> cfg_listen_enabled c = False) \<and> cfg_relay_max_sessions c \<noteq> 0"
proof (cases "parse_args faults fs args")
  case (Inl e)
  then show ?thesis using fails_withD [OF parse_args_code] by force
next
  case (Inr c)
  then have "config_validate c = Inr ()" by (auto simp: parse_args_def result_simps)
  with Inr show ?thesis by (auto simp: config_validate_iff valid_config_def)
qed

text \<open>A listening port on the command line is reduced modulo 65536 without an error, unlike the one of
  a configuration file.\<close>

theorem listen_port_flag_wraps:
  assumes "n < 2 ^ 32"
  shows "parse_args faults fs [''--listen-port'', to_string_nat n] =
      Inr (default_config\<lparr>cfg_listen_port := of_nat n, cfg_listen_enabled := True\<rparr>)"
proof -
  have "parse_u32 (to_string_nat n) flag = Inr (of_nat n)" for flag
    using assms to_string_nat_digits [of n] by (simp add: parse_u32_ok to_string_nat_not_empty)
  moreover have "(ucast (of_nat n :: u32) :: u16) = of_nat n"
    by (rule bit_word_eqI) (simp add: bit_simps)
  moreover have "to_string_nat n \<noteq> ''--config''"
    using to_string_nat_digits [of n] by (auto simp: isdigit_def)
  ultimately show ?thesis
    by (simp add: parse_args_def apply_flag_def valued_flags_def config_validate_def default_config_def)
qed

end
