(* ===== verification/Effects.thy ===== *)
theory Effects
  imports Prelude
begin

text \<open>
  Operations on a state that may fail and that may, in a loop, not return. The node's code
  threads a chain, a mempool, files and a socket through calls that return \<^verbatim>\<open>Result<T>\<close>, with
  \<^verbatim>\<open>if (auto ok = f(); !ok) return ok;\<close> after each; \<open>bind_op\<close> is that composition. A failed
  operation keeps the state it has reached. Not returning is the value \<open>None\<close>.

  \<open>keeps I op\<close> says that the operation, started where \<open>I\<close> holds, returns, and that \<open>I\<close> holds then,
  whether it succeeded or failed. \<open>preserves P op\<close> says the same without that the operation returns.
  The rules are collected in \<open>keeps_rules\<close> and \<open>preserves_rules\<close>.
\<close>

named_theorems keeps_rules \<open>operations that return and keep an invariant\<close>
named_theorems preserves_rules \<open>operations that, if they return, preserve a predicate\<close>
named_theorems op_simps \<open>running an operation\<close>

section \<open>Operations\<close>

type_synonym ('s, 'a) op = "'s \<Rightarrow> ('a Result \<times> 's) option"

definition ret :: "'a \<Rightarrow> ('s, 'a) op" where
  "ret x s = Some (Inr x, s)"

definition of_result :: "'a Result \<Rightarrow> ('s, 'a) op" where
  "of_result r s = Some (r, s)"

definition gets :: "('s \<Rightarrow> 'a) \<Rightarrow> ('s, 'a) op" where
  "gets f s = Some (Inr (f s), s)"

definition bind_op :: "('s, 'a) op \<Rightarrow> ('a \<Rightarrow> ('s, 'b) op) \<Rightarrow> ('s, 'b) op" where
  "bind_op op f s =
     (case op s of
        None \<Rightarrow> None
      | Some (Inl e, s') \<Rightarrow> Some (Inl e, s')
      | Some (Inr x, s') \<Rightarrow> f x s')"

text \<open>The result of an operation as a value, for code that looks at the error.\<close>

definition attempt :: "('s, 'a) op \<Rightarrow> ('s, 'a Result) op" where
  "attempt op s = map_option (\<lambda>(r, s'). (Inr r, s')) (op s)"

text \<open>An operation on a part of the state.\<close>

definition zoom :: "('s \<Rightarrow> 't) \<Rightarrow> ('t \<Rightarrow> 's \<Rightarrow> 's) \<Rightarrow> ('t, 'a) op \<Rightarrow> ('s, 'a) op" where
  "zoom get put op s = map_option (\<lambda>(r, t). (r, put t s)) (op (get s))"

text \<open>Loops over a list, and a given number of rounds.\<close>

fun each_op :: "('x \<Rightarrow> ('s, unit) op) \<Rightarrow> 'x list \<Rightarrow> ('s, unit) op" where
  "each_op f [] = ret ()"
| "each_op f (x # xs) = bind_op (f x) (\<lambda>_. each_op f xs)"

fun repeat_op :: "nat \<Rightarrow> ('s, unit) op \<Rightarrow> ('s, unit) op" where
  "repeat_op 0 op = ret ()"
| "repeat_op (Suc n) op = bind_op op (\<lambda>_. repeat_op n op)"

section \<open>Running operations\<close>

lemma run_ret [simp]: "ret x s = Some (Inr x, s)"
  by (simp add: ret_def)

lemma run_of_result [simp]: "of_result r s = Some (r, s)"
  by (simp add: of_result_def)

lemma run_gets [simp]: "gets f s = Some (Inr (f s), s)"
  by (simp add: gets_def)

lemma bind_of_result [simp]:
  "bind_op (of_result (Inr x)) f = f x" "bind_op (of_result (Inl e)) f = of_result (Inl e)"
  by (rule ext, simp add: bind_op_def)+

lemma bind_op_Inr [op_simps]:
  "bind_op op f s = Some (Inr y, s'') \<longleftrightarrow> (\<exists>x s'. op s = Some (Inr x, s') \<and> f x s' = Some (Inr y, s''))"
  by (auto simp: bind_op_def split: option.split sum.split)

lemma bind_op_run:
  "op s = Some (Inr x, s') \<Longrightarrow> bind_op op f s = f x s'"
  "op s = Some (Inl e, s') \<Longrightarrow> bind_op op f s = Some (Inl e, s')"
  by (simp_all add: bind_op_def)

lemma attempt_Some [op_simps]: "attempt op s = Some (r, s') \<longleftrightarrow> (\<exists>x. r = Inr x \<and> op s = Some (x, s'))"
  by (auto simp: attempt_def)

lemma zoom_Some [op_simps]:
  "zoom get put op s = Some (r, s') \<longleftrightarrow> (\<exists>t. op (get s) = Some (r, t) \<and> s' = put t s)"
  by (auto simp: zoom_def)

section \<open>Invariants of operations\<close>

definition keeps :: "('s \<Rightarrow> bool) \<Rightarrow> ('s, 'a) op \<Rightarrow> bool" where
  "keeps I op \<longleftrightarrow> (\<forall>s. I s \<longrightarrow> (\<exists>r s'. op s = Some (r, s') \<and> I s'))"

lemma keepsD: "keeps I op \<Longrightarrow> I s \<Longrightarrow> \<exists>r s'. op s = Some (r, s') \<and> I s'"
  by (simp add: keeps_def)

lemma keeps_after: "keeps I op \<Longrightarrow> I s \<Longrightarrow> op s = Some (r, s') \<Longrightarrow> I s'"
  by (force simp: keeps_def)

lemma keeps_simple [keeps_rules]: "keeps I (ret x)" "keeps I (of_result r)" "keeps I (gets f)"
  by (simp_all add: keeps_def)

lemma keeps_bind [keeps_rules]:
  assumes "keeps I op" and "\<And>x. keeps I (f x)"
  shows "keeps I (bind_op op f)"
  unfolding keeps_def
proof (intro allI impI)
  fix s
  assume "I s"
  with assms(1) obtain r s' where op: "op s = Some (r, s')" and "I s'" by (auto simp: keeps_def)
  show "\<exists>r s'. bind_op op f s = Some (r, s') \<and> I s'"
  proof (cases r)
    case (Inl e)
    with op \<open>I s'\<close> show ?thesis by (simp add: bind_op_run)
  next
    case (Inr x)
    with op assms(2) [of x] \<open>I s'\<close> show ?thesis by (simp add: bind_op_run keeps_def)
  qed
qed

lemma keeps_bind_result:
  "(\<And>x. r = Inr x \<Longrightarrow> keeps I (f x)) \<Longrightarrow> keeps I (bind_op (of_result r) f)"
  by (cases r) (simp_all add: keeps_simple)

lemma keeps_attempt [keeps_rules]: "keeps I op \<Longrightarrow> keeps I (attempt op)"
  by (fastforce simp: keeps_def attempt_def)

lemma keeps_each [keeps_rules]: "(\<And>x. x \<in> set xs \<Longrightarrow> keeps I (f x)) \<Longrightarrow> keeps I (each_op f xs)"
  by (induction xs) (auto intro!: keeps_rules)

lemma keeps_repeat [keeps_rules]: "keeps I op \<Longrightarrow> keeps I (repeat_op n op)"
  by (induction n) (auto intro!: keeps_rules)

lemma keeps_cases [keeps_rules]:
  "(c \<Longrightarrow> keeps I f) \<Longrightarrow> (\<not> c \<Longrightarrow> keeps I g) \<Longrightarrow> keeps I (if c then f else g)"
  "(\<And>e. r = Inl e \<Longrightarrow> keeps I (h e)) \<Longrightarrow> (\<And>x. r = Inr x \<Longrightarrow> keeps I (k x)) \<Longrightarrow> keeps I (case r of Inl e \<Rightarrow> h e | Inr x \<Rightarrow> k x)"
  "(x = None \<Longrightarrow> keeps I f) \<Longrightarrow> (\<And>y. x = Some y \<Longrightarrow> keeps I (m y)) \<Longrightarrow> keeps I (case x of None \<Rightarrow> f | Some y \<Rightarrow> m y)"
  by (auto split: sum.split option.split)

text \<open>An operation on a part keeps what that part promises; one on another part does not matter.\<close>

lemma keeps_zoom:
  "keeps J op \<Longrightarrow> (\<And>s t. I s \<Longrightarrow> J (get s)) \<Longrightarrow> (\<And>s t. I s \<Longrightarrow> J t \<Longrightarrow> I (put t s)) \<Longrightarrow>
     keeps I (zoom get put op)"
  by (fastforce simp: keeps_def zoom_def)

section \<open>Predicates that operations preserve\<close>

definition preserves :: "('s \<Rightarrow> bool) \<Rightarrow> ('s, 'a) op \<Rightarrow> bool" where
  "preserves P op \<longleftrightarrow> (\<forall>s r s'. P s \<longrightarrow> op s = Some (r, s') \<longrightarrow> P s')"

lemma preservesD: "preserves P op \<Longrightarrow> P s \<Longrightarrow> op s = Some (r, s') \<Longrightarrow> P s'"
  by (auto simp: preserves_def)

lemma preserves_simple [preserves_rules]: "preserves P (ret x)" "preserves P (of_result r)" "preserves P (gets f)"
  by (simp_all add: preserves_def)

lemma preserves_bind [preserves_rules]:
  assumes "preserves P op" and "\<And>x. preserves P (f x)"
  shows "preserves P (bind_op op f)"
  unfolding preserves_def
proof (intro allI impI)
  fix s r s''
  assume "P s" and run: "bind_op op f s = Some (r, s'')"
  then obtain r' s' where op: "op s = Some (r', s')" by (auto simp: bind_op_def split: option.splits)
  with \<open>P s\<close> have "P s'" by (rule preservesD [OF assms(1)])
  show "P s''"
  proof (cases r')
    case (Inl e)
    with op run \<open>P s'\<close> show ?thesis by (simp add: bind_op_run)
  next
    case (Inr x)
    with op run have "f x s' = Some (r, s'')" by (simp add: bind_op_run)
    with \<open>P s'\<close> show ?thesis by (rule preservesD [OF assms(2)])
  qed
qed

lemma preserves_attempt [preserves_rules]: "preserves P op \<Longrightarrow> preserves P (attempt op)"
  by (fastforce simp: preserves_def attempt_def)

lemma preserves_each [preserves_rules]: "(\<And>x. x \<in> set xs \<Longrightarrow> preserves P (f x)) \<Longrightarrow> preserves P (each_op f xs)"
  by (induction xs) (auto intro!: preserves_rules)

lemma preserves_repeat [preserves_rules]: "preserves P op \<Longrightarrow> preserves P (repeat_op n op)"
  by (induction n) (auto intro!: preserves_rules)

lemma preserves_cases [preserves_rules]:
  "(c \<Longrightarrow> preserves P f) \<Longrightarrow> (\<not> c \<Longrightarrow> preserves P g) \<Longrightarrow> preserves P (if c then f else g)"
  "(\<And>e. r = Inl e \<Longrightarrow> preserves P (h e)) \<Longrightarrow> (\<And>x. r = Inr x \<Longrightarrow> preserves P (k x)) \<Longrightarrow>
     preserves P (case r of Inl e \<Rightarrow> h e | Inr x \<Rightarrow> k x)"
  "(x = None \<Longrightarrow> preserves P f) \<Longrightarrow> (\<And>y. x = Some y \<Longrightarrow> preserves P (m y)) \<Longrightarrow>
     preserves P (case x of None \<Rightarrow> f | Some y \<Rightarrow> m y)"
  by (auto split: sum.split option.split)

lemma preserves_zoom:
  "preserves Q op \<Longrightarrow> (\<And>s. P s \<Longrightarrow> Q (get s)) \<Longrightarrow> (\<And>s t. P s \<Longrightarrow> Q t \<Longrightarrow> P (put t s)) \<Longrightarrow>
     preserves P (zoom get put op)"
  by (fastforce simp: preserves_def zoom_def)

end
