(* ===== verification/Peer_State.thy ===== *)
theory Peer_State
  imports Node_Params Socket_IO
begin

text \<open>
  The relay node of \<^verbatim>\<open>src/node/peer_state.cpp\<close>: a chain, a mempool and a catalog of the chain's
  blocks by height, bootstrapped from a configuration or from the ledger file, and changed by the
  messages of a peer. Its operations act on the node (its state and the files); handling a message
  acts on a session (the node and the socket of the peer). The system call \<^verbatim>\<open>send\<close> is an argument,
  and so is what the file system refuses while the operation runs.
\<close>

section \<open>State\<close>

record PeerState =
  ps_chain :: Chain
  ps_mempool :: Mempool
  ps_mempool_policy :: MempoolPolicy
  ps_node_id :: string
  ps_genesis_timestamp :: u64
  ps_consensus :: ConsensusParams
  ps_tmpl_params :: BlockTemplateParams
  ps_data_dir :: string
  ps_persist :: bool
  ps_mine_after_tx :: u32
  ps_catalog :: "(u32, Block) std_map"

record Node =
  nd_state :: PeerState
  nd_files :: files

record 'os Session =
  ss_node :: Node
  ss_socket :: "'os TcpSocket"

section \<open>Operations on the node\<close>

definition parse_block_bytes :: "bytes \<Rightarrow> Block Result" where
  "parse_block_bytes bytes =
     bindR (block_deserialize (reader_of bytes)) (\<lambda>(block, reader).
     bindR (expect_end reader) (\<lambda>_. Inr block))"

definition parse_transaction_bytes :: "bytes \<Rightarrow> Transaction Result" where
  "parse_transaction_bytes bytes =
     bindR (tx_deserialize (reader_of bytes)) (\<lambda>(tx, reader).
     bindR (expect_end reader) (\<lambda>_. Inr tx))"

definition new_peer_state ::
    "Chain \<Rightarrow> Mempool \<Rightarrow> MempoolPolicy \<Rightarrow> string \<Rightarrow> u64 \<Rightarrow> ConsensusParams \<Rightarrow> BlockTemplateParams \<Rightarrow>
     string \<Rightarrow> bool \<Rightarrow> u32 \<Rightarrow> PeerState" where
  "new_peer_state chain mempool mempool_policy node_id genesis_timestamp consensus tmpl_params data_dir
       persist mine_after_tx =
     \<lparr>ps_chain = chain, ps_mempool = mempool, ps_mempool_policy = mempool_policy, ps_node_id = node_id,
      ps_genesis_timestamp = genesis_timestamp, ps_consensus = consensus, ps_tmpl_params = tmpl_params,
      ps_data_dir = data_dir, ps_persist = persist, ps_mine_after_tx = mine_after_tx, ps_catalog = []\<rparr>"

definition local_handshake :: "PeerState \<Rightarrow> HandshakePayload" where
  "local_handshake st =
     \<lparr>hs_network_magic = kNetworkMagic, hs_height = chain_height (ps_chain st),
      hs_tip_hash = chain_tip_hash (ps_chain st), hs_node_id = ps_node_id st\<rparr>"

definition store_block :: "u32 \<Rightarrow> Block \<Rightarrow> PeerState \<Rightarrow> PeerState" where
  "store_block height block st = st\<lparr>ps_catalog := map_assign (<) height block (ps_catalog st)\<rparr>"

definition peer_mempool_contains :: "Hash256 \<Rightarrow> PeerState \<Rightarrow> bool" where
  "peer_mempool_contains txid st = mempool_contains txid (ps_mempool st)"

definition block_at_height :: "u32 \<Rightarrow> PeerState \<Rightarrow> Block option" where
  "block_at_height height st = map_find (<) height (ps_catalog st)"

definition peer_ledger_blocks :: "PeerState \<Rightarrow> Block list" where
  "peer_ledger_blocks st = map (\<lambda>(height, block). block) (ps_catalog st)"

definition peer_save_ledger :: "Faults \<Rightarrow> (Node, unit) op" where
  "peer_save_ledger faults nd =
     (let st = nd_state nd;
          (r, fs) = save_ledger faults (ps_data_dir st) (peer_ledger_blocks st) (ps_consensus st)
                      (sorted_transactions (ps_mempool st)) (nd_files nd)
      in Some (r, nd\<lparr>nd_files := fs\<rparr>))"

definition persist_ledger :: "Faults \<Rightarrow> (Node, unit) op" where
  "persist_ledger faults nd =
     (if \<not> ps_persist (nd_state nd) then Some (Inr (), nd) else peer_save_ledger faults nd)"

definition peer_connect_block :: "Block \<Rightarrow> (Node, unit) op" where
  "peer_connect_block block nd =
     (let st = nd_state nd
      in case submit_block block (ps_chain st) (Some (ps_mempool st)) of
           (r, chain, mempool) \<Rightarrow>
             let st = st\<lparr>ps_chain := chain, ps_mempool := the mempool\<rparr>
             in case r of
                  Inl e \<Rightarrow> Some (Inl e, nd\<lparr>nd_state := st\<rparr>)
                | Inr fees \<Rightarrow> Some (Inr (), nd\<lparr>nd_state := store_block (chain_height chain) block st\<rparr>))"

text \<open>One round of \<^verbatim>\<open>mine_blocks\<close>, and its loop.\<close>

definition mine_one :: "(Node, unit) op" where
  "mine_one nd =
     (let st = nd_state nd;
          timestamp = block_timestamp (ps_genesis_timestamp st) (chain_height (ps_chain st) + 1)
      in case build_block_template (ch_tip (ps_chain st)) timestamp (ps_mempool st)
                (ch_utxos (ps_chain st)) (ps_tmpl_params st) of
           Inl e \<Rightarrow> Some (Inl e, nd)
         | Inr tmpl \<Rightarrow> peer_connect_block (bt_block tmpl) nd)"

definition peer_mine_blocks :: "Faults \<Rightarrow> u32 \<Rightarrow> (Node, unit) op" where
  "peer_mine_blocks faults n = bind_op (repeat_op (unat n) mine_one) (\<lambda>_. persist_ledger faults)"

definition accept_transaction :: "Transaction \<Rightarrow> (Node, unit) op" where
  "accept_transaction tx nd =
     (let st = nd_state nd
      in case mempool_accept tx (ch_utxos (ps_chain st)) (ps_mempool_policy st) (ps_mempool st) of
           None \<Rightarrow> None
         | Some (r, mempool) \<Rightarrow> Some (r, nd\<lparr>nd_state := st\<lparr>ps_mempool := mempool\<rparr>\<rparr>))"

definition on_tx_announce :: "Faults \<Rightarrow> bytes \<Rightarrow> (Node, unit) op" where
  "on_tx_announce faults payload_bytes =
     bind_op (of_result (deserialize_tx_announce payload_bytes)) (\<lambda>parsed.
     bind_op (of_result (parse_transaction_bytes (tx_bytes parsed))) (\<lambda>tx.
     bind_op (accept_transaction tx) (\<lambda>_.
     bind_op (gets (\<lambda>nd. ps_mine_after_tx (nd_state nd))) (\<lambda>mine_after_tx.
     if mine_after_tx > 0 then peer_mine_blocks faults mine_after_tx else ret ()))))"

definition on_block_announce :: "Faults \<Rightarrow> bytes \<Rightarrow> (Node, unit) op" where
  "on_block_announce faults payload_bytes =
     bind_op (of_result (deserialize_block_announce payload_bytes)) (\<lambda>parsed.
     bind_op (of_result (parse_block_bytes (block_bytes parsed))) (\<lambda>block.
     bind_op (peer_connect_block block) (\<lambda>_. persist_ledger faults)))"

definition on_block_response :: "Faults \<Rightarrow> bytes \<Rightarrow> (Node, unit) op" where
  "on_block_response faults payload_bytes = on_block_announce faults payload_bytes"

section \<open>Bootstrapping\<close>

definition accept_stored :: "Transaction \<Rightarrow> (Node, unit) op" where
  "accept_stored tx =
     bind_op (attempt (accept_transaction tx)) (\<lambda>ok.
     case ok of
       Inl e \<Rightarrow> of_result (make_error kStorageCorruption
                  (''stored mempool transaction failed re-validation: '' @ err_message e))
     | Inr _ \<Rightarrow> ret ())"

text \<open>The node that is being built and the files, as a state and its result.\<close>

definition build_node :: "PeerState \<Rightarrow> (Node, unit) op \<Rightarrow> (files, PeerState) op" where
  "build_node st op fs =
     map_option (\<lambda>(r, nd). (bindR r (\<lambda>_. Inr (nd_state nd)), nd_files nd)) (op \<lparr>nd_state = st, nd_files = fs\<rparr>)"

definition from_config :: "Faults \<Rightarrow> NodeConfig \<Rightarrow> (files, PeerState) op" where
  "from_config faults config fs =
     (let consensus = build_consensus_params config
      in case resolve_coinbase_recipient config of
           Inl e \<Rightarrow> Some (Inl e, fs)
         | Inr recipient \<Rightarrow>
      let tmpl_params = build_template_params config consensus recipient;
          pool = new_mempool (resolved_mempool_limits config);
          state = (\<lambda>chain. new_peer_state chain pool (resolved_mempool_policy config) (cfg_node_id config)
                    (cfg_genesis_timestamp config) consensus tmpl_params (cfg_data_dir config)
                    (cfg_persist config) (cfg_mine_after_tx config))
      in if cfg_restore config
         then if \<not> ledger_exists fs (cfg_data_dir config)
              then Some (make_error kInvalidConfig ''no ledger found in data_dir for --restore'', fs)
              else case load_chain faults fs (cfg_data_dir config) of
                     Inl e \<Rightarrow> Some (Inl e, fs)
                   | Inr chain \<Rightarrow>
                       (case load_ledger faults fs (cfg_data_dir config) of
                          Inl e \<Rightarrow> Some (Inl e, fs)
                        | Inr ledger \<Rightarrow>
                            build_node
                              (foldl (\<lambda>st block. store_block (hdr_height (blk_header block)) block st)
                                 (state chain) (ld_blocks ledger))
                              (each_op accept_stored (ld_mempool_transactions ledger)) fs)
         else let genesis = build_genesis_block config
              in case chain_create genesis consensus of
                   Inl e \<Rightarrow> Some (Inl e, fs)
                 | Inr chain \<Rightarrow>
                     build_node (store_block 0 genesis (state chain))
                       (bind_op (peer_mine_blocks faults (cfg_mine_blocks config)) (\<lambda>_.
                        if cfg_persist config then persist_ledger faults else ret ())) fs)"

section \<open>Operations on a session\<close>

abbreviation (input) on_node :: "(Node, 'a) op \<Rightarrow> ('os Session, 'a) op" where
  "on_node op \<equiv> zoom ss_node (\<lambda>nd s. s\<lparr>ss_node := nd\<rparr>) op"

abbreviation (input) on_socket :: "('os TcpSocket \<Rightarrow> 'a Result \<times> 'os TcpSocket) \<Rightarrow> ('os Session, 'a) op" where
  "on_socket f \<equiv> zoom ss_socket (\<lambda>sock s. s\<lparr>ss_socket := sock\<rparr>) (\<lambda>sock. Some (f sock))"

definition send_reject :: "'os send_call \<Rightarrow> RejectCode \<Rightarrow> string \<Rightarrow> ('os Session, unit) op" where
  "send_reject send code reason =
     bind_op (of_result (make_reject_message \<lparr>rj_code = code, rj_reason = reason\<rparr>)) (\<lambda>msg.
     on_socket (send_message send msg))"

definition on_block_request :: "'os send_call \<Rightarrow> BlockRequestPayload \<Rightarrow> ('os Session, unit) op" where
  "on_block_request send request =
     bind_op (gets (\<lambda>s. block_at_height (br_height request) (nd_state (ss_node s)))) (\<lambda>found.
     case found of
       None \<Rightarrow> send_reject send RejectCode_kInvalidMessage ''unknown block height''
     | Some block \<Rightarrow>
         bind_op (of_result (make_block_response_message \<lparr>block_bytes = block_to_bytes block\<rparr>)) (\<lambda>msg.
         on_socket (send_message send msg)))"

definition handle_message :: "'os send_call \<Rightarrow> Faults \<Rightarrow> P2pMessage \<Rightarrow> ('os Session, unit) op" where
  "handle_message send faults message =
     (case msg_type message of
        kTxAnnounce \<Rightarrow>
          bind_op (of_result (parse_tx_announce_message message)) (\<lambda>_.
          bind_op (attempt (on_node (on_tx_announce faults (msg_payload message)))) (\<lambda>ok.
          case ok of
            Inl e \<Rightarrow> bind_op (send_reject send RejectCode_kInvalidMessage (err_message e)) (\<lambda>_. of_result (Inl e))
          | Inr _ \<Rightarrow> ret ()))
      | kBlockAnnounce \<Rightarrow>
          bind_op (of_result (parse_block_announce_message message)) (\<lambda>_.
          on_node (on_block_announce faults (msg_payload message)))
      | kBlockRequest \<Rightarrow>
          bind_op (of_result (parse_block_request_message message)) (\<lambda>parsed. on_block_request send parsed)
      | kBlockResponse \<Rightarrow>
          bind_op (of_result (parse_block_response_message message)) (\<lambda>_.
          on_node (on_block_response faults (msg_payload message)))
      | kPing \<Rightarrow>
          bind_op (of_result (parse_ping_message message)) (\<lambda>ping.
          bind_op (of_result (make_pong_message \<lparr>nonce = nonce ping\<rparr>)) (\<lambda>pong.
          on_socket (send_message send pong)))
      | kPong \<Rightarrow> ret ()
      | _ \<Rightarrow>
          bind_op (send_reject send RejectCode_kInvalidMessage ''unsupported message type'') (\<lambda>_.
          of_result (make_error kInvalidMessage ''unsupported message type'')))"

section \<open>The invariant of a node\<close>

interpretation height_less: comparator "(<) :: u32 \<Rightarrow> u32 \<Rightarrow> bool"
  by unfold_locales auto

context comparator
begin

lemma map_assign_last: "\<forall>k' \<in> fst ` set m. lt k' k \<Longrightarrow> map_assign lt k v m = m @ [(k, v)]"
  by (induction m) (auto dest: lt_asym)

end

definition peer_ok :: "PeerState \<Rightarrow> bool" where
  "peer_ok st \<longleftrightarrow>
     map fst (ps_catalog st) = map of_nat [0..<length (ps_catalog st)] \<and>
     reachable (chain_init (ch_params (ps_chain st))) chain_step (peer_ledger_blocks st, ps_chain st) \<and>
     list_all encodable_block (peer_ledger_blocks st) \<and>
     mempool_ok (ps_mempool st) \<and> (\<forall>tx \<in> pool_txs (ps_mempool st). encodable_tx tx) \<and>
     wf_hash (bt_coinbase_recipient (ps_tmpl_params st))"

text \<open>What never changes in the life of a node, and what only grows.\<close>

definition grows :: "PeerState \<Rightarrow> PeerState \<Rightarrow> bool" where
  "grows st st' \<longleftrightarrow>
     st' = st\<lparr>ps_chain := ps_chain st', ps_mempool := ps_mempool st', ps_catalog := ps_catalog st'\<rparr> \<and>
     ch_params (ps_chain st') = ch_params (ps_chain st) \<and>
     mp_limits (ps_mempool st') = mp_limits (ps_mempool st) \<and>
     prefix (peer_ledger_blocks st) (peer_ledger_blocks st')"

definition node_inv :: "PeerState \<Rightarrow> Node \<Rightarrow> bool" where
  "node_inv st nd \<longleftrightarrow> peer_ok (nd_state nd) \<and> grows st (nd_state nd)"

lemma grows_refl [simp]: "grows st st"
  by (simp add: grows_def)

lemma grows_trans: "grows st st' \<Longrightarrow> grows st' st'' \<Longrightarrow> grows st st''"
  by (cases st; cases st'; cases st'') (auto simp: grows_def)

lemma peer_blocks_simps [simp]:
  "length (peer_ledger_blocks st) = length (ps_catalog st)"
  "peer_ledger_blocks (st\<lparr>ps_chain := c\<rparr>) = peer_ledger_blocks st"
  "peer_ledger_blocks (st\<lparr>ps_mempool := m\<rparr>) = peer_ledger_blocks st"
  "peer_ledger_blocks (st\<lparr>ps_catalog := cat @ [(h, b)]\<rparr>) = peer_ledger_blocks (st\<lparr>ps_catalog := cat\<rparr>) @ [b]"
  by (simp_all add: peer_ledger_blocks_def)

lemma peer_chain_inv: "peer_ok st \<Longrightarrow> chain_inv (ch_params (ps_chain st)) (peer_ledger_blocks st, ps_chain st)"
  unfolding peer_ok_def by (blast intro: chain_system.reachable_inv)

lemma keys_below:
  assumes "map fst m = map of_nat [0..<length m]" and "length m < 2 ^ 32"
  shows "\<forall>k \<in> fst ` set m. k < (of_nat (length m) :: u32)"
proof
  fix k
  assume "k \<in> fst ` set m"
  then have "k \<in> set (map fst m)" by simp
  then obtain i where "i < length m" "k = of_nat i" unfolding assms(1) by auto
  with assms(2) show "k < of_nat (length m)" by (simp add: word_less_nat_alt unat_of_nat_less)
qed

lemma store_next:
  assumes "map fst (ps_catalog st) = map of_nat [0..<length (ps_catalog st)]"
    and "unat height = length (ps_catalog st)"
  shows "store_block height b st = st\<lparr>ps_catalog := ps_catalog st @ [(height, b)]\<rparr>"
    "map fst (ps_catalog st @ [(height, b)]) = map of_nat [0..<length (ps_catalog st @ [(height, b)])]"
proof -
  have h: "height = of_nat (length (ps_catalog st))" by (simp flip: assms(2))
  moreover have "length (ps_catalog st) < 2 ^ 32" using assms(2) unat_u32_less [of height] by simp
  ultimately have "\<forall>k \<in> fst ` set (ps_catalog st). k < height" using keys_below [OF assms(1)] by simp
  then show "store_block height b st = st\<lparr>ps_catalog := ps_catalog st @ [(height, b)]\<rparr>"
    by (simp add: store_block_def height_less.map_assign_last)
  show "map fst (ps_catalog st @ [(height, b)]) = map of_nat [0..<length (ps_catalog st @ [(height, b)])]"
    using assms(1) h by simp
qed

lemma pool_txs_remove_all:
  "pool_txs (foldl (\<lambda>pool tx. mempool_remove (tx_txid tx) pool) pool txs) \<subseteq> pool_txs pool"
proof -
  have "pool_txs (mempool_remove k pool) \<subseteq> pool_txs pool" for k pool
    using hash_less.set_erase_subset [of k "by_txid pool"]
    by (auto simp: pool_txs_def mempool_remove_def split: option.split)
  then show ?thesis by (induction txs arbitrary: pool) (simp, fastforce)
qed

lemma limits_remove_all: "mp_limits (foldl (\<lambda>pool tx. mempool_remove (tx_txid tx) pool) pool txs) = mp_limits pool"
  by (induction txs arbitrary: pool) auto

lemma pool_txs_accept:
  assumes "mempool_ok pool" and "mempool_accept tx utxos policy pool = Some (res, pool')"
  shows "pool_txs pool' \<subseteq> insert tx (pool_txs pool)"
proof -
  have evicts: "evicts incoming pool pool1 \<Longrightarrow> pool_txs pool1 \<subseteq> pool_txs pool" for incoming pool1
    by (auto simp: evicts_def pool_txs_def)
  show ?thesis
  proof (cases res)
    case (Inl e)
    then show ?thesis using accept_spec [OF assms(1), of tx utxos policy] assms(2) evicts by auto
  next
    case (Inr u)
    then obtain adm pool1 where a: "map_of (by_txid pool) (tx_txid tx) = None" "mempool_ok pool1"
      "evicts (accepted_entry tx adm) pool pool1" "pool' = add_entry (accepted_entry tx adm) pool1"
      using accept_spec [OF assms(1), of tx utxos policy] assms(2) by auto
    let ?in = "accepted_entry tx adm"
    have "e_txid ?in = tx_txid tx" "e_transaction ?in = tx" by (simp_all add: accepted_entry_def)
    with add_entry_view(1) [OF a(2), of ?in] evicts_absent [OF a(3,1)] evicts [OF a(3)] a(4) show ?thesis
      by (auto simp: pool_txs_def)
  qed
qed

lemma connect_outcome:
  assumes "peer_ok st" and "encodable_block b" and "nd_state nd = st"
  shows "case submit_block b (ps_chain st) (Some (ps_mempool st)) of
      (Inl e, c, m) \<Rightarrow> peer_connect_block b nd = Some (Inl e, nd)
    | (Inr fees, c, m) \<Rightarrow> \<exists>st'. peer_connect_block b nd = Some (Inr (), nd\<lparr>nd_state := st'\<rparr>) \<and> peer_ok st' \<and> grows st st' \<and>
          ps_chain st' = c \<and> ps_mempool st' = the m \<and> peer_ledger_blocks st' = peer_ledger_blocks st @ [b]"
proof (cases "submit_block b (ps_chain st) (Some (ps_mempool st))")
  case (fields r c m)
  show ?thesis
  proof (cases r)
    case (Inl e)
    with submit_block_error [of b "ps_chain st" "Some (ps_mempool st)" e c m] fields assms(3) show ?thesis
      by (auto simp: peer_connect_block_def)
  next
    case (Inr fees)
    let ?blocks = "peer_ledger_blocks st"
    from fields Inr have sub: "submit_block b (ps_chain st) (Some (ps_mempool st)) = (Inr fees, c, m)" by simp
    then have links: "links_to (ch_tip (ps_chain st)) (blk_header b)" and c: "ch_tip c = blk_header b"
        "ch_params c = ch_params (ps_chain st)" and
        m: "the m = foldl (\<lambda>pool tx. mempool_remove (tx_txid tx) pool) (ps_mempool st) (blk_transactions b)"
      by (auto simp: submit_block_ok)
    from peer_chain_inv [OF assms(1)] have "length ?blocks = unat (chain_height (ps_chain st)) + 1"
      by (simp add: chain_inv_def)
    then have height: "unat (chain_height c) = length (ps_catalog st)"
      using links c(1) by (simp add: links_to_def chain_height_def)
    let ?st1 = "st\<lparr>ps_chain := c, ps_mempool := the m\<rparr>"
    let ?st' = "?st1\<lparr>ps_catalog := ps_catalog st @ [(chain_height c, b)]\<rparr>"
    have next_block: "store_block (chain_height c) b ?st1 = ?st'"
      using store_next(1) [of ?st1 "chain_height c" b] assms(1) height by (simp add: peer_ok_def)
    have blocks: "peer_ledger_blocks ?st' = ?blocks @ [b]" by (simp add: peer_ledger_blocks_def)
    have "reachable (chain_init (ch_params (ps_chain st))) chain_step (?blocks @ [b], c)"
      using assms(1) chain_step.intros [OF sub, of ?blocks] unfolding peer_ok_def
      by (blast intro: reach_step)
    then have "peer_ok ?st'"
      using assms store_next(2) [of st "chain_height c" b] height blocks c(2)
        remove_all [of "ps_mempool st"] pool_txs_remove_all [of "ps_mempool st" "blk_transactions b"]
      by (auto simp: peer_ok_def m)
    moreover have "grows st ?st'" using blocks c(2) by (simp add: grows_def m limits_remove_all)
    moreover have "peer_connect_block b nd = Some (Inr (), nd\<lparr>nd_state := ?st'\<rparr>)"
      using sub next_block assms(3) by (simp add: peer_connect_block_def Let_def)
    ultimately show ?thesis
      using sub blocks by (auto intro!: exI [of _ ?st'])
  qed
qed

lemma connect_keeps [keeps_rules]:
  assumes "encodable_block b"
  shows "keeps (node_inv st) (peer_connect_block b)"
  unfolding keeps_def
proof (intro allI impI)
  fix nd
  assume "node_inv st nd"
  with connect_outcome [OF _ assms refl, of nd]
  show "\<exists>r nd'. peer_connect_block b nd = Some (r, nd') \<and> node_inv st nd'"
    by (auto simp: node_inv_def split: prod.splits sum.splits intro: grows_trans)
qed

lemma mine_one_keeps [keeps_rules]: "keeps (node_inv st) mine_one"
  unfolding keeps_def
proof (intro allI impI)
  fix nd
  assume inv: "node_inv st nd"
  let ?st = "nd_state nd"
  let ?tmpl = "build_block_template (ch_tip (ps_chain ?st))
    (block_timestamp (ps_genesis_timestamp ?st) (chain_height (ps_chain ?st) + 1)) (ps_mempool ?st)
    (ch_utxos (ps_chain ?st)) (ps_tmpl_params ?st)"
  show "\<exists>r nd'. mine_one nd = Some (r, nd') \<and> node_inv st nd'"
  proof (cases ?tmpl)
    case (Inl e)
    with inv show ?thesis by (simp add: mine_one_def)
  next
    case (Inr t)
    then have "encodable_block (bt_block t)"
      using inv by (intro built_block_encodable) (auto simp: node_inv_def peer_ok_def)
    from keepsD [OF connect_keeps [OF this] inv] Inr show ?thesis by (simp add: mine_one_def)
  qed
qed

lemma save_keeps [keeps_rules]: "keeps (node_inv st) (peer_save_ledger faults)" "keeps (node_inv st) (persist_ledger faults)"
  by (auto simp: keeps_def node_inv_def persist_ledger_def peer_save_ledger_def Let_def split: prod.split)

lemma peer_mine_keeps [keeps_rules]: "keeps (node_inv st) (peer_mine_blocks faults n)"
  unfolding peer_mine_blocks_def by (intro keeps_rules)

lemma accept_keeps [keeps_rules]:
  assumes "encodable_tx tx"
  shows "keeps (node_inv st) (accept_transaction tx)"
  unfolding keeps_def
proof (intro allI impI)
  fix nd
  assume inv: "node_inv st nd"
  let ?st = "nd_state nd"
  from inv have ok: "mempool_ok (ps_mempool ?st)" by (simp add: node_inv_def peer_ok_def)
  obtain r pool where acc:
    "mempool_accept tx (ch_utxos (ps_chain ?st)) (ps_mempool_policy ?st) (ps_mempool ?st) = Some (r, pool)"
    "mempool_ok pool" "mp_limits pool = mp_limits (ps_mempool ?st)"
    using accept_spec [OF ok] by blast
  have "grows ?st (?st\<lparr>ps_mempool := pool\<rparr>)" using acc(3) by (simp add: grows_def)
  moreover have "peer_ok (?st\<lparr>ps_mempool := pool\<rparr>)"
    using inv acc(2) pool_txs_accept [OF ok acc(1)] assms by (auto simp: node_inv_def peer_ok_def)
  ultimately have "node_inv st (nd\<lparr>nd_state := ?st\<lparr>ps_mempool := pool\<rparr>\<rparr>)"
    using inv by (auto simp: node_inv_def intro: grows_trans)
  with acc(1) show "\<exists>r nd'. accept_transaction tx nd = Some (r, nd') \<and> node_inv st nd'"
    by (simp add: accept_transaction_def)
qed

lemma parse_bytes_iff:
  "parse_block_bytes bytes = Inr b \<longleftrightarrow> encodable_block b \<and> bytes = block_to_bytes b"
  "parse_transaction_bytes bytes = Inr tx \<longleftrightarrow> encodable_tx tx \<and> bytes = tx_to_bytes tx"
  using block_codec.parse_all_iff [of bytes b] tx_codec.parse_all_iff [of bytes tx]
  by (simp_all add: parse_block_bytes_def parse_transaction_bytes_def parse_all_def
      block_to_bytes_enc tx_to_bytes_enc)

lemma on_announce_keeps [keeps_rules]:
  "keeps (node_inv st) (on_tx_announce faults payload)"
  "keeps (node_inv st) (on_block_announce faults payload)"
  "keeps (node_inv st) (on_block_response faults payload)"
  unfolding on_block_response_def on_tx_announce_def on_block_announce_def
  by (intro keeps_bind_result keeps_rules; simp add: parse_bytes_iff)+

section \<open>The invariant of a session\<close>

definition session_inv :: "PeerState \<Rightarrow> 'os Session \<Rightarrow> bool" where
  "session_inv st s \<longleftrightarrow> node_inv st (ss_node s)"

lemma on_node_keeps [keeps_rules]: "keeps (node_inv st) op \<Longrightarrow> keeps (session_inv st) (on_node op)"
  by (erule keeps_zoom) (simp_all add: session_inv_def)

lemma on_socket_keeps [keeps_rules]: "keeps (session_inv st) (on_socket f)"
  by (rule keeps_zoom [where J = "\<lambda>_. True"]) (auto simp: keeps_def session_inv_def)

lemma send_keeps [keeps_rules]:
  "keeps (session_inv st) (send_reject send code reason)"
  "keeps (session_inv st) (on_block_request send request)"
  unfolding on_block_request_def send_reject_def by (intro keeps_rules)+

lemma handle_message_keeps [keeps_rules]: "keeps (session_inv st) (handle_message send faults message)"
  unfolding handle_message_def by (cases "msg_type message") (simp, intro keeps_rules)+

section \<open>Bootstrapping\<close>

lemma build_node_ok:
  assumes "keeps (node_inv st) op" and "peer_ok st"
  shows "\<exists>r fs'. build_node st op fs = Some (r, fs') \<and> (case r of Inl e \<Rightarrow> True | Inr st' \<Rightarrow> peer_ok st' \<and> grows st st')"
proof -
  have "node_inv st \<lparr>nd_state = st, nd_files = fs\<rparr>" using assms(2) by (simp add: node_inv_def)
  from keepsD [OF assms(1) this] obtain r nd where "op \<lparr>nd_state = st, nd_files = fs\<rparr> = Some (r, nd)" "node_inv st nd"
    by blast
  then show ?thesis by (cases r) (auto simp: build_node_def node_inv_def)
qed

lemma accept_stored_keeps: "encodable_tx tx \<Longrightarrow> keeps (node_inv st) (accept_stored tx)"
  unfolding accept_stored_def by (intro keeps_rules)

lemma store_ledger:
  assumes "heights_from_zero blocks" and "ps_catalog st = []" and "length blocks \<le> 2 ^ 32"
  shows "foldl (\<lambda>st block. store_block (hdr_height (blk_header block)) block st) st blocks =
    st\<lparr>ps_catalog := zip (map of_nat [0..<length blocks]) blocks\<rparr>"
proof -
  have "n \<le> length blocks \<Longrightarrow>
    foldl (\<lambda>st block. store_block (hdr_height (blk_header block)) block st) st (take n blocks) =
    st\<lparr>ps_catalog := zip (map of_nat [0..<n]) (take n blocks)\<rparr>" for n
  proof (induction n)
    case 0
    then show ?case using assms(2) by simp
  next
    case (Suc n)
    let ?st = "st\<lparr>ps_catalog := zip (map of_nat [0..<n]) (take n blocks)\<rparr>"
    have h: "hdr_height (blk_header (blocks ! n)) = of_nat n" "unat (of_nat n :: u32) = n"
      using assms(1,3) Suc.prems by (simp_all add: heights_from_zero_def unat_of_nat_less)
    have take_eq: "take (Suc n) blocks = take n blocks @ [blocks ! n]"
      using Suc.prems by (simp add: take_Suc_conv_app_nth)
    have "map fst (ps_catalog ?st) = map of_nat [0..<length (ps_catalog ?st)]" using Suc.prems by simp
    from store_next(1) [OF this, of "of_nat n" "blocks ! n"] h(2) Suc show ?case by (simp add: take_eq h(1))
  qed
  from this [of "length blocks"] show ?thesis by simp
qed

lemma catalog_blocks:
  "map (\<lambda>(height, block). block) (zip (map of_nat [0..<length blocks] :: u32 list) blocks) = blocks"
  by (rule nth_equalityI) simp_all

lemma restored_state:
  assumes "reachable (chain_init params) chain_step (blocks, c)" and "list_all encodable_block blocks"
    and "wf_hash (bt_coinbase_recipient tmpl_params)"
  shows "peer_ok ((new_peer_state c (new_mempool limits) policy node_id timestamp consensus tmpl_params dir persist n)
    \<lparr>ps_catalog := zip (map of_nat [0..<length blocks]) blocks\<rparr>)"
proof -
  have "ch_params c = params" using chain_system.reachable_inv [OF assms(1)] by (simp add: chain_inv_def)
  moreover have "pool_txs (new_mempool limits) = {}" by (simp add: pool_txs_def new_mempool_def)
  ultimately show ?thesis
    using assms by (simp add: peer_ok_def new_peer_state_def peer_ledger_blocks_def new_mempool_ok catalog_blocks)
qed

lemma load_ledger_facts:
  assumes "load_ledger faults fs dir = Inr ld"
  shows "list_all encodable_block (ld_blocks ld)" "list_all encodable_tx (ld_mempool_transactions ld)"
    "load_chain faults fs dir = Inr c \<longleftrightarrow> reachable (chain_init (ld_params ld)) chain_step (ld_blocks ld, c)"
proof -
  from assms obtain bytes where "decode_ledger bytes = Inr ld" by (auto simp: load_ledger_def result_simps)
  then have "storable_ledger ld" by (auto simp: decode_ledger_split decode_ledger_body_iff)
  then show "list_all encodable_block (ld_blocks ld)" "list_all encodable_tx (ld_mempool_transactions ld)"
    by (auto simp: storable_ledger_def list_all_iff storable_block_def storable_tx_def)
  show "load_chain faults fs dir = Inr c \<longleftrightarrow> reachable (chain_init (ld_params ld)) chain_step (ld_blocks ld, c)"
    using assms by (simp add: load_chain_def replay_chain_reachable)
qed

lemma load_chain_ledger: "load_chain faults fs dir = Inr c \<Longrightarrow> \<exists>ld. load_ledger faults fs dir = Inr ld"
  by (auto simp: load_chain_def result_simps)

text \<open>The state that a configuration starts from, before anything is mined or re-admitted.\<close>

definition config_state :: "NodeConfig \<Rightarrow> Hash256 \<Rightarrow> Chain \<Rightarrow> Block list \<Rightarrow> PeerState" where
  "config_state config recipient chain blocks =
     (new_peer_state chain (new_mempool (resolved_mempool_limits config)) (resolved_mempool_policy config)
       (cfg_node_id config) (cfg_genesis_timestamp config) (build_consensus_params config)
       (build_template_params config (build_consensus_params config) recipient) (cfg_data_dir config)
       (cfg_persist config) (cfg_mine_after_tx config))
       \<lparr>ps_catalog := zip (map of_nat [0..<length blocks]) blocks\<rparr>"

lemma config_state_simps [simp]:
  "peer_ledger_blocks (config_state config recipient chain blocks) = blocks"
  "ps_chain (config_state config recipient chain blocks) = chain"
  "ps_node_id (config_state config recipient chain blocks) = cfg_node_id config"
  "ps_persist (config_state config recipient chain blocks) = cfg_persist config"
  by (simp_all add: config_state_def new_peer_state_def peer_ledger_blocks_def catalog_blocks)

lemma from_config_fresh:
  assumes "resolve_coinbase_recipient config = Inr recipient" and "\<not> cfg_restore config"
  shows "\<exists>chain. reachable (chain_init (build_consensus_params config)) chain_step ([build_genesis_block config], chain) \<and>
    from_config faults config fs = build_node (config_state config recipient chain [build_genesis_block config])
      (bind_op (peer_mine_blocks faults (cfg_mine_blocks config)) (\<lambda>_.
         if cfg_persist config then persist_ledger faults else ret ())) fs"
proof -
  obtain chain where c: "chain_create (build_genesis_block config) (build_consensus_params config) = Inr chain"
    using genesis_chain by simp
  then have "reachable (chain_init (build_consensus_params config)) chain_step ([build_genesis_block config], chain)"
    by (intro reach_init) (simp add: chain_init_def)
  with assms c show ?thesis
    by (auto simp: from_config_def Let_def config_state_def store_block_def new_peer_state_def)
qed

lemma from_config_restored:
  assumes "resolve_coinbase_recipient config = Inr recipient" and "cfg_restore config"
    and "ledger_exists fs (cfg_data_dir config)"
    and "load_chain faults fs (cfg_data_dir config) = Inr chain"
    and "load_ledger faults fs (cfg_data_dir config) = Inr ld"
  shows "from_config faults config fs = build_node (config_state config recipient chain (ld_blocks ld))
      (each_op accept_stored (ld_mempool_transactions ld)) fs"
proof -
  have "reachable (chain_init (ld_params ld)) chain_step (ld_blocks ld, chain)"
    using assms(4) by (simp add: load_ledger_facts(3) [OF assms(5)])
  note inv = chain_system.reachable_inv [OF this]
  have "length (ld_blocks ld) \<le> 2 ^ 32" using inv unat_u32_less [of "chain_height chain"] by (simp add: chain_inv_def)
  from store_ledger [OF chain_inv_heights [OF inv] _ this] assms show ?thesis
    by (simp add: from_config_def Let_def config_state_def new_peer_state_def)
qed

lemma config_state_ok:
  assumes "reachable (chain_init params) chain_step (blocks, chain)" and "list_all encodable_block blocks"
    and "resolve_coinbase_recipient config = Inr recipient"
  shows "peer_ok (config_state config recipient chain blocks)"
  using restored_state [OF assms(1,2)] wf_recipient [OF assms(3)] by (simp add: config_state_def)

lemma from_config_ok:
  "\<exists>r fs'. from_config faults config fs = Some (r, fs') \<and>
     (case r of
        Inl e \<Rightarrow> True
      | Inr st \<Rightarrow> peer_ok st \<and> (cfg_restore config \<or> ps_consensus st = ch_params (ps_chain st)))"
proof -
  consider (address) e where "resolve_coinbase_recipient config = Inl e"
    | (fresh) recipient where "resolve_coinbase_recipient config = Inr recipient" "\<not> cfg_restore config"
    | (missing) recipient where "resolve_coinbase_recipient config = Inr recipient" "cfg_restore config"
        "\<not> ledger_exists fs (cfg_data_dir config)"
    | (damaged) recipient e where "resolve_coinbase_recipient config = Inr recipient" "cfg_restore config"
        "ledger_exists fs (cfg_data_dir config)" "load_chain faults fs (cfg_data_dir config) = Inl e"
    | (restored) recipient chain ld where "resolve_coinbase_recipient config = Inr recipient" "cfg_restore config"
        "ledger_exists fs (cfg_data_dir config)" "load_chain faults fs (cfg_data_dir config) = Inr chain"
        "load_ledger faults fs (cfg_data_dir config) = Inr ld"
    using load_chain_ledger [of faults fs "cfg_data_dir config"]
    by (cases "resolve_coinbase_recipient config"; cases "load_chain faults fs (cfg_data_dir config)") blast+
  then show ?thesis
  proof cases
    case fresh
    then obtain chain where
      reach: "reachable (chain_init (build_consensus_params config)) chain_step ([build_genesis_block config], chain)" and
      eq: "from_config faults config fs = build_node (config_state config recipient chain [build_genesis_block config])
        (bind_op (peer_mine_blocks faults (cfg_mine_blocks config)) (\<lambda>_.
           if cfg_persist config then persist_ledger faults else ret ())) fs"
      using from_config_fresh by blast
    let ?st = "config_state config recipient chain [build_genesis_block config]"
    have ok: "peer_ok ?st" using config_state_ok [OF reach _ fresh(1)] genesis_encodable by simp
    have "ch_params chain = build_consensus_params config"
      using chain_system.reachable_inv [OF reach] by (simp add: chain_inv_def)
    then have params: "grows ?st st \<Longrightarrow> ps_consensus st = ch_params (ps_chain st)" for st
      by (cases st) (simp add: grows_def config_state_def new_peer_state_def)
    have "keeps (node_inv ?st) (bind_op (peer_mine_blocks faults (cfg_mine_blocks config))
        (\<lambda>_. if cfg_persist config then persist_ledger faults else ret ()))" by (intro keeps_rules)
    from build_node_ok [OF this ok, of fs] eq params show ?thesis by (auto split: sum.splits)
  next
    case restored
    let ?st = "config_state config recipient chain (ld_blocks ld)"
    note facts = load_ledger_facts [OF restored(5)]
    have ok: "peer_ok ?st" using config_state_ok [OF _ facts(1) restored(1)] restored(4) by (simp add: facts(3))
    have "keeps (node_inv ?st) (each_op accept_stored (ld_mempool_transactions ld))"
      using facts(2) by (intro keeps_rules accept_stored_keeps) (simp add: list_all_iff)
    from build_node_ok [OF this ok, of fs] from_config_restored [OF restored] restored(2) show ?thesis
      by (auto split: sum.splits)
  qed (simp_all add: from_config_def Let_def make_error_def)
qed

end
