(* ===== verification/Peer_Correct.thy ===== *)
theory Peer_Correct
  imports Peer_State
begin

text \<open>
  What the relay node promises to its operator and its peers: the states it can reach, what every
  kind of message does to it, that an accepted block survives a restart, and that a peer that asks
  for a block gets that block.
\<close>

section \<open>Reachable nodes\<close>

text \<open>
  A node starts from a configuration; then messages of its peers arrive, on one connection after
  another, and its owner submits transactions, mines and saves, while the file system may refuse
  anything at any time.
\<close>

definition session_start :: "'os Session \<Rightarrow> bool" where
  "session_start s \<longleftrightarrow> (\<exists>faults config fs.
     from_config faults config fs = Some (Inr (nd_state (ss_node s)), nd_files (ss_node s)))"

inductive session_step :: "'os Session \<Rightarrow> 'os Session \<Rightarrow> bool" where
  step_message: "handle_message send faults message s = Some (r, s') \<Longrightarrow> session_step s s'"
| step_connection: "session_step s (s\<lparr>ss_socket := socket\<rparr>)"
| step_transaction: "encodable_tx tx \<Longrightarrow> accept_transaction tx (ss_node s) = Some (r, nd) \<Longrightarrow> session_step s (s\<lparr>ss_node := nd\<rparr>)"
| step_mine: "peer_mine_blocks faults n (ss_node s) = Some (r, nd) \<Longrightarrow> session_step s (s\<lparr>ss_node := nd\<rparr>)"
| step_save: "peer_save_ledger faults (ss_node s) = Some (r, nd) \<Longrightarrow> session_step s (s\<lparr>ss_node := nd\<rparr>)"

inductive_cases session_stepE: "session_step s s'"

abbreviation (input) session_state :: "'os Session \<Rightarrow> PeerState" where
  "session_state s \<equiv> nd_state (ss_node s)"

lemma peer_ok_node_inv: "peer_ok (nd_state nd) \<longleftrightarrow> node_inv (nd_state nd) nd"
  by (simp add: node_inv_def)

lemma node_op_ok: "(\<And>st. keeps (node_inv st) op) \<Longrightarrow> peer_ok (nd_state nd) \<Longrightarrow> op nd = Some (r, nd') \<Longrightarrow>
    peer_ok (nd_state nd') \<and> grows (nd_state nd) (nd_state nd')"
  using keeps_after [of "node_inv (nd_state nd)" op nd r nd'] by (simp add: node_inv_def)

lemma session_op_ok: "(\<And>st. keeps (session_inv st) op) \<Longrightarrow> peer_ok (session_state s) \<Longrightarrow> op s = Some (r, s') \<Longrightarrow>
    peer_ok (session_state s') \<and> grows (session_state s) (session_state s')"
  using keeps_after [of "session_inv (session_state s)" op s r s'] by (simp add: session_inv_def node_inv_def)

interpretation node_system: inv_system session_start session_step "\<lambda>s. peer_ok (session_state s)"
proof unfold_locales
  fix s :: "'os Session"
  assume "session_start s"
  then obtain faults config fs where
    "from_config faults config fs = Some (Inr (session_state s), nd_files (ss_node s))"
    by (auto simp: session_start_def)
  with from_config_ok [of faults config fs] show "peer_ok (session_state s)" by simp
next
  fix s s' :: "'os Session"
  assume ok: "peer_ok (session_state s)" and "session_step s s'"
  from this(2) show "peer_ok (session_state s')"
  proof cases
    case step_message
    from session_op_ok [OF handle_message_keeps ok this] show ?thesis by simp
  next
    case (step_transaction tx r nd)
    from node_op_ok [OF accept_keeps [OF this(2)] ok this(3)] this(1) show ?thesis by simp
  next
    case (step_mine faults n r nd)
    from node_op_ok [OF peer_mine_keeps ok this(2)] this(1) show ?thesis by simp
  next
    case (step_save faults r nd)
    from node_op_ok [OF save_keeps(1) ok this(2)] this(1) show ?thesis by simp
  qed (use ok in simp)
qed

lemma catalog_lookup:
  assumes "peer_ok st"
  shows "block_at_height h st =
    (if unat h \<le> unat (chain_height (ps_chain st)) then Some (peer_ledger_blocks st ! unat h) else None)"
proof -
  let ?cat = "ps_catalog st" and ?n = "unat (chain_height (ps_chain st))"
  have keys: "map fst ?cat = map of_nat [0..<length ?cat]" using assms by (simp add: peer_ok_def)
  have len: "length ?cat = ?n + 1"
    using peer_chain_inv [OF assms] peer_blocks_simps(1) [of st] unfolding chain_inv_def by auto
  then have small: "length ?cat \<le> 2 ^ 32" using unat_u32_less [of "chain_height (ps_chain st)"] by simp
  have nth_key: "fst (?cat ! i) = of_nat i" if "i < length ?cat" for i
    using arg_cong [OF keys, of "\<lambda>xs. xs ! i"] that by simp
  have dist: "distinct (map fst ?cat)"
    unfolding keys using small by (auto simp: distinct_map inj_on_def word_unat_eq_iff unat_of_nat_less)
  show ?thesis
  proof (cases "unat h \<le> ?n")
    case True
    then have i: "unat h < length ?cat" using len by simp
    then have "?cat ! unat h = (h, peer_ledger_blocks st ! unat h)"
      using nth_key [OF i] by (auto simp: peer_ledger_blocks_def prod_eq_iff split: prod.split)
    then have "(h, peer_ledger_blocks st ! unat h) \<in> set ?cat" using nth_mem [OF i] by simp
    from map_of_is_SomeI [OF dist this] True show ?thesis by (simp add: block_at_height_def)
  next
    case False
    have "h \<notin> fst ` set ?cat"
    proof
      assume "h \<in> fst ` set ?cat"
      then have "\<exists>i < length ?cat. h = fst (?cat ! i)" by (auto simp: in_set_conv_nth) (metis fst_conv)
      then obtain i where i: "i < length ?cat" and "h = of_nat i" using nth_key by auto
      then have "unat h = i" using small by (simp add: unat_of_nat_less)
      with i False len show False by linarith
    qed
    with False show ?thesis by (simp add: block_at_height_def map_of_eq_None_iff)
  qed
qed

section \<open>Messages\<close>

lemma announce_payload:
  assumes "make_block_announce_message \<lparr>block_bytes = block_to_bytes b\<rparr> = Inr m" and "encodable_block b"
  shows "msg_type m = kBlockAnnounce" "parse_block_announce_message m = Inr \<lparr>block_bytes = block_to_bytes b\<rparr>"
    "on_block_announce faults (msg_payload m) = bind_op (peer_connect_block b) (\<lambda>_. persist_ledger faults)"
proof -
  from block_announce_kind.parse_make [OF assms(1)]
  show parse: "parse_block_announce_message m = Inr \<lparr>block_bytes = block_to_bytes b\<rparr>" by simp
  then show "msg_type m = kBlockAnnounce" by (simp add: block_announce_kind.parse_iff)
  have "deserialize_block_announce (msg_payload m) = Inr \<lparr>block_bytes = block_to_bytes b\<rparr>"
    using parse by (simp add: parse_block_announce_message_def \<open>msg_type m = _\<close>)
  moreover have "parse_block_bytes (block_to_bytes b) = Inr b" using assms(2) by (simp add: parse_bytes_iff)
  ultimately show "on_block_announce faults (msg_payload m) = bind_op (peer_connect_block b) (\<lambda>_. persist_ledger faults)"
    by (simp add: on_block_announce_def)
qed

lemma sorted_transactions_set: "set (sorted_transactions pool) = pool_txs pool"
  by (simp add: sorted_transactions_def pool_txs_def)

text \<open>A saved catalog restores the chain.\<close>

lemma persisted_chain_loads:
  assumes "peer_ok (nd_state nd)" and "persist_ledger faults nd = Some (Inr (), nd')"
    and "ps_persist (nd_state nd)" and "ps_consensus (nd_state nd) = ch_params (ps_chain (nd_state nd))"
    and "length (the (nd_files nd' (ledger_path (ps_data_dir (nd_state nd))))) \<le> 1048576001024"
  shows "load_chain no_faults (nd_files nd') (ps_data_dir (nd_state nd)) = Inr (ps_chain (nd_state nd))"
proof -
  let ?st = "nd_state nd"
  have "save_ledger faults (ps_data_dir ?st) (peer_ledger_blocks ?st) (ps_consensus ?st)
      (sorted_transactions (ps_mempool ?st)) (nd_files nd) = (Inr (), nd_files nd')"
    using assms(2,3) by (auto simp: persist_ledger_def peer_save_ledger_def Let_def split: prod.splits)
  from saved_ledger_loads [OF _ this] assms(1,4,5) show ?thesis
    by (simp add: peer_ok_def list_all_iff sorted_transactions_set no_faults_def)
qed

lemma persist_same_state: "persist_ledger faults nd = Some (r, nd') \<Longrightarrow> nd_state nd' = nd_state nd"
  by (auto simp: persist_ledger_def peer_save_ledger_def Let_def split: if_splits prod.splits)

text \<open>A request over a connection, and its answer on the way back.\<close>

lemma make_block_response_iff:
  "make_block_response_message \<lparr>block_bytes = bs\<rparr> = Inr m \<longleftrightarrow> bs \<noteq> [] \<and> length bs \<le> 1048576 \<and>
     m = \<lparr>msg_version = kProtocolVersion, msg_type = kBlockResponse, msg_payload = enc_var_bytes bs\<rparr>"
  by (auto simp: make_block_response_message_def serialize_block_response_def serialize_block_announce_def
      result_simps wire_simps kMaxBlockSizeBytes_def)

lemma request_handled:
  assumes "make_block_request_message \<lparr>br_height = h\<rparr> = Inr m"
  shows "handle_message send faults m = on_block_request send \<lparr>br_height = h\<rparr>" "message_ok m"
proof -
  from block_request_kind.parse_make [OF assms]
  have parse: "parse_block_request_message m = Inr \<lparr>br_height = h\<rparr>" by simp
  moreover from this have "msg_type m = kBlockRequest" by (simp add: block_request_kind.parse_iff)
  ultimately show "handle_message send faults m = on_block_request send \<lparr>br_height = h\<rparr>"
    by (simp add: handle_message_def)
  show "message_ok m"
    using assms by (auto simp: make_block_request_message_def message_ok_def serialize_block_request_def wire_simps)
qed

context byte_stream
begin

lemma request_answered:
  assumes "sock_valid (ss_socket s)" and "make_block_request_message \<lparr>br_height = h\<rparr> = Inr m"
    and "block_at_height h (session_state s) = Some b" and "length (block_to_bytes b) \<le> 1048572"
  shows "\<exists>m' socket'. make_block_response_message \<lparr>block_bytes = block_to_bytes b\<rparr> = Inr m' \<and> message_ok m' \<and>
    handle_message send faults m s = Some (Inr (), s\<lparr>ss_socket := socket'\<rparr>) \<and> sock_valid socket' \<and>
    sent (sock_os socket') = sent (sock_os (ss_socket s)) @ enc_var_bytes (p2p_to_bytes m') \<and>
    incoming (sock_os socket') = incoming (sock_os (ss_socket s))"
proof -
  obtain m' where m': "make_block_response_message \<lparr>block_bytes = block_to_bytes b\<rparr> = Inr m'" "message_ok m'"
    using assms(4) by (simp add: make_block_response_iff message_ok_def wire_simps)
  from message_transfer(1) [OF m'(2) assms(1)] m' assms(3) show ?thesis
    unfolding request_handled [OF assms(2)]
    by (auto simp: on_block_request_def bind_op_def zoom_def)
qed

end

section \<open>Example nodes\<close>

text \<open>A node started from the default configuration, and one at the example chain.\<close>

definition example_chain_default :: Chain where
  "example_chain_default = \<lparr>ch_tip = blk_header (build_genesis_block default_config), ch_utxos = empty_utxos,
     ch_params = build_consensus_params default_config\<rparr>"

definition example_session :: "PeerState \<Rightarrow> Pipe Session" where
  "example_session st = \<lparr>ss_node = \<lparr>nd_state = st, nd_files = Map.empty\<rparr>,
     ss_socket = \<lparr>sock_handle = 3, sock_os = \<lparr>pipe_out = [], pipe_in = [], pipe_chunks = [2, 1]\<rparr>\<rparr>\<rparr>"

definition example_default :: PeerState where
  "example_default = config_state default_config zero_hash example_chain_default [build_genesis_block default_config]"

definition example_peer :: PeerState where
  "example_peer = config_state default_config zero_hash example_chain0 [example_genesis]"

lemma default_recipient: "resolve_coinbase_recipient default_config = Inr zero_hash"
  by (simp add: resolve_coinbase_recipient_def default_config_def)

lemma example_started: "session_start (example_session example_default)"
proof -
  have "chain_create (build_genesis_block default_config) (build_consensus_params default_config) = Inr example_chain_default"
    by (simp add: genesis_chain example_chain_default_def)
  then have "from_config no_faults default_config Map.empty = Some (Inr example_default, Map.empty)"
    using default_recipient
    by (simp add: from_config_def Let_def example_default_def config_state_def store_block_def new_peer_state_def
        build_node_def peer_mine_blocks_def bind_op_def persist_ledger_def)
      (simp add: default_config_def build_node_def peer_mine_blocks_def bind_op_def persist_ledger_def)
  then show ?thesis by (auto simp: session_start_def example_session_def)
qed

lemma example_reached: "reachable session_start session_step (example_session example_default)"
  using example_started by (rule reach_init)

lemma example_peer_ok: "peer_ok example_peer"
proof -
  have "reachable (chain_init example_params) chain_step ([example_genesis], example_chain0)"
    using example_create by (intro reach_init) (simp add: chain_init_def)
  from config_state_ok [OF this _ default_recipient] show ?thesis
    using example_encodable by (simp add: example_peer_def)
qed

lemma example_peer_simps [simp]:
  "ps_chain example_peer = example_chain0" "peer_ledger_blocks example_peer = [example_genesis]"
  by (simp_all add: example_peer_def)

section \<open>Properties\<close>

text \<open>C5. In every state a node can reach, whatever its peers send and whatever the file system
  refuses, the catalog holds exactly the blocks of its chain, each under its height and none above
  the tip; the chain is one that creation and successful submissions of these blocks produce; and
  the mempool is consistent.\<close>

theorem node_reachable_consistent:
  assumes "reachable session_start session_step s"
  shows "let st = nd_state (ss_node s) in
    reachable (chain_init (ch_params (ps_chain st))) chain_step (peer_ledger_blocks st, ps_chain st) \<and>
    (\<forall>h. block_at_height h st =
      (if unat h \<le> unat (chain_height (ps_chain st)) then Some (peer_ledger_blocks st ! unat h) else None)) \<and>
    mempool_ok (ps_mempool st)"
  using node_system.reachable_inv [OF assms] catalog_lookup [of "nd_state (ss_node s)"]
  by (simp add: peer_ok_def Let_def)

theorem node_reachable_consistent_witness:
  "block_at_height 0 (nd_state (ss_node (example_session example_default))) =
     Some (peer_ledger_blocks (nd_state (ss_node (example_session example_default))) ! 0)"
  using node_reachable_consistent [OF example_reached] by (simp add: Let_def)

text \<open>C23. No message stops a node or costs it a block: from every reachable state, the handling of
  every message returns, whether it reports success or an error, the blocks the node had are the
  first blocks it has afterwards, and its parameters and identity are the same.\<close>

theorem node_survives_every_message:
  assumes "reachable session_start session_step s"
  shows "\<exists>r s'. handle_message send faults message s = Some (r, s') \<and>
    prefix (peer_ledger_blocks (nd_state (ss_node s))) (peer_ledger_blocks (nd_state (ss_node s'))) \<and>
    ps_consensus (nd_state (ss_node s')) = ps_consensus (nd_state (ss_node s)) \<and>
    ps_node_id (nd_state (ss_node s')) = ps_node_id (nd_state (ss_node s)) \<and>
    mp_limits (ps_mempool (nd_state (ss_node s'))) = mp_limits (ps_mempool (nd_state (ss_node s)))"
proof -
  have "session_inv (session_state s) s"
    using node_system.reachable_inv [OF assms] by (simp add: session_inv_def node_inv_def)
  from keepsD [OF handle_message_keeps [of _ send faults message] this] obtain r s' where
    "handle_message send faults message s = Some (r, s')" "grows (session_state s) (session_state s')"
    by (auto simp: session_inv_def node_inv_def)
  then show ?thesis
    by (cases "session_state s"; cases "session_state s'") (auto simp: grows_def)
qed

theorem node_survives_every_message_witness:
  "\<exists>r s'. handle_message pipe_send no_faults \<lparr>msg_version = 1, msg_type = kBlockResponse, msg_payload = [255, 0, 1]\<rparr>
     (example_session example_default) = Some (r, s') \<and>
     prefix [build_genesis_block default_config] (peer_ledger_blocks (nd_state (ss_node s')))"
proof -
  have "peer_ledger_blocks (nd_state (ss_node (example_session example_default))) = [build_genesis_block default_config]"
    by (simp add: example_session_def example_default_def)
  with node_survives_every_message [OF example_reached] show ?thesis by fastforce
qed



text \<open>C24. A peer that asks for a block gets that block. On a connection that may cut every transfer,
  a request for a height up to the tip succeeds, changes nothing in the node, and puts one frame on
  the wire from which the peer receives a response that holds exactly the block of that height; the
  block must be four bytes short of the maximum size.\<close>

theorem requested_block_served:
  assumes "peer_ok (nd_state (ss_node s))" "sock_valid (ss_socket s)" "sock_valid peer"
    and "make_block_request_message \<lparr>br_height = h\<rparr> = Inr m"
    and "unat h \<le> unat (chain_height (ps_chain (nd_state (ss_node s))))"
    and "length (block_to_bytes (peer_ledger_blocks (nd_state (ss_node s)) ! unat h)) \<le> 1048572"
  shows "\<exists>s' frame. handle_message pipe_send faults m s = Some (Inr (), s') \<and> ss_node s' = ss_node s \<and>
    pipe_out (sock_os (ss_socket s')) = pipe_out (sock_os (ss_socket s)) @ frame \<and>
    (\<forall>rest. pipe_in (sock_os peer) = frame @ rest \<longrightarrow>
      (\<exists>m' peer'. recv_message pipe_recv peer = (Inr m', peer') \<and> pipe_in (sock_os peer') = rest \<and>
        bindR (parse_block_response_message m') (\<lambda>p. parse_block_bytes (block_bytes p)) =
          Inr (peer_ledger_blocks (nd_state (ss_node s)) ! unat h)))"
proof -
  let ?st = "nd_state (ss_node s)" and ?b = "peer_ledger_blocks (nd_state (ss_node s)) ! unat h"
  have "block_at_height h ?st = Some ?b" using catalog_lookup [OF assms(1)] assms(5) by simp
  from pipe.request_answered [OF assms(2,4) this assms(6)] obtain m' socket' where
    m': "make_block_response_message \<lparr>block_bytes = block_to_bytes ?b\<rparr> = Inr m'" "message_ok m'" and
    run: "handle_message pipe_send faults m s = Some (Inr (), s\<lparr>ss_socket := socket'\<rparr>)"
      "pipe_out (sock_os socket') = pipe_out (sock_os (ss_socket s)) @ enc_var_bytes (p2p_to_bytes m')"
    by blast
  have "unat h < length (peer_ledger_blocks ?st)"
    using peer_chain_inv [OF assms(1)] assms(5) by (simp add: chain_inv_def)
  then have "encodable_block ?b" using assms(1) by (simp add: peer_ok_def list_all_length)
  then have "bindR (parse_block_response_message m') (\<lambda>p. parse_block_bytes (block_bytes p)) = Inr ?b"
    using block_response_kind.parse_make [OF m'(1)] by (simp add: parse_bytes_iff)
  with run pipe.message_transfer(2) [OF m'(2) assms(3)] show ?thesis by fastforce
qed

theorem requested_block_served_witness:
  "\<exists>m s' m' peer'. make_block_request_message \<lparr>br_height = 0\<rparr> = Inr m \<and>
     handle_message pipe_send no_faults m (example_session example_peer) = Some (Inr (), s') \<and>
     recv_message pipe_recv \<lparr>sock_handle = 4, sock_os = \<lparr>pipe_out = [],
       pipe_in = pipe_out (sock_os (ss_socket s')), pipe_chunks = [7, 1]\<rparr>\<rparr> = (Inr m', peer') \<and>
     bindR (parse_block_response_message m') (\<lambda>p. parse_block_bytes (block_bytes p)) = Inr example_genesis"
proof -
  let ?s = "example_session example_peer"
  obtain m where m: "make_block_request_message \<lparr>br_height = 0\<rparr> = Inr m" by (simp add: make_block_request_message_def)
  let ?peer = "\<lparr>sock_handle = 4, sock_os = \<lparr>pipe_out = [],
    pipe_in = pipe_out (sock_os (ss_socket (snd (the (handle_message pipe_send no_faults m ?s))))), pipe_chunks = [7, 1]\<rparr>\<rparr>"
  have "peer_ok (nd_state (ss_node ?s))" "sock_valid (ss_socket ?s)" "sock_valid ?peer"
    using example_peer_ok by (simp_all add: example_session_def sock_valid_def)
  from requested_block_served [OF this m, of no_faults] show ?thesis
    using m example_lengths by (fastforce simp: example_session_def wire_simps)
qed

end
