(* ===== verification/Simulator.thy ===== *)
theory Simulator
  imports Peer_Correct
begin

text \<open>
  The single-process simulator of \<^verbatim>\<open>src/node/simulator.cpp\<close>: a chain from the genesis block or from
  the ledger file, steps that admit transactions and mine blocks, and the saving of the ledger. The
  local variables of \<^verbatim>\<open>run_simulator\<close> are the state of its operations; the files are the state of the
  whole run. The functions on the configuration that the file shares with \<^verbatim>\<open>peer_state.cpp\<close> are in
  \<open>Node_Params\<close>.
\<close>

section \<open>State\<close>

record RunStats =
  st_blocks_mined :: u32
  st_txs_admitted :: u32
  st_txs_included :: u32
  st_total_fees :: u64

record SimulatorSummary =
  sum_genesis_hash :: Hash256
  sum_tip_hash :: Hash256
  sum_height :: u32
  sum_utxo_count :: nat
  sum_blocks_mined :: u32
  sum_txs_admitted :: u32
  sum_txs_included :: u32
  sum_total_fees :: u64
  sum_restored_from_disk :: bool

record SimulatorStep =
  submit_txs :: "Transaction list"
  mine_blocks :: u32

record SimulatorOptions =
  opt_steps :: "SimulatorStep list"
  opt_mempool_limits :: MempoolLimits

record Simulation =
  sim_chain :: Chain
  sim_pool :: Mempool
  sim_ledger :: "Block list"
  sim_stats :: RunStats

section \<open>Operations\<close>

definition resolve_mempool_limits :: "NodeConfig \<Rightarrow> SimulatorOptions \<Rightarrow> MempoolLimits" where
  "resolve_mempool_limits config options =
     (let limits = resolved_mempool_limits config;
          limits = (if max_transactions (opt_mempool_limits options) \<noteq> 0
                    then limits\<lparr>max_transactions := max_transactions (opt_mempool_limits options)\<rparr> else limits)
      in if max_total_bytes (opt_mempool_limits options) \<noteq> 0
         then limits\<lparr>max_total_bytes := max_total_bytes (opt_mempool_limits options)\<rparr> else limits)"

definition consensus_params_match :: "ConsensusParams \<Rightarrow> ConsensusParams \<Rightarrow> bool" where
  "consensus_params_match expected stored \<longleftrightarrow>
     block_subsidy expected = block_subsidy stored \<and> coinbase_maturity expected = coinbase_maturity stored"

definition new_stats :: RunStats where
  "new_stats = \<lparr>st_blocks_mined = 0, st_txs_admitted = 0, st_txs_included = 0, st_total_fees = 0\<rparr>"

definition default_options :: SimulatorOptions where
  "default_options = \<lparr>opt_steps = [], opt_mempool_limits = \<lparr>max_transactions = 0, max_total_bytes = 0\<rparr>\<rparr>"

definition admit_one :: "MempoolPolicy \<Rightarrow> Transaction \<Rightarrow> (Simulation, unit) op" where
  "admit_one policy tx sim =
     (case mempool_accept tx (ch_utxos (sim_chain sim)) policy (sim_pool sim) of
        None \<Rightarrow> None
      | Some (Inl e, pool) \<Rightarrow> Some (Inl e, sim\<lparr>sim_pool := pool\<rparr>)
      | Some (Inr _, pool) \<Rightarrow>
          Some (Inr (), sim\<lparr>sim_pool := pool,
            sim_stats := (sim_stats sim)\<lparr>st_txs_admitted := st_txs_admitted (sim_stats sim) + 1\<rparr>\<rparr>))"

definition admit_transactions :: "MempoolPolicy \<Rightarrow> Transaction list \<Rightarrow> (Simulation, unit) op" where
  "admit_transactions policy txs = each_op (admit_one policy) txs"

definition mine_round :: "NodeConfig \<Rightarrow> BlockTemplateParams \<Rightarrow> (Simulation, unit) op" where
  "mine_round config tmpl_params sim =
     (let chain = sim_chain sim;
          timestamp = block_timestamp (cfg_genesis_timestamp config) (chain_height chain + 1)
      in case build_block_template (ch_tip chain) timestamp (sim_pool sim) (ch_utxos chain) tmpl_params of
           Inl e \<Rightarrow> Some (Inl e, sim)
         | Inr tmpl \<Rightarrow>
             (case submit_block (bt_block tmpl) chain (Some (sim_pool sim)) of
                (fees, chain, pool) \<Rightarrow>
                  let sim = sim\<lparr>sim_chain := chain, sim_pool := the pool\<rparr>; stats = sim_stats sim
                  in case fees of
                       Inl e \<Rightarrow> Some (Inl e, sim)
                     | Inr _ \<Rightarrow>
                         Some (Inr (), sim\<lparr>
                           sim_ledger := sim_ledger sim @ [bt_block tmpl],
                           sim_stats := stats\<lparr>
                             st_total_fees := st_total_fees stats + bt_total_fees tmpl,
                             st_txs_included := st_txs_included stats + ucast (bt_selected_count tmpl),
                             st_blocks_mined := st_blocks_mined stats + 1\<rparr>\<rparr>)))"

definition mine_n_blocks :: "NodeConfig \<Rightarrow> BlockTemplateParams \<Rightarrow> u32 \<Rightarrow> (Simulation, unit) op" where
  "mine_n_blocks config tmpl_params n = repeat_op (unat n) (mine_round config tmpl_params)"

definition summary_from_chain :: "Block \<Rightarrow> Chain \<Rightarrow> RunStats \<Rightarrow> bool \<Rightarrow> SimulatorSummary" where
  "summary_from_chain genesis chain stats restored =
     \<lparr>sum_genesis_hash = header_hash (blk_header genesis), sum_tip_hash = chain_tip_hash chain,
      sum_height = chain_height chain, sum_utxo_count = utxo_size (ch_utxos chain),
      sum_blocks_mined = st_blocks_mined stats, sum_txs_admitted = st_txs_admitted stats,
      sum_txs_included = st_txs_included stats, sum_total_fees = st_total_fees stats,
      sum_restored_from_disk = restored\<rparr>"

definition replay_loaded_chain :: "Block list \<Rightarrow> ConsensusParams \<Rightarrow> Chain Result" where
  "replay_loaded_chain blocks params =
     (if blocks = [] then make_error kStorageCorruption ''ledger contains no blocks''
      else bindR (chain_create (hd blocks) params) (\<lambda>chain.
           foldR (\<lambda>chain i.
             case submit_block (blocks ! i) chain None of
               (Inl e, _, _) \<Rightarrow> Inl e
             | (Inr _, chain, _) \<Rightarrow> Inr chain) chain [1..<length blocks]))"

text \<open>
  The chain a run starts from, with the blocks and the mempool transactions that belong to it and
  whether they were restored.
\<close>

definition initial_chain ::
    "Faults \<Rightarrow> files \<Rightarrow> NodeConfig \<Rightarrow> ConsensusParams \<Rightarrow> Block \<Rightarrow> (Chain \<times> Block list \<times> Transaction list \<times> bool) Result" where
  "initial_chain faults fs config consensus genesis =
     (if \<not> cfg_restore config
      then bindR (chain_create genesis consensus) (\<lambda>chain. Inr (chain, [genesis], [], False))
      else if \<not> ledger_exists fs (cfg_data_dir config)
      then make_error kInvalidConfig ''no ledger found in data_dir for --restore''
      else bindR (load_ledger faults fs (cfg_data_dir config)) (\<lambda>loaded.
           if \<not> consensus_params_match consensus (ld_params loaded)
           then make_error kStorageCorruption ''restored consensus parameters do not match configuration''
           else if header_hash (blk_header (hd (ld_blocks loaded))) \<noteq> header_hash (blk_header genesis)
           then make_error kStorageCorruption ''restored genesis does not match configuration''
           else bindR (replay_loaded_chain (ld_blocks loaded) (ld_params loaded)) (\<lambda>replayed.
                Inr (replayed, ld_blocks loaded, ld_mempool_transactions loaded, True))))"

definition restore_pool :: "MempoolPolicy \<Rightarrow> Transaction list \<Rightarrow> (Simulation, unit) op" where
  "restore_pool policy txs sim =
     (case restore_mempool (sim_pool sim) (ch_utxos (sim_chain sim)) txs policy of
        None \<Rightarrow> None
      | Some (r, pool) \<Rightarrow> Some (r, sim\<lparr>sim_pool := pool\<rparr>))"

text \<open>The steps of the options, or else the blocks of the configuration.\<close>

definition run_steps ::
    "NodeConfig \<Rightarrow> SimulatorOptions \<Rightarrow> MempoolPolicy \<Rightarrow> BlockTemplateParams \<Rightarrow> (Simulation, unit) op" where
  "run_steps config options policy tmpl_params =
     (if opt_steps options \<noteq> []
      then each_op (\<lambda>step.
             bind_op (admit_transactions policy (submit_txs step)) (\<lambda>_.
             mine_n_blocks config tmpl_params (mine_blocks step))) (opt_steps options)
      else mine_n_blocks config tmpl_params (cfg_mine_blocks config))"

text \<open>The end of a run: saving the ledger, if the configuration says so, and the summary.\<close>

definition finish_run ::
    "Faults \<Rightarrow> NodeConfig \<Rightarrow> ConsensusParams \<Rightarrow> Block \<Rightarrow> bool \<Rightarrow> Simulation \<Rightarrow> (files, SimulatorSummary) op" where
  "finish_run faults config consensus genesis restored sim fs =
     (let summary = summary_from_chain genesis (sim_chain sim) (sim_stats sim) restored
      in if cfg_persist config
         then case save_ledger faults (cfg_data_dir config) (sim_ledger sim) consensus
                     (sorted_transactions (sim_pool sim)) fs of
                (Inl e, fs) \<Rightarrow> Some (Inl e, fs)
              | (Inr _, fs) \<Rightarrow> Some (Inr summary, fs)
         else Some (Inr summary, fs))"

definition run_simulator :: "Faults \<Rightarrow> NodeConfig \<Rightarrow> SimulatorOptions \<Rightarrow> (files, SimulatorSummary) op" where
  "run_simulator faults config options fs =
     (let consensus = build_consensus_params config
      in case resolve_coinbase_recipient config of
           Inl e \<Rightarrow> Some (Inl e, fs)
         | Inr recipient \<Rightarrow>
      let genesis = build_genesis_block config;
          tmpl_params = build_template_params config consensus recipient;
          pool_limits = resolve_mempool_limits config options;
          pool_policy = resolved_mempool_policy config
      in case initial_chain faults fs config consensus genesis of
           Inl e \<Rightarrow> Some (Inl e, fs)
         | Inr (chain, ledger, restored_mempool_txs, restored) \<Rightarrow>
             (case bind_op (if restored then restore_pool pool_policy restored_mempool_txs else ret ())
                     (\<lambda>_. run_steps config options pool_policy tmpl_params)
                     \<lparr>sim_chain = chain, sim_pool = new_mempool pool_limits, sim_ledger = ledger, sim_stats = new_stats\<rparr> of
                None \<Rightarrow> None
              | Some (Inl e, sim) \<Rightarrow> Some (Inl e, fs)
              | Some (Inr _, sim) \<Rightarrow> finish_run faults config consensus genesis restored sim fs))"

section \<open>The invariant of a run\<close>

definition sim_inv :: "ConsensusParams \<Rightarrow> Simulation \<Rightarrow> bool" where
  "sim_inv params sim \<longleftrightarrow>
     reachable (chain_init params) chain_step (sim_ledger sim, sim_chain sim) \<and> mempool_ok (sim_pool sim)"

lemma admit_one_keeps [keeps_rules]: "keeps (sim_inv params) (admit_one policy tx)"
  unfolding keeps_def
proof (intro allI impI)
  fix sim
  assume inv: "sim_inv params sim"
  then obtain r pool where "mempool_accept tx (ch_utxos (sim_chain sim)) policy (sim_pool sim) = Some (r, pool)" "mempool_ok pool"
    using accept_spec [of "sim_pool sim" tx "ch_utxos (sim_chain sim)" policy] by (auto simp: sim_inv_def)
  with inv show "\<exists>r sim'. admit_one policy tx sim = Some (r, sim') \<and> sim_inv params sim'"
    by (cases r) (auto simp: admit_one_def sim_inv_def)
qed

lemma mine_round_keeps [keeps_rules]: "keeps (sim_inv params) (mine_round config tmpl_params)"
  unfolding keeps_def
proof (intro allI impI)
  fix sim
  assume inv: "sim_inv params sim"
  let ?c = "sim_chain sim"
  show "\<exists>r sim'. mine_round config tmpl_params sim = Some (r, sim') \<and> sim_inv params sim'"
  proof (cases "build_block_template (ch_tip ?c) (block_timestamp (cfg_genesis_timestamp config) (chain_height ?c + 1))
      (sim_pool sim) (ch_utxos ?c) tmpl_params")
    case (Inl e)
    with inv show ?thesis by (simp add: mine_round_def Let_def)
  next
    case (Inr tmpl)
    obtain r c' m' where sub: "submit_block (bt_block tmpl) ?c (Some (sim_pool sim)) = (r, c', m')" by (rule prod_cases3)
    show ?thesis
    proof (cases r)
      case (Inl e)
      with submit_block_error [of "bt_block tmpl" ?c "Some (sim_pool sim)" e c' m'] sub \<open>_ = Inr tmpl\<close> inv show ?thesis
        by (simp add: mine_round_def Let_def sim_inv_def)
    next
      case (Inr fees)
      with sub have sub: "submit_block (bt_block tmpl) ?c (Some (sim_pool sim)) = (Inr fees, c', m')" by simp
      then have "reachable (chain_init params) chain_step (sim_ledger sim @ [bt_block tmpl], c')"
        using inv chain_step.intros [OF sub] unfolding sim_inv_def by (blast intro: reach_step)
      moreover have "mempool_ok (the m')"
        using sub inv remove_all [of "sim_pool sim"] by (auto simp: submit_block_ok sim_inv_def)
      ultimately show ?thesis using sub \<open>_ = Inr tmpl\<close> by (simp add: mine_round_def Let_def sim_inv_def)
    qed
  qed
qed

lemma restore_pool_keeps [keeps_rules]: "keeps (sim_inv params) (restore_pool policy txs)"
proof -
  have "mempool_ok pool \<Longrightarrow> \<exists>r pool'. restore_mempool pool u txs policy = Some (r, pool') \<and> mempool_ok pool'" for pool u
  proof (induction txs arbitrary: pool)
    case (Cons tx txs)
    obtain r pool1 where acc: "mempool_accept tx u policy pool = Some (r, pool1)" "mempool_ok pool1"
      using accept_spec [OF Cons.prems, of tx u policy] by blast
    with Cons.IH [OF acc(2)] show ?case by (cases r) (auto simp: make_error_def)
  qed simp
  then show ?thesis
    unfolding keeps_def sim_inv_def restore_pool_def
    by (metis (no_types, lifting) Simulation.select_convs Simulation.update_convs(2) Simulation.surjective case_prod_conv option.simps(5))
qed

lemma run_steps_keeps [keeps_rules]: "keeps (sim_inv params) (run_steps config options policy tmpl_params)"
  unfolding run_steps_def admit_transactions_def mine_n_blocks_def by (intro keeps_rules)

section \<open>What a run counts\<close>

definition planned_blocks :: "NodeConfig \<Rightarrow> SimulatorOptions \<Rightarrow> nat" where
  "planned_blocks config options =
     (if opt_steps options \<noteq> [] then sum_list (map (\<lambda>step. unat (mine_blocks step)) (opt_steps options))
      else unat (cfg_mine_blocks config))"

definition planned_txs :: "SimulatorOptions \<Rightarrow> nat" where
  "planned_txs options = sum_list (map (\<lambda>step. length (submit_txs step)) (opt_steps options))"

text \<open>The blocks and the transactions that lie between two states.\<close>

definition progress :: "nat \<Rightarrow> nat \<Rightarrow> Simulation \<Rightarrow> Simulation \<Rightarrow> bool" where
  "progress blocks txs sim sim' \<longleftrightarrow>
     st_blocks_mined (sim_stats sim') = st_blocks_mined (sim_stats sim) + of_nat blocks \<and>
     st_txs_admitted (sim_stats sim') = st_txs_admitted (sim_stats sim) + of_nat txs \<and>
     length (sim_ledger sim') = length (sim_ledger sim) + blocks \<and> prefix (sim_ledger sim) (sim_ledger sim')"

lemma progress_refl: "progress 0 0 sim sim"
  by (simp add: progress_def)

lemma progress_trans: "progress a b s t \<Longrightarrow> progress c d t u \<Longrightarrow> progress (a + c) (b + d) s u"
  by (auto simp: progress_def prefix_def add.assoc)

lemma progress_repeat:
  assumes "\<And>s s'. op s = Some (Inr (), s') \<Longrightarrow> progress 1 0 s s'"
  shows "repeat_op n op s = Some (Inr (), s') \<Longrightarrow> progress n 0 s s'"
proof (induction n arbitrary: s)
  case (Suc n)
  then obtain t where "progress 1 0 s t" "progress n 0 t s'" by (auto simp: op_simps dest: assms)
  from progress_trans [OF this] show ?case by simp
qed (simp add: progress_refl)

lemma progress_each:
  assumes "\<And>x s s'. x \<in> set xs \<Longrightarrow> f x s = Some (Inr (), s') \<Longrightarrow> progress (a x) (b x) s s'"
  shows "each_op f xs s = Some (Inr (), s') \<Longrightarrow> progress (sum_list (map a xs)) (sum_list (map b xs)) s s'"
  using assms
proof (induction xs arbitrary: s)
  case (Cons x xs)
  from Cons.prems(1) obtain t where t: "f x s = Some (Inr (), t)" "each_op f xs t = Some (Inr (), s')"
    by (auto simp: op_simps)
  with Cons.prems(2) [of x] Cons.IH [of t] Cons.prems(2) show ?case by (auto intro: progress_trans)
qed (simp add: progress_refl)

lemma progress_steps:
  "admit_one policy tx sim = Some (Inr (), sim') \<Longrightarrow> progress 0 1 sim sim'"
  "mine_round config tmpl_params sim = Some (Inr (), sim') \<Longrightarrow> progress 1 0 sim sim'"
  by (auto simp: admit_one_def mine_round_def progress_def Let_def split: option.splits sum.splits prod.splits)

lemma mining_progress: "repeat_op n (mine_round config tmpl_params) sim = Some (Inr (), sim') \<Longrightarrow> progress n 0 sim sim'"
  by (rule progress_repeat [OF progress_steps(2)])

lemma run_steps_progress:
  assumes "run_steps config options policy tmpl_params sim = Some (Inr (), sim')"
  shows "progress (planned_blocks config options) (planned_txs options) sim sim'"
proof -
  have mine: "mine_n_blocks config tmpl_params n s = Some (Inr (), s') \<Longrightarrow> progress (unat n) 0 s s'" for n s s'
    unfolding mine_n_blocks_def by (rule mining_progress)
  have admit: "admit_transactions policy txs s = Some (Inr (), s') \<Longrightarrow> progress 0 (length txs) s s'" for txs s s'
    using progress_each [of txs "admit_one policy" "\<lambda>_. 0" "\<lambda>_. 1" s s'] progress_steps(1)
    by (simp add: admit_transactions_def sum_list_triv)
  show ?thesis
  proof (cases "opt_steps options = []")
    case True
    with assms mine show ?thesis by (simp add: run_steps_def planned_blocks_def planned_txs_def)
  next
    case False
    let ?step = "\<lambda>step. bind_op (admit_transactions policy (submit_txs step)) (\<lambda>_. mine_n_blocks config tmpl_params (mine_blocks step))"
    have "?step step s = Some (Inr (), s') \<Longrightarrow> progress (unat (mine_blocks step)) (length (submit_txs step)) s s'" for step s s'
      using progress_trans [OF admit mine] by (fastforce simp: bind_op_Inr)
    from progress_each [OF this] False assms show ?thesis
      by (simp add: run_steps_def planned_blocks_def planned_txs_def)
  qed
qed

section \<open>Where a run starts\<close>

lemma params_match_iff: "consensus_params_match p q \<longleftrightarrow> p = q"
  by (cases p; cases q) (simp add: consensus_params_match_def)

lemma replay_loaded_eq: "heights_from_zero blocks \<Longrightarrow> replay_loaded_chain blocks params = replay_chain blocks params"
  using validate_block_sequence_iff [of blocks]
  by (auto simp: replay_loaded_chain_def replay_chain_def heights_from_zero_def hd_conv_nth)

lemma initial_chain_facts:
  assumes "initial_chain faults fs config (build_consensus_params config) (build_genesis_block config) =
      Inr (chain, ledger, txs, restored)"
  shows "reachable (chain_init (build_consensus_params config)) chain_step (ledger, chain)"
    "header_hash (blk_header (hd ledger)) = header_hash (blk_header (build_genesis_block config))"
    "restored = cfg_restore config" "cfg_restore config \<or> length ledger = 1"
proof -
  have stored: "load_ledger faults fs dir = Inr ld \<Longrightarrow> heights_from_zero (ld_blocks ld)" for dir ld
    by (auto simp: load_ledger_def result_simps decode_ledger_split decode_ledger_body_iff storable_ledger_def)
  show "reachable (chain_init (build_consensus_params config)) chain_step (ledger, chain)"
    "header_hash (blk_header (hd ledger)) = header_hash (blk_header (build_genesis_block config))"
    "restored = cfg_restore config" "cfg_restore config \<or> length ledger = 1"
    using assms
    by (auto simp: initial_chain_def result_simps make_error_def params_match_iff replay_loaded_eq stored
        replay_chain_reachable chain_init_def intro: reach_init split: if_splits)
qed

section \<open>Mining with an empty mempool\<close>

text \<open>Two runs in the same state, whatever they have counted.\<close>

definition same_state :: "Simulation \<Rightarrow> Simulation \<Rightarrow> bool" where
  "same_state s t \<longleftrightarrow> sim_chain s = sim_chain t \<and> sim_pool s = sim_pool t \<and> sim_ledger s = sim_ledger t"

lemma mine_round_same:
  assumes "same_state s t" and "mine_round config tmpl_params s = Some (r, s')"
  shows "\<exists>t'. mine_round config tmpl_params t = Some (r, t') \<and> same_state s' t'"
  using assms by (auto simp: mine_round_def same_state_def Let_def split: sum.splits prod.splits)

lemma repeat_same:
  assumes "same_state s t" and "repeat_op n (mine_round config tmpl_params) s = Some (r, s')"
  shows "\<exists>t'. repeat_op n (mine_round config tmpl_params) t = Some (r, t') \<and> same_state s' t'"
  using assms
proof (induction n arbitrary: s t)
  case (Suc n)
  from Suc.prems(2) obtain r1 s1 where one: "mine_round config tmpl_params s = Some (r1, s1)"
    by (auto simp: bind_op_def split: option.splits)
  with mine_round_same [OF Suc.prems(1)] obtain t1 where "mine_round config tmpl_params t = Some (r1, t1)" "same_state s1 t1"
    by blast
  with one Suc.prems(2) Suc.IH [of s1 t1] show ?case by (cases r1) (auto simp: bind_op_run)
qed simp

lemma repeat_op_add:
  "repeat_op n op s = Some (Inr (), s') \<Longrightarrow> repeat_op (n + m) op s = repeat_op m op s'"
  by (induction n arbitrary: s) (auto simp: bind_op_Inr bind_op_run)

definition fresh_inv :: "MempoolLimits \<Rightarrow> Simulation \<Rightarrow> bool" where
  "fresh_inv limits sim \<longleftrightarrow> sim_pool sim = new_mempool limits \<and> list_all encodable_block (sim_ledger sim)"

lemma remove_from_new: "foldl (\<lambda>pool tx. mempool_remove (tx_txid tx) pool) (new_mempool limits) txs = new_mempool limits"
  by (induction txs) (simp_all add: mempool_remove_def new_mempool_def)

lemma mine_round_fresh:
  assumes "wf_hash (bt_coinbase_recipient tmpl_params)"
  shows "preserves (fresh_inv limits) (mine_round config tmpl_params)"
  unfolding preserves_def
proof (intro allI impI)
  fix s r s'
  assume inv: "fresh_inv limits s" and run: "mine_round config tmpl_params s = Some (r, s')"
  have none: "pool_txs (new_mempool limits) = {}" by (simp add: pool_txs_def new_mempool_def)
  have "build_block_template tip time (new_mempool limits) u tmpl_params = Inr t \<Longrightarrow> encodable_block (bt_block t)" for tip time u t
    using built_block_encodable [OF _ assms] none by blast
  with inv run show "fresh_inv limits s'"
    by (auto simp: fresh_inv_def mine_round_def Let_def remove_from_new submit_block_ok
        split: sum.splits prod.splits dest: submit_block_error)
qed

lemma fresh_sorted: "sorted_transactions (new_mempool limits) = []"
  using sorted_transactions_set [of "new_mempool limits"] by (simp add: pool_txs_def new_mempool_def)

section \<open>A run as a whole\<close>

lemma finish_run_returns:
  "\<exists>r fs'. finish_run faults config params genesis restored sim fs = Some (r, fs') \<and>
     (\<forall>summary. r = Inr summary \<longrightarrow> summary = summary_from_chain genesis (sim_chain sim) (sim_stats sim) restored)"
  by (auto simp: finish_run_def Let_def split: prod.split sum.split)

definition describes :: "NodeConfig \<Rightarrow> SimulatorOptions \<Rightarrow> SimulatorSummary \<Rightarrow> bool" where
  "describes config options summary \<longleftrightarrow>
     (\<exists>blocks chain. reachable (chain_init (build_consensus_params config)) chain_step (blocks, chain) \<and>
        header_hash (blk_header (hd blocks)) = sum_genesis_hash summary \<and>
        sum_genesis_hash summary = header_hash (blk_header (build_genesis_block config)) \<and>
        sum_tip_hash summary = chain_tip_hash chain \<and> sum_height summary = chain_height chain \<and>
        sum_utxo_count summary = utxo_size (ch_utxos chain) \<and>
        sum_blocks_mined summary = of_nat (planned_blocks config options) \<and>
        sum_txs_admitted summary = of_nat (planned_txs options) \<and>
        planned_blocks config options \<le> unat (sum_height summary) \<and>
        sum_restored_from_disk summary = cfg_restore config \<and>
        (cfg_restore config \<or> unat (sum_height summary) = planned_blocks config options))"

lemma run_described:
  assumes start: "initial_chain faults fs config (build_consensus_params config) (build_genesis_block config) =
      Inr (chain, ledger, txs, restored)"
    and begun: "sim_stats sim1 = new_stats" "sim_ledger sim1 = ledger"
    and steps: "run_steps config options policy tmpl_params sim1 = Some (Inr (), sim)"
    and inv: "sim_inv (build_consensus_params config) sim"
  shows "describes config options (summary_from_chain (build_genesis_block config) (sim_chain sim) (sim_stats sim) restored)"
proof -
  note facts = initial_chain_facts [OF start]
  from run_steps_progress [OF steps] begun have counts:
    "st_blocks_mined (sim_stats sim) = of_nat (planned_blocks config options)"
    "st_txs_admitted (sim_stats sim) = of_nat (planned_txs options)"
    "length (sim_ledger sim) = length ledger + planned_blocks config options" "prefix ledger (sim_ledger sim)"
    by (simp_all add: progress_def new_stats_def)
  from inv have reach: "reachable (chain_init (build_consensus_params config)) chain_step (sim_ledger sim, sim_chain sim)"
    by (simp add: sim_inv_def)
  have "ledger \<noteq> []" using chain_system.reachable_inv [OF facts(1)] by (simp add: chain_inv_def)
  then have first: "hd (sim_ledger sim) = hd ledger" "length ledger \<ge> 1"
    using counts(4) by (auto simp: prefix_def Suc_le_eq)
  have height: "length (sim_ledger sim) = unat (chain_height (sim_chain sim)) + 1"
    using chain_system.reachable_inv [OF reach] by (simp add: chain_inv_def)
  show ?thesis
    unfolding describes_def
    using facts(2-4) first counts(1-3) height
    by (intro exI [of _ "sim_ledger sim"] exI [of _ "sim_chain sim"] conjI reach) (auto simp: summary_from_chain_def)
qed

lemma simulator_outcome:
  "\<exists>r fs'. run_simulator faults config options fs = Some (r, fs') \<and> (\<forall>summary. r = Inr summary \<longrightarrow> describes config options summary)"
proof -
  let ?params = "build_consensus_params config" and ?genesis = "build_genesis_block config"
  consider (address) e where "resolve_coinbase_recipient config = Inl e"
    | (start) recipient e where "resolve_coinbase_recipient config = Inr recipient"
        "initial_chain faults fs config ?params ?genesis = Inl e"
    | (run) recipient chain ledger txs restored where "resolve_coinbase_recipient config = Inr recipient"
        "initial_chain faults fs config ?params ?genesis = Inr (chain, ledger, txs, restored)"
    by (cases "resolve_coinbase_recipient config"; cases "initial_chain faults fs config ?params ?genesis") auto
  then show ?thesis
  proof cases
    case run
    let ?policy = "resolved_mempool_policy config" and ?tmpl = "build_template_params config ?params recipient"
    let ?restore = "if restored then restore_pool ?policy txs else ret ()"
    let ?op = "bind_op ?restore (\<lambda>_. run_steps config options ?policy ?tmpl)"
    let ?sim = "\<lparr>sim_chain = chain, sim_pool = new_mempool (resolve_mempool_limits config options),
      sim_ledger = ledger, sim_stats = new_stats\<rparr>"
    have inv0: "sim_inv ?params ?sim" using initial_chain_facts(1) [OF run(2)] by (simp add: sim_inv_def new_mempool_ok)
    have "keeps (sim_inv ?params) ?op" by (intro keeps_rules)
    from keepsD [OF this inv0] obtain r sim where op: "?op ?sim = Some (r, sim)" and inv: "sim_inv ?params sim" by blast
    show ?thesis
    proof (cases r)
      case (Inl e)
      with run op show ?thesis by (simp add: run_simulator_def Let_def)
    next
      case (Inr u)
      with op obtain sim1 where "?restore ?sim = Some (Inr (), sim1)" and
        steps: "run_steps config options ?policy ?tmpl sim1 = Some (Inr (), sim)" by (auto simp: bind_op_Inr)
      then have "sim_stats sim1 = new_stats" "sim_ledger sim1 = ledger"
        by (auto simp: restore_pool_def split: if_splits option.splits)
      note desc = run_described [OF run(2) this steps inv]
      have "run_simulator faults config options fs = finish_run faults config ?params ?genesis restored sim fs"
        using run op Inr by (simp add: run_simulator_def Let_def)
      with desc finish_run_returns [of faults config ?params ?genesis restored sim fs] show ?thesis by auto
    qed
  qed (auto simp: run_simulator_def)
qed

section \<open>Restarting\<close>

lemma config_updates:
  defines "c' config a b n \<equiv> config\<lparr>cfg_restore := a, cfg_persist := b, cfg_mine_blocks := n\<rparr>"
  shows "build_consensus_params (c' config a b n) = build_consensus_params config"
    "resolve_coinbase_recipient (c' config a b n) = resolve_coinbase_recipient config"
    "build_template_params (c' config a b n) p recipient = build_template_params config p recipient"
    "build_genesis_block (c' config a b n) = build_genesis_block config"
    "resolve_mempool_limits (c' config a b n) options = resolve_mempool_limits config options"
    "resolved_mempool_policy (c' config a b n) = resolved_mempool_policy config"
    "mine_round (c' config a b n) tmpl_params = mine_round config tmpl_params"
  unfolding c'_def
  by (simp_all add: build_consensus_params_def resolve_coinbase_recipient_def build_template_params_def
      build_genesis_block_def resolve_mempool_limits_def resolved_mempool_limits_def resolved_mempool_policy_def
      mine_round_def fun_eq_iff)

text \<open>A run with the default options, as the rounds of mining from its first state.\<close>

definition begun :: "NodeConfig \<Rightarrow> Chain \<Rightarrow> Block list \<Rightarrow> Simulation" where
  "begun config chain ledger =
     \<lparr>sim_chain = chain, sim_pool = new_mempool (resolve_mempool_limits config default_options),
      sim_ledger = ledger, sim_stats = new_stats\<rparr>"

lemma default_run:
  assumes "resolve_coinbase_recipient config = Inr recipient"
    and "initial_chain faults fs (config\<lparr>cfg_restore := a, cfg_persist := p, cfg_mine_blocks := k\<rparr>)
      (build_consensus_params config) (build_genesis_block config) = Inr (chain, ledger, [], a)"
  shows "run_simulator faults (config\<lparr>cfg_restore := a, cfg_persist := p, cfg_mine_blocks := k\<rparr>) default_options fs =
    (case repeat_op (unat k) (mine_round config (build_template_params config (build_consensus_params config) recipient))
        (begun config chain ledger) of
       None \<Rightarrow> None
     | Some (Inl e, sim) \<Rightarrow> Some (Inl e, fs)
     | Some (Inr _, sim) \<Rightarrow>
         finish_run faults (config\<lparr>cfg_restore := a, cfg_persist := p, cfg_mine_blocks := k\<rparr>)
           (build_consensus_params config) (build_genesis_block config) a sim fs)"
proof -
  have "restore_pool policy [] (begun config chain ledger) = Some (Inr (), begun config chain ledger)" for policy
    by (simp add: restore_pool_def begun_def)
  moreover have "opt_steps default_options = []" by (simp add: default_options_def)
  ultimately show ?thesis
    using assms
    by (simp add: run_simulator_def Let_def config_updates run_steps_def mine_n_blocks_def
        begun_def [symmetric] bind_op_run)
qed

lemma mined_returns:
  assumes "resolve_coinbase_recipient config = Inr recipient"
    and "chain_create (build_genesis_block config) params = Inr chain"
  shows "\<exists>r sim. repeat_op n (mine_round config (build_template_params config params recipient))
      (begun config chain [build_genesis_block config]) = Some (r, sim) \<and>
    sim_inv params sim \<and> fresh_inv (resolve_mempool_limits config default_options) sim"
proof -
  let ?sim = "begun config chain [build_genesis_block config]" and ?tmpl = "build_template_params config params recipient"
  have inv: "sim_inv params ?sim"
    using assms(2) by (auto simp: sim_inv_def begun_def new_mempool_ok chain_init_def intro!: reach_init)
  have fresh: "fresh_inv (resolve_mempool_limits config default_options) ?sim"
    using genesis_encodable by (simp add: fresh_inv_def begun_def)
  have "keeps (sim_inv params) (repeat_op n (mine_round config ?tmpl))" by (intro keeps_rules)
  from keepsD [OF this inv] obtain r sim where run: "repeat_op n (mine_round config ?tmpl) ?sim = Some (r, sim)" "sim_inv params sim"
    by blast
  have "preserves (fresh_inv (resolve_mempool_limits config default_options)) (repeat_op n (mine_round config ?tmpl))"
    using wf_recipient [OF assms(1)] by (intro preserves_rules mine_round_fresh) simp
  from preservesD [OF this fresh run(1)] run show ?thesis by blast
qed

text \<open>What a run has mined and saved is where a restoring run starts.\<close>

lemma stored_run:
  assumes recipient: "resolve_coinbase_recipient config = Inr recipient"
    and chain0: "chain_create (build_genesis_block config) (build_consensus_params config) = Inr chain0"
    and mined: "repeat_op n (mine_round config (build_template_params config (build_consensus_params config) recipient))
      (begun config chain0 [build_genesis_block config]) = Some (Inr (), sim)"
    and saved: "save_ledger faults (cfg_data_dir config) (sim_ledger sim) (build_consensus_params config)
      (sorted_transactions (sim_pool sim)) fs = (Inr (), fs1)"
    and size: "length (the (fs1 (ledger_path (cfg_data_dir config)))) \<le> 1048576001024"
  shows "initial_chain no_faults fs1 (config\<lparr>cfg_restore := True, cfg_persist := p, cfg_mine_blocks := k\<rparr>)
      (build_consensus_params config) (build_genesis_block config) = Inr (sim_chain sim, sim_ledger sim, [], True)"
    "same_state sim (begun config (sim_chain sim) (sim_ledger sim))"
proof -
  let ?params = "build_consensus_params config"
  from mined_returns [OF recipient chain0, of n] mined have inv: "sim_inv ?params sim" and
    fresh: "fresh_inv (resolve_mempool_limits config default_options) sim" by simp_all
  then show "same_state sim (begun config (sim_chain sim) (sim_ledger sim))"
    by (simp add: same_state_def begun_def fresh_inv_def)
  from inv have reach: "reachable (chain_init ?params) chain_step (sim_ledger sim, sim_chain sim)" by (simp add: sim_inv_def)
  from fresh saved have "save_ledger faults (cfg_data_dir config) (sim_ledger sim) ?params [] fs = (Inr (), fs1)"
    by (simp add: fresh_inv_def fresh_sorted)
  from saved_ledger_loads [OF reach this _ _ _ size, of no_faults] fresh have
    load: "load_ledger no_faults fs1 (cfg_data_dir config) =
      Inr \<lparr>ld_blocks = sim_ledger sim, ld_params = ?params, ld_mempool_transactions = []\<rparr>"
    by (simp add: fresh_inv_def no_faults_def)
  have "ledger_exists fs1 (cfg_data_dir config)"
    using saved ledger_paths_differ by (auto simp: save_ledger_ok ledger_exists_def is_regular_file_def encode_ledger_iff with_ledger_checksum_eq ledger_body_def)
  moreover have "hd (sim_ledger sim) = build_genesis_block config"
    using mining_progress [OF mined] by (auto simp: progress_def begun_def prefix_def)
  moreover have "replay_loaded_chain (sim_ledger sim) ?params = Inr (sim_chain sim)"
    using reach chain_inv_heights [OF chain_system.reachable_inv [OF reach]]
    by (simp add: replay_loaded_eq replay_chain_reachable)
  ultimately show "initial_chain no_faults fs1 (config\<lparr>cfg_restore := True, cfg_persist := p, cfg_mine_blocks := k\<rparr>)
      ?params (build_genesis_block config) = Inr (sim_chain sim, sim_ledger sim, [], True)"
    using load by (simp add: initial_chain_def params_match_iff)
qed

lemma resumed_run:
  assumes first: "run_simulator faults (config\<lparr>cfg_restore := False, cfg_persist := True, cfg_mine_blocks := n\<rparr>)
      default_options fs = Some (Inr summary1, fs1)"
    and size: "length (the (fs1 (ledger_path (cfg_data_dir config)))) \<le> 1048576001024"
    and total: "unat n + unat m = unat nm"
  shows "\<exists>r r'.
    run_simulator no_faults (config\<lparr>cfg_restore := True, cfg_persist := False, cfg_mine_blocks := m\<rparr>)
      default_options fs1 = Some (r, fs1) \<and>
    run_simulator faults (config\<lparr>cfg_restore := False, cfg_persist := False, cfg_mine_blocks := nm\<rparr>)
      default_options fs = Some (r', fs) \<and>
    (case (r, r') of
       (Inl e, Inl e') \<Rightarrow> e = e'
     | (Inr summary, Inr summary') \<Rightarrow>
         sum_genesis_hash summary = sum_genesis_hash summary' \<and> sum_tip_hash summary = sum_tip_hash summary' \<and>
         sum_height summary = sum_height summary' \<and> sum_utxo_count summary = sum_utxo_count summary' \<and>
         sum_restored_from_disk summary \<and> sum_blocks_mined summary = m \<and> sum_blocks_mined summary' = nm
     | _ \<Rightarrow> False)"
proof -
  let ?params = "build_consensus_params config" and ?genesis = "build_genesis_block config"
    and ?dir = "cfg_data_dir config"
  obtain recipient where recipient: "resolve_coinbase_recipient config = Inr recipient"
    using first by (cases "resolve_coinbase_recipient config") (auto simp: run_simulator_def Let_def config_updates)
  let ?mine = "mine_round config (build_template_params config ?params recipient)"
  obtain chain0 where chain0: "chain_create ?genesis ?params = Inr chain0" using genesis_chain by simp
  let ?sim0 = "begun config chain0 [?genesis]"
  have fresh: "initial_chain faults fs (config\<lparr>cfg_restore := False, cfg_persist := p, cfg_mine_blocks := k\<rparr>) ?params ?genesis =
      Inr (chain0, [?genesis], [], False)" for p k
    using chain0 by (simp add: initial_chain_def)
  from first obtain sim1 where mined: "repeat_op (unat n) ?mine ?sim0 = Some (Inr (), sim1)" and
    saved: "save_ledger faults ?dir (sim_ledger sim1) ?params (sorted_transactions (sim_pool sim1)) fs = (Inr (), fs1)"
    by (auto simp: default_run [OF recipient fresh] finish_run_def Let_def split: option.splits sum.splits prod.splits)
  from stored_run [OF recipient chain0 mined saved size] have
    restored: "initial_chain no_faults fs1 (config\<lparr>cfg_restore := True, cfg_persist := False, cfg_mine_blocks := m\<rparr>) ?params ?genesis =
      Inr (sim_chain sim1, sim_ledger sim1, [], True)" and
    same: "same_state sim1 (begun config (sim_chain sim1) (sim_ledger sim1))" by simp_all
  from mined_returns [OF recipient chain0] obtain r sim2 where whole: "repeat_op (unat nm) ?mine ?sim0 = Some (r, sim2)" by blast
  with repeat_op_add [OF mined, of "unat m"] total have "repeat_op (unat m) ?mine sim1 = Some (r, sim2)" by simp
  from repeat_same [OF same this] obtain sim3 where
    more: "repeat_op (unat m) ?mine (begun config (sim_chain sim1) (sim_ledger sim1)) = Some (r, sim3)" and
    "same_state sim2 sim3" by blast
  moreover have "r = Inr () \<Longrightarrow> st_blocks_mined (sim_stats sim3) = m \<and> st_blocks_mined (sim_stats sim2) = nm"
    using mining_progress [of "unat m"] mining_progress [of "unat nm"] more whole
    by (auto simp: progress_def begun_def new_stats_def)
  ultimately show ?thesis
    using whole
    by (cases r) (auto simp: default_run [OF recipient fresh] default_run [OF recipient restored] finish_run_def
        same_state_def summary_from_chain_def)
qed

section \<open>Properties\<close>

text \<open>C25. Every run of the simulator returns, whatever its scenario, its files and their failures. A
  summary describes a real chain: one that creation and successful submissions of blocks produce
  under the configured parameters, from a genesis block with the configured hash; its tip, height
  and number of unspent outputs are reported. All planned blocks were mined and all planned
  transactions admitted, and a run that did not restore a ledger is as high as it mined blocks.\<close>

theorem simulator_reports_chain:
  "\<exists>r fs'. run_simulator faults config options fs = Some (r, fs') \<and>
     (case r of
        Inl e \<Rightarrow> True
      | Inr summary \<Rightarrow>
          \<exists>blocks chain. reachable (chain_init (build_consensus_params config)) chain_step (blocks, chain) \<and>
            header_hash (blk_header (hd blocks)) = sum_genesis_hash summary \<and>
            sum_genesis_hash summary = header_hash (blk_header (build_genesis_block config)) \<and>
            sum_tip_hash summary = chain_tip_hash chain \<and> sum_height summary = chain_height chain \<and>
            sum_utxo_count summary = utxo_size (ch_utxos chain) \<and>
            sum_blocks_mined summary = of_nat (planned_blocks config options) \<and>
            sum_txs_admitted summary = of_nat (planned_txs options) \<and>
            planned_blocks config options \<le> unat (sum_height summary) \<and>
            sum_restored_from_disk summary = cfg_restore config \<and>
            (cfg_restore config \<or> unat (sum_height summary) = planned_blocks config options))"
proof -
  from simulator_outcome [of faults config options fs] obtain r fs'
    where "run_simulator faults config options fs = Some (r, fs')" "\<forall>summary. r = Inr summary \<longrightarrow> describes config options summary"
    by blast
  then show ?thesis by (cases r) (simp_all add: describes_def)
qed


lemma genesis_length: "length (enc_block (build_genesis_block config)) = 84"
  using length_block_to_bytes [of "build_genesis_block config"] genesis_encodable [of config]
  by (simp add: encodable_block_def wire_simps) (simp add: build_genesis_block_def)

text \<open>A run that saves the genesis block of the default configuration.\<close>

lemma genesis_saved:
  "\<exists>summary fs1. run_simulator no_faults (default_config\<lparr>cfg_restore := False, cfg_persist := True, cfg_mine_blocks := 0\<rparr>)
      default_options Map.empty = Some (Inr summary, fs1) \<and>
    length (the (fs1 (ledger_path (cfg_data_dir default_config)))) \<le> 1048576001024"
proof -
  let ?g = "build_genesis_block default_config" and ?params = "build_consensus_params default_config"
    and ?dir = "cfg_data_dir default_config"
  let ?ld = "\<lparr>ld_blocks = [?g], ld_params = ?params, ld_mempool_transactions = []\<rparr>"
  let ?bytes = "with_ledger_checksum (ledger_body 2 ?ld)"
  let ?fs = "Map.empty(ledger_path ?dir \<mapsto> ?bytes, ledger_temp_path ?dir := None)"
  have "heights_from_zero [?g]" by (simp add: heights_from_zero_def build_genesis_block_def)
  moreover have "encode_ledger [?g] ?params [] = Inr ?bytes"
    by (simp add: encode_ledger_iff wire_simps genesis_length)
  ultimately have save: "save_ledger no_faults ?dir [?g] ?params [] Map.empty = (Inr (), ?fs)"
    by (auto simp: save_ledger_ok no_faults_def)
  obtain chain where "chain_create ?g ?params = Inr chain" using genesis_chain by simp
  then have start: "initial_chain no_faults Map.empty (default_config\<lparr>cfg_restore := False, cfg_persist := True, cfg_mine_blocks := 0\<rparr>)
      ?params ?g = Inr (chain, [?g], [], False)" by (simp add: initial_chain_def)
  have "\<exists>summary. run_simulator no_faults (default_config\<lparr>cfg_restore := False, cfg_persist := True, cfg_mine_blocks := 0\<rparr>)
      default_options Map.empty = Some (Inr summary, ?fs)"
    using save by (simp add: default_run [OF default_recipient start] finish_run_def begun_def fresh_sorted)
  moreover have "length (the (?fs (ledger_path ?dir))) \<le> 1048576001024"
    using ledger_paths_differ [of ?dir]
    by (simp add: with_ledger_checksum_eq ledger_body_def enc_counted_def enc_block_entry_def genesis_length)
  ultimately show ?thesis by blast
qed


end
