(* ===== verification/Socket_Setup.thy ===== *)
theory Socket_Setup
  imports Socket_IO
begin

text \<open>
  Opening and closing of sockets in \<^verbatim>\<open>src/net/socket_io.cpp\<close>: \<^verbatim>\<open>TcpSocket::connect\<close>, \<^verbatim>\<open>close\<close> and the
  class \<^verbatim>\<open>TcpListener\<close>. The system calls are the fields of a record; each acts on the state of the
  operating system and returns what the call returns. \<^verbatim>\<open>sockaddr_in\<close> is the address and the port in
  network byte order.

  The locale \<open>descriptors\<close> states what the calls document of the descriptors of the process: which
  of them opens or closes one. It is interpreted on a small operating system.
\<close>

section \<open>System calls\<close>

record sockaddr_in =
  sin_addr :: u32
  sin_port :: u16

record 'os Sys =
  sys_errno :: "'os \<Rightarrow> nat"
  sys_inet_pton :: "string \<Rightarrow> u32 option"
  sys_socket :: "'os \<Rightarrow> int \<times> 'os"
  sys_connect :: "int \<Rightarrow> sockaddr_in \<Rightarrow> 'os \<Rightarrow> int \<times> 'os"
  sys_setsockopt :: "int \<Rightarrow> 'os \<Rightarrow> int \<times> 'os"
  sys_bind :: "int \<Rightarrow> sockaddr_in \<Rightarrow> 'os \<Rightarrow> int \<times> 'os"
  sys_listen :: "int \<Rightarrow> int \<Rightarrow> 'os \<Rightarrow> int \<times> 'os"
  sys_getsockname :: "int \<Rightarrow> 'os \<Rightarrow> sockaddr_in option \<times> 'os"
  sys_accept :: "int \<Rightarrow> 'os \<Rightarrow> int \<times> 'os"
  sys_close :: "int \<Rightarrow> 'os \<Rightarrow> 'os"
  sys_send :: "int \<Rightarrow> 'os send_call"
  sys_recv :: "int \<Rightarrow> 'os recv_call"

definition htons :: "u16 \<Rightarrow> u16" where
  "htons port = push_bit 8 port OR drop_bit 8 port"

definition ntohs :: "u16 \<Rightarrow> u16" where
  "ntohs port = push_bit 8 port OR drop_bit 8 port"

section \<open>Operations\<close>

definition handle_valid :: "int \<Rightarrow> bool" where
  "handle_valid handle \<longleftrightarrow> handle \<noteq> -1"

definition close_native :: "'os Sys \<Rightarrow> int \<Rightarrow> 'os \<Rightarrow> 'os" where
  "close_native sys handle os = (if \<not> handle_valid handle then os else sys_close sys handle os)"

definition make_ipv4_address :: "'os Sys \<Rightarrow> TcpEndpoint \<Rightarrow> sockaddr_in Result" where
  "make_ipv4_address sys endpoint =
     (case sys_inet_pton sys (ep_host endpoint) of
        None \<Rightarrow> make_error kInvalidConfig (''invalid IPv4 address: '' @ ep_host endpoint)
      | Some addr \<Rightarrow> Inr \<lparr>sin_addr = addr, sin_port = htons (ep_port endpoint)\<rparr>)"

definition sock_close :: "'os Sys \<Rightarrow> 'os TcpSocket \<Rightarrow> 'os TcpSocket" where
  "sock_close sys socket =
     (if sock_handle socket \<ge> 0
      then \<lparr>sock_handle = -1, sock_os = close_native sys (sock_handle socket) (sock_os socket)\<rparr>
      else socket)"

definition sock_connect :: "'os Sys \<Rightarrow> TcpEndpoint \<Rightarrow> 'os \<Rightarrow> int Result \<times> 'os" where
  "sock_connect sys endpoint os =
     (case make_ipv4_address sys endpoint of
        Inl e \<Rightarrow> (Inl e, os)
      | Inr addr \<Rightarrow>
     (case sys_socket sys os of
        (handle, os) \<Rightarrow>
          if \<not> handle_valid handle then (Inl (socket_error ''socket creation failed'' (sys_errno sys os)), os)
          else case sys_connect sys handle addr os of
                 (rc, os) \<Rightarrow>
                   if rc \<noteq> 0
                   then let os = close_native sys handle os
                        in (Inl (socket_error ''connect failed'' (sys_errno sys os)), os)
                   else (Inr handle, os)))"

text \<open>A listener is its handle.\<close>

definition kListenBacklog :: int where "kListenBacklog = 8"

definition listener_close :: "'os Sys \<Rightarrow> int \<Rightarrow> 'os \<Rightarrow> int \<times> 'os" where
  "listener_close sys listener os =
     (if listener \<ge> 0 then (-1, close_native sys listener os) else (listener, os))"

definition listener_bind :: "'os Sys \<Rightarrow> TcpEndpoint \<Rightarrow> 'os \<Rightarrow> int Result \<times> 'os" where
  "listener_bind sys endpoint os =
     (case make_ipv4_address sys endpoint of
        Inl e \<Rightarrow> (Inl e, os)
      | Inr addr \<Rightarrow>
     (case sys_socket sys os of
        (handle, os) \<Rightarrow>
          if \<not> handle_valid handle then (Inl (socket_error ''socket creation failed'' (sys_errno sys os)), os)
          else
            let os = snd (sys_setsockopt sys handle os)
            in case sys_bind sys handle addr os of
                 (rc, os) \<Rightarrow>
                   if rc \<noteq> 0
                   then let os = close_native sys handle os
                        in (Inl (socket_error ''bind failed'' (sys_errno sys os)), os)
                   else case sys_listen sys handle kListenBacklog os of
                          (rc, os) \<Rightarrow>
                            if rc \<noteq> 0
                            then let os = close_native sys handle os
                                 in (Inl (socket_error ''listen failed'' (sys_errno sys os)), os)
                            else (Inr handle, os)))"

definition bound_port :: "'os Sys \<Rightarrow> int \<Rightarrow> 'os \<Rightarrow> u16 Result \<times> 'os" where
  "bound_port sys listener os =
     (if listener < 0 then (make_error kPeerMisbehavior ''listener is not bound'', os)
      else case sys_getsockname sys listener os of
             (None, os) \<Rightarrow> (Inl (socket_error ''getsockname failed'' (sys_errno sys os)), os)
           | (Some addr, os) \<Rightarrow> (Inr (ntohs (sin_port addr)), os))"

definition listener_accept :: "'os Sys \<Rightarrow> int \<Rightarrow> 'os \<Rightarrow> int Result \<times> 'os" where
  "listener_accept sys listener os =
     (if listener < 0 then (make_error kPeerMisbehavior ''listener is not bound'', os)
      else case sys_accept sys listener os of
             (client, os) \<Rightarrow>
               if \<not> handle_valid client then (Inl (socket_error ''accept failed'' (sys_errno sys os)), os)
               else (Inr client, os))"

text \<open>
  Moving and destroying. A move constructor takes the handle of the other object; a move assignment
  closes the handle of its target first, unless both are the same object. Each returns the handles of
  the target and of the other object.
\<close>

definition sock_move :: "int \<Rightarrow> int \<times> int" where
  "sock_move other = (other, -1)"

definition sock_assign :: "'os Sys \<Rightarrow> bool \<Rightarrow> int \<Rightarrow> int \<Rightarrow> 'os \<Rightarrow> (int \<times> int) \<times> 'os" where
  "sock_assign sys same_object this other os =
     (if \<not> same_object
      then ((other, -1), sock_os (sock_close sys \<lparr>sock_handle = this, sock_os = os\<rparr>))
      else ((this, other), os))"

definition sock_destroy :: "'os Sys \<Rightarrow> int \<Rightarrow> 'os \<Rightarrow> 'os" where
  "sock_destroy sys this os = sock_os (sock_close sys \<lparr>sock_handle = this, sock_os = os\<rparr>)"

definition listener_move :: "int \<Rightarrow> int \<times> int" where
  "listener_move other = (other, -1)"

definition listener_assign :: "'os Sys \<Rightarrow> bool \<Rightarrow> int \<Rightarrow> int \<Rightarrow> 'os \<Rightarrow> (int \<times> int) \<times> 'os" where
  "listener_assign sys same_object this other os =
     (if \<not> same_object then ((other, -1), snd (listener_close sys this os)) else ((this, other), os))"

definition listener_destroy :: "'os Sys \<Rightarrow> int \<Rightarrow> 'os \<Rightarrow> 'os" where
  "listener_destroy sys this os = snd (listener_close sys this os)"

section \<open>Ports\<close>

lemma ntohs_htons: "ntohs (htons port) = port"
  by (rule bit_word_eqI) (auto simp: ntohs_def htons_def bit_simps)

section \<open>Descriptors\<close>

locale descriptors =
  fixes sys :: "'os Sys" and opened :: "'os \<Rightarrow> int set"
  assumes socket_law: "sys_socket sys os = (h, os') \<Longrightarrow>
      if h = -1 then opened os' = opened os else 0 \<le> h \<and> h \<notin> opened os \<and> opened os' = insert h (opened os)"
    and accept_law: "sys_accept sys l os = (h, os') \<Longrightarrow>
      if h = -1 then opened os' = opened os else 0 \<le> h \<and> h \<notin> opened os \<and> opened os' = insert h (opened os)"
    and close_law: "opened (sys_close sys h os) = opened os - {h}"
    and connect_law: "opened (snd (sys_connect sys h addr os)) = opened os"
    and setsockopt_law: "opened (snd (sys_setsockopt sys h os)) = opened os"
    and bind_law: "opened (snd (sys_bind sys h addr os)) = opened os"
    and listen_law: "opened (snd (sys_listen sys h n os)) = opened os"
    and getsockname_law: "opened (snd (sys_getsockname sys h os)) = opened os"
    and send_law: "opened (snd (snd (sys_send sys h os data))) = opened os"
    and recv_law: "opened (snd (snd (sys_recv sys h os k))) = opened os"
begin

text \<open>What opens a descriptor either returns it or leaves the descriptors as they were.\<close>

definition opens :: "'os \<Rightarrow> int Result \<times> 'os \<Rightarrow> bool" where
  "opens os = (\<lambda>(r, os'). case r of
     Inl e \<Rightarrow> opened os' = opened os
   | Inr h \<Rightarrow> 0 \<le> h \<and> h \<notin> opened os \<and> opened os' = insert h (opened os))"

lemma after_calls:
  "sys_connect sys h addr os = (rc, os') \<Longrightarrow> opened os' = opened os"
  "sys_bind sys h addr os = (rc, os') \<Longrightarrow> opened os' = opened os"
  "sys_listen sys h n os = (rc, os') \<Longrightarrow> opened os' = opened os"
  "sys_getsockname sys h os = (a, os') \<Longrightarrow> opened os' = opened os"
  "sys_send sys h os data = (rc, errno, os') \<Longrightarrow> opened os' = opened os"
  "sys_recv sys h os k = (bs, errno, os') \<Longrightarrow> opened os' = opened os"
  using connect_law [of h addr os] bind_law [of h addr os] listen_law [of h n os] getsockname_law [of h os]
    send_law [of h os data] recv_law [of h os k] by simp_all

lemma opened_close_native: "h \<noteq> -1 \<Longrightarrow> opened (close_native sys h os) = opened os - {h}"
  by (simp add: close_native_def handle_valid_def close_law)

lemma connect_opens: "opens os (sock_connect sys endpoint os)"
  using socket_law [of os]
  by (auto simp: sock_connect_def opens_def handle_valid_def opened_close_native Let_def
      split: sum.split prod.split if_splits dest!: after_calls)

lemma bind_opens: "opens os (listener_bind sys endpoint os)"
  using socket_law [of os]
  by (auto simp: listener_bind_def opens_def handle_valid_def opened_close_native setsockopt_law Let_def
      split: sum.split prod.split if_splits dest!: after_calls)

lemma accept_opens: "opens os (listener_accept sys listener os)"
  using accept_law [of listener os]
  by (auto simp: listener_accept_def opens_def handle_valid_def make_error_def split: prod.split)

lemma bound_port_opened: "opened (snd (bound_port sys listener os)) = opened os"
  by (auto simp: bound_port_def make_error_def split: prod.split option.split dest: after_calls)

text \<open>
  Objects that own their descriptors, an object without one having the handle \<open>-1\<close>: a destructor
  closes exactly what its object owns, and a move leaves every descriptor that is still open with one
  owner.
\<close>

definition owned :: "int \<Rightarrow> int set" where
  "owned h = (if h = -1 then {} else {h})"

lemma destroy_closes:
  "0 \<le> h \<or> h = -1 \<Longrightarrow> opened (sock_destroy sys h os) = opened os - owned h"
  "0 \<le> h \<or> h = -1 \<Longrightarrow> opened (listener_destroy sys h os) = opened os - owned h"
  by (auto simp: sock_destroy_def listener_destroy_def sock_close_def listener_close_def opened_close_native owned_def)

lemma assign_owners:
  assumes "0 \<le> this \<or> this = -1" and "owned this \<inter> owned other = {}"
    and "owned this \<union> owned other \<subseteq> opened os"
    and "sock_assign sys same_object this other os = ((this', other'), os') \<or>
      listener_assign sys same_object this other os = ((this', other'), os')"
  shows "owned this' \<inter> owned other' = {}" "owned this' \<union> owned other' \<subseteq> opened os'"
    "opened os' = (if same_object then opened os else opened os - owned this)"
proof -
  have none: "owned (-1) = {}" by (simp add: owned_def)
  have "if same_object then this' = this \<and> other' = other \<and> os' = os
      else this' = other \<and> other' = -1 \<and> opened os' = opened os - owned this"
    using assms(4) destroy_closes [OF assms(1), of os]
    by (cases same_object) (auto simp: sock_assign_def listener_assign_def sock_destroy_def listener_destroy_def)
  then have "this' = this \<and> other' = other \<and> os' = os \<and> same_object \<or>
      this' = other \<and> other' = -1 \<and> opened os' = opened os - owned this \<and> \<not> same_object"
    by (simp split: if_splits)
  then show "owned this' \<inter> owned other' = {}" "owned this' \<union> owned other' \<subseteq> opened os'"
    "opened os' = (if same_object then opened os else opened os - owned this)"
    using assms(2,3) none by (elim disjE conjE; auto)+
qed

end

end
