(* ===== verification/Network.thy ===== *)
theory Network
  imports Peer_State Socket_Setup
begin

text \<open>
  The network modes of \<^verbatim>\<open>src/node/network.cpp\<close>: the one-shot handshake with ping and pong, the relay
  server that serves one peer after another, and the relay client that fetches the blocks it lacks.
  The state of a program run is the host (its files, its operating system and the variable a caller
  may pass for the bound port). \<^verbatim>\<open>TcpSocket\<close> and \<^verbatim>\<open>TcpListener\<close> close their descriptors when they go
  out of scope; \<open>with_handle\<close> and \<open>closing\<close> say where.
\<close>

section \<open>State\<close>

record 'os Host =
  hst_files :: files
  hst_os :: 'os
  hst_port_ready :: u16

record RelaySessionSummary =
  rs_height :: u32
  rs_mempool_size :: nat

record RelayClientResult =
  rc_height :: u32
  rc_tip_hash :: Hash256

record RelayClientOptions =
  txs_after_sync :: "Transaction list"
  blocks_after_tx :: u32

record RelayServerOptions =
  max_sessions :: u32
  port_ready :: bool

record RelayServerResult =
  sessions_completed :: u32
  listen_port :: u16
  last_session :: RelaySessionSummary

section \<open>Handshake, ping and pong\<close>

abbreviation (input) sock_send :: "'os send_call \<Rightarrow> P2pMessage \<Rightarrow> ('os TcpSocket, unit) op" where
  "sock_send send m \<equiv> (\<lambda>socket. Some (send_message send m socket))"

abbreviation (input) sock_recv :: "'os recv_call \<Rightarrow> ('os TcpSocket, P2pMessage) op" where
  "sock_recv recv \<equiv> (\<lambda>socket. Some (recv_message recv socket))"

definition config_handshake :: "NodeConfig \<Rightarrow> HandshakePayload" where
  "config_handshake config =
     \<lparr>hs_network_magic = kNetworkMagic, hs_height = 0, hs_tip_hash = zero_hash, hs_node_id = cfg_node_id config\<rparr>"

definition expect_handshake :: "P2pMessage \<Rightarrow> HandshakePayload Result" where
  "expect_handshake message = parse_handshake_message message"

definition exchange_handshake :: "'os send_call \<Rightarrow> 'os recv_call \<Rightarrow> NodeConfig \<Rightarrow> ('os TcpSocket, unit) op" where
  "exchange_handshake send recv config =
     bind_op (of_result (make_handshake_message (config_handshake config))) (\<lambda>outbound.
     bind_op (sock_send send outbound) (\<lambda>_.
     bind_op (sock_recv recv) (\<lambda>inbound.
     bind_op (of_result (expect_handshake inbound)) (\<lambda>_. ret ()))))"

definition serve_handshake :: "'os send_call \<Rightarrow> 'os recv_call \<Rightarrow> NodeConfig \<Rightarrow> ('os TcpSocket, unit) op" where
  "serve_handshake send recv config =
     bind_op (sock_recv recv) (\<lambda>inbound.
     bind_op (of_result (expect_handshake inbound)) (\<lambda>_.
     bind_op (of_result (make_handshake_message (config_handshake config))) (\<lambda>outbound.
     sock_send send outbound)))"

definition ping_nonce :: "NodeConfig \<Rightarrow> u64" where
  "ping_nonce config = (if cfg_genesis_timestamp config \<noteq> 0 then cfg_genesis_timestamp config else 1)"

definition write_port_file :: "Faults \<Rightarrow> string \<Rightarrow> u16 \<Rightarrow> (files, unit) op" where
  "write_port_file faults path port fs =
     (let text = string_bytes (to_string_nat (unat port))
      in if open_fails faults
         then Some (make_error kInvalidConfig (''failed to open port file for write: '' @ path), fs)
         else case write_fails faults of
                Some n \<Rightarrow> Some (make_error kInvalidConfig (''failed to write port file: '' @ path), fs(path \<mapsto> take n text))
              | None \<Rightarrow> Some (Inr (), fs(path \<mapsto> text)))"

abbreviation (input) on_files :: "(files, 'a) op \<Rightarrow> ('os Host, 'a) op" where
  "on_files op \<equiv> zoom hst_files (\<lambda>fs host. host\<lparr>hst_files := fs\<rparr>) op"

abbreviation (input) on_os :: "('os \<Rightarrow> 'a Result \<times> 'os) \<Rightarrow> ('os Host, 'a) op" where
  "on_os f \<equiv> zoom hst_os (\<lambda>os host. host\<lparr>hst_os := os\<rparr>) (\<lambda>os. Some (f os))"

definition publish_listen_port :: "Faults \<Rightarrow> NodeConfig \<Rightarrow> RelayServerOptions \<Rightarrow> u16 \<Rightarrow> ('os Host, unit) op" where
  "publish_listen_port faults config options port =
     bind_op (\<lambda>host. Some (Inr (), if port_ready options then host\<lparr>hst_port_ready := port\<rparr> else host)) (\<lambda>_.
     if cfg_port_file config \<noteq> [] then on_files (write_port_file faults (cfg_port_file config) port) else ret ())"

definition is_network_server :: "NodeConfig \<Rightarrow> bool" where
  "is_network_server config = cfg_listen_enabled config"

definition is_network_client :: "NodeConfig \<Rightarrow> bool" where
  "is_network_client config \<longleftrightarrow> cfg_peer_port config \<noteq> 0"

definition network_mode_enabled :: "NodeConfig \<Rightarrow> bool" where
  "network_mode_enabled config \<longleftrightarrow> is_network_server config \<or> is_network_client config"

definition serve_ping_connection :: "'os send_call \<Rightarrow> 'os recv_call \<Rightarrow> NodeConfig \<Rightarrow> ('os TcpSocket, unit) op" where
  "serve_ping_connection send recv config =
     bind_op (serve_handshake send recv config) (\<lambda>_.
     bind_op (sock_recv recv) (\<lambda>inbound.
     bind_op (of_result (parse_ping_message inbound)) (\<lambda>ping.
     bind_op (of_result (make_pong_message \<lparr>nonce = nonce ping\<rparr>)) (\<lambda>pong.
     sock_send send pong))))"

section \<open>Relay sessions\<close>

definition serve_relay_handshake :: "'os send_call \<Rightarrow> 'os recv_call \<Rightarrow> ('os Session, unit) op" where
  "serve_relay_handshake send recv =
     bind_op (on_socket (recv_message recv)) (\<lambda>inbound.
     bind_op (of_result (parse_handshake_message inbound)) (\<lambda>_.
     bind_op (gets (\<lambda>s. local_handshake (nd_state (ss_node s)))) (\<lambda>hs.
     bind_op (of_result (make_handshake_message hs)) (\<lambda>outbound.
     on_socket (send_message send outbound)))))"

definition exchange_relay_handshake :: "'os send_call \<Rightarrow> 'os recv_call \<Rightarrow> ('os Session, HandshakePayload) op" where
  "exchange_relay_handshake send recv =
     bind_op (gets (\<lambda>s. local_handshake (nd_state (ss_node s)))) (\<lambda>hs.
     bind_op (of_result (make_handshake_message hs)) (\<lambda>outbound.
     bind_op (on_socket (send_message send outbound)) (\<lambda>_.
     bind_op (on_socket (recv_message recv)) (\<lambda>inbound.
     of_result (parse_handshake_message inbound)))))"

definition peer_disconnected :: "Error \<Rightarrow> bool" where
  "peer_disconnected err \<longleftrightarrow>
     err_code err = kPeerMisbehavior \<and> contains_substring ''socket recv failed'' (err_message err)"

definition send_tx_announces :: "'os send_call \<Rightarrow> Transaction list \<Rightarrow> ('os Session, unit) op" where
  "send_tx_announces send txs =
     each_op (\<lambda>tx.
       bind_op (of_result (make_tx_announce_message \<lparr>tx_bytes = tx_to_bytes tx\<rparr>)) (\<lambda>message.
       on_socket (send_message send message))) txs"

definition make_relay_summary :: "PeerState \<Rightarrow> RelaySessionSummary" where
  "make_relay_summary st =
     \<lparr>rs_height = chain_height (ps_chain st), rs_mempool_size = length (by_txid (ps_mempool st))\<rparr>"

definition kMaxRelayMessages :: nat where "kMaxRelayMessages = 64"

fun relay_rounds ::
    "'os send_call \<Rightarrow> 'os recv_call \<Rightarrow> (nat \<Rightarrow> Faults) \<Rightarrow> nat \<Rightarrow> ('os Session, unit) op" where
  "relay_rounds send recv faults 0 =
     of_result (make_error kResourceLimitExceeded ''relay message loop limit exceeded'')"
| "relay_rounds send recv faults (Suc n) =
     bind_op (attempt (on_socket (recv_message recv))) (\<lambda>inbound.
     case inbound of
       Inl e \<Rightarrow> if peer_disconnected e then ret () else of_result (Inl e)
     | Inr message \<Rightarrow>
         bind_op (handle_message send (faults n) message) (\<lambda>_. relay_rounds send recv faults n))"

definition relay_message_loop ::
    "'os send_call \<Rightarrow> 'os recv_call \<Rightarrow> (nat \<Rightarrow> Faults) \<Rightarrow> ('os Session, unit) op" where
  "relay_message_loop send recv faults = relay_rounds send recv faults kMaxRelayMessages"

definition serve_relay_connection ::
    "'os send_call \<Rightarrow> 'os recv_call \<Rightarrow> (nat \<Rightarrow> Faults) \<Rightarrow> ('os Session, RelaySessionSummary) op" where
  "serve_relay_connection send recv faults =
     bind_op (serve_relay_handshake send recv) (\<lambda>_.
     bind_op (relay_message_loop send recv faults) (\<lambda>_.
     bind_op (on_node (persist_ledger (faults kMaxRelayMessages))) (\<lambda>_.
     gets (\<lambda>s. make_relay_summary (nd_state (ss_node s))))))"

section \<open>Programs\<close>

text \<open>A scope that ends in any case.\<close>

definition closing :: "('s, 'a) op \<Rightarrow> ('s \<Rightarrow> 's) \<Rightarrow> ('s, 'a) op" where
  "closing op cleanup s = map_option (\<lambda>(r, s'). (r, cleanup s')) (op s)"

definition with_handle ::
    "('os \<Rightarrow> int Result \<times> 'os) \<Rightarrow> (int \<Rightarrow> 'os \<Rightarrow> 'os) \<Rightarrow> (int \<Rightarrow> ('os Host, 'a) op) \<Rightarrow> ('os Host, 'a) op" where
  "with_handle open_it close_it body =
     bind_op (on_os open_it) (\<lambda>handle.
     closing (body handle) (\<lambda>host. host\<lparr>hst_os := close_it handle (hst_os host)\<rparr>))"

abbreviation (input) with_listener ::
    "'os Sys \<Rightarrow> TcpEndpoint \<Rightarrow> (int \<Rightarrow> ('os Host, 'a) op) \<Rightarrow> ('os Host, 'a) op" where
  "with_listener sys endpoint body \<equiv>
     with_handle (listener_bind sys endpoint) (listener_destroy sys) body"

abbreviation (input) with_socket ::
    "'os Sys \<Rightarrow> ('os \<Rightarrow> int Result \<times> 'os) \<Rightarrow> (int \<Rightarrow> ('os Host, 'a) op) \<Rightarrow> ('os Host, 'a) op" where
  "with_socket sys open_it body \<equiv>
     with_handle open_it (sock_destroy sys) body"

abbreviation (input) on_connection :: "int \<Rightarrow> ('os TcpSocket, 'a) op \<Rightarrow> ('os Host, 'a) op" where
  "on_connection handle op \<equiv>
     zoom (\<lambda>host. \<lparr>sock_handle = handle, sock_os = hst_os host\<rparr>) (\<lambda>socket host. host\<lparr>hst_os := sock_os socket\<rparr>) op"

text \<open>A relay session of a node on a connection.\<close>

abbreviation (input) in_session :: "int \<Rightarrow> PeerState \<Rightarrow> ('os Session, 'a) op \<Rightarrow> ('os Host, 'a) op" where
  "in_session handle st op \<equiv>
     zoom (\<lambda>host. \<lparr>ss_node = \<lparr>nd_state = st, nd_files = hst_files host\<rparr>,
                   ss_socket = \<lparr>sock_handle = handle, sock_os = hst_os host\<rparr>\<rparr>)
          (\<lambda>s host. host\<lparr>hst_files := nd_files (ss_node s), hst_os := sock_os (ss_socket s)\<rparr>) op"

definition serve_relay_config ::
    "'os Sys \<Rightarrow> (nat \<Rightarrow> Faults) \<Rightarrow> int \<Rightarrow> NodeConfig \<Rightarrow> ('os Host, RelaySessionSummary) op" where
  "serve_relay_config sys faults handle config =
     bind_op (on_files (from_config (faults 0) config)) (\<lambda>st.
     in_session handle st (serve_relay_connection (sys_send sys handle) (sys_recv sys handle) faults))"

text \<open>One round of the accept loop: the peer's socket is closed at its end.\<close>

definition accept_peer :: "'os Sys \<Rightarrow> int \<Rightarrow> ('os Session, int) op" where
  "accept_peer sys listener s =
     (case listener_accept sys listener (sock_os (ss_socket s)) of
        (Inl e, os) \<Rightarrow> Some (Inl e, s\<lparr>ss_socket := \<lparr>sock_handle = -1, sock_os = os\<rparr>\<rparr>)
      | (Inr handle, os) \<Rightarrow> Some (Inr handle, s\<lparr>ss_socket := \<lparr>sock_handle = handle, sock_os = os\<rparr>\<rparr>))"

definition relay_session :: "'os Sys \<Rightarrow> (nat \<Rightarrow> Faults) \<Rightarrow> int \<Rightarrow> ('os Session, RelaySessionSummary) op" where
  "relay_session sys faults listener =
     bind_op (accept_peer sys listener) (\<lambda>handle.
     closing (serve_relay_connection (sys_send sys handle) (sys_recv sys handle) faults)
       (\<lambda>s. s\<lparr>ss_socket := sock_close sys (ss_socket s)\<rparr>))"

fun relay_sessions ::
    "'os Sys \<Rightarrow> (nat \<Rightarrow> nat \<Rightarrow> Faults) \<Rightarrow> int \<Rightarrow> nat \<Rightarrow> RelayServerResult \<Rightarrow> ('os Session, RelayServerResult) op" where
  "relay_sessions sys faults listener 0 result = ret result"
| "relay_sessions sys faults listener (Suc n) result =
     bind_op (relay_session sys (faults n) listener) (\<lambda>session.
     relay_sessions sys faults listener n
       (result\<lparr>last_session := session, sessions_completed := sessions_completed result + 1\<rparr>))"

definition run_relay_server ::
    "'os Sys \<Rightarrow> (nat \<Rightarrow> nat \<Rightarrow> Faults) \<Rightarrow> NodeConfig \<Rightarrow> RelayServerOptions \<Rightarrow> ('os Host, RelayServerResult) op" where
  "run_relay_server sys faults config options =
     (let endpoint = \<lparr>ep_host = cfg_listen_host config, ep_port = cfg_listen_port config\<rparr>;
          limit = (if max_sessions options \<noteq> 0 then max_sessions options else cfg_relay_max_sessions config)
      in if limit = 0 then of_result (make_error kInvalidConfig ''relay max sessions must be at least 1'')
         else
           with_listener sys endpoint (\<lambda>listener.
           bind_op (on_os (bound_port sys listener)) (\<lambda>port.
           bind_op (publish_listen_port (faults (unat limit) 0) config options port) (\<lambda>_.
           bind_op (on_files (from_config (faults (unat limit) 1) config)) (\<lambda>st.
           in_session (-1) st (relay_sessions sys faults listener (unat limit)
             \<lparr>sessions_completed = 0, listen_port = port,
              last_session = \<lparr>rs_height = 0, rs_mempool_size = 0\<rparr>\<rparr>))))))"

definition request_block ::
    "'os send_call \<Rightarrow> 'os recv_call \<Rightarrow> Faults \<Rightarrow> u32 \<Rightarrow> ('os Session, unit) op" where
  "request_block send recv faults height =
     bind_op (of_result (make_block_request_message \<lparr>br_height = height\<rparr>)) (\<lambda>request.
     bind_op (on_socket (send_message send request)) (\<lambda>_.
     bind_op (on_socket (recv_message recv)) (\<lambda>inbound.
     handle_message send faults inbound)))"

text \<open>The loop over the missing heights; not returning is the value \<open>None\<close>.\<close>

partial_function (option) sync_blocks ::
    "'os send_call \<Rightarrow> 'os recv_call \<Rightarrow> Faults \<Rightarrow> u32 \<Rightarrow> u32 \<Rightarrow> 'os Session \<Rightarrow> (unit Result \<times> 'os Session) option" where
  "sync_blocks send recv faults target h s =
     (if h \<le> target
      then case request_block send recv faults h s of
             None \<Rightarrow> None
           | Some (Inl e, s) \<Rightarrow> Some (Inl e, s)
           | Some (Inr _, s) \<Rightarrow> sync_blocks send recv faults target (h + 1) s
      else Some (Inr (), s))"

definition fetch_next :: "'os send_call \<Rightarrow> 'os recv_call \<Rightarrow> Faults \<Rightarrow> ('os Session, unit) op" where
  "fetch_next send recv faults =
     bind_op (gets (\<lambda>s. chain_height (ps_chain (nd_state (ss_node s))) + 1)) (\<lambda>height.
     request_block send recv faults height)"

definition client_session ::
    "'os send_call \<Rightarrow> 'os recv_call \<Rightarrow> Faults \<Rightarrow> NodeConfig \<Rightarrow> RelayClientOptions \<Rightarrow>
     ('os Session, RelayClientResult) op" where
  "client_session send recv faults config options =
     bind_op (exchange_relay_handshake send recv) (\<lambda>peer_hs.
     bind_op (gets (\<lambda>s. chain_height (ps_chain (nd_state (ss_node s))))) (\<lambda>height.
     bind_op (sync_blocks send recv faults (hs_height peer_hs) (height + 1)) (\<lambda>_.
     bind_op (gets (\<lambda>s. chain_height (ps_chain (nd_state (ss_node s))))) (\<lambda>height.
     if height \<noteq> hs_height peer_hs
     then of_result (make_error kInvalidBlock
            (''relay client did not reach target height '' @ to_string_nat (unat (hs_height peer_hs))))
     else
       bind_op (if txs_after_sync options \<noteq> [] then send_tx_announces send (txs_after_sync options) else ret ()) (\<lambda>_.
       bind_op (repeat_op (unat (blocks_after_tx options)) (fetch_next send recv faults)) (\<lambda>_.
       bind_op (if cfg_persist config then on_node (peer_save_ledger faults) else ret ()) (\<lambda>_.
       gets (\<lambda>s. \<lparr>rc_height = chain_height (ps_chain (nd_state (ss_node s))),
                  rc_tip_hash = chain_tip_hash (ps_chain (nd_state (ss_node s)))\<rparr>))))))))"

definition run_relay_client ::
    "'os Sys \<Rightarrow> Faults \<Rightarrow> NodeConfig \<Rightarrow> RelayClientOptions \<Rightarrow> ('os Host, RelayClientResult) op" where
  "run_relay_client sys faults config options =
     (let endpoint = \<lparr>ep_host = cfg_peer_host config, ep_port = cfg_peer_port config\<rparr>
      in with_socket sys (sock_connect sys endpoint) (\<lambda>handle.
         bind_op (on_files (from_config faults (config\<lparr>cfg_persist := False\<rparr>))) (\<lambda>st.
         in_session handle st
           (client_session (sys_send sys handle) (sys_recv sys handle) faults config options))))"

definition run_ping_server :: "'os Sys \<Rightarrow> Faults \<Rightarrow> NodeConfig \<Rightarrow> ('os Host, unit) op" where
  "run_ping_server sys faults config =
     (let endpoint = \<lparr>ep_host = cfg_listen_host config, ep_port = cfg_listen_port config\<rparr>
      in with_listener sys endpoint (\<lambda>listener.
         bind_op (on_os (bound_port sys listener)) (\<lambda>port.
         bind_op (publish_listen_port faults config \<lparr>max_sessions = 0, port_ready = False\<rparr> port) (\<lambda>_.
         with_socket sys (listener_accept sys listener) (\<lambda>handle.
         on_connection handle
           (serve_ping_connection (sys_send sys handle) (sys_recv sys handle) config))))))"

definition ping_client :: "'os send_call \<Rightarrow> 'os recv_call \<Rightarrow> NodeConfig \<Rightarrow> ('os TcpSocket, unit) op" where
  "ping_client send recv config =
     bind_op (exchange_handshake send recv config) (\<lambda>_.
     bind_op (of_result (make_ping_message \<lparr>nonce = ping_nonce config\<rparr>)) (\<lambda>ping.
     bind_op (sock_send send ping) (\<lambda>_.
     bind_op (sock_recv recv) (\<lambda>inbound.
     bind_op (of_result (parse_pong_message inbound)) (\<lambda>pong.
     if nonce pong \<noteq> ping_nonce config
     then of_result (make_error kInvalidMessage ''pong nonce does not match ping'')
     else ret ())))))"

definition run_ping_client :: "'os Sys \<Rightarrow> NodeConfig \<Rightarrow> ('os Host, unit) op" where
  "run_ping_client sys config =
     (let endpoint = \<lparr>ep_host = cfg_peer_host config, ep_port = cfg_peer_port config\<rparr>
      in with_socket sys (sock_connect sys endpoint) (\<lambda>handle.
         on_connection handle (ping_client (sys_send sys handle) (sys_recv sys handle) config)))"

section \<open>Transactions to announce\<close>

definition load_transaction_file :: "Faults \<Rightarrow> files \<Rightarrow> string \<Rightarrow> Transaction Result" where
  "load_transaction_file faults fs path =
     (case fs path of
        None \<Rightarrow> make_error kInvalidConfig (''cannot open transaction file: '' @ path)
      | Some bytes \<Rightarrow>
          if length bytes > unat kMaxTransactionSizeBytes
          then make_error kResourceLimitExceeded (''transaction file exceeds max size: '' @ path)
          else if length bytes = 0
          then make_error kInvalidTransaction (''transaction file is empty: '' @ path)
          else if read_fails faults
          then make_error kInvalidConfig (''failed to read transaction file: '' @ path)
          else bindR (tx_deserialize (reader_of bytes)) (\<lambda>(tx, reader). Inr tx))"

definition relay_client_options_from_config :: "Faults \<Rightarrow> files \<Rightarrow> NodeConfig \<Rightarrow> RelayClientOptions Result" where
  "relay_client_options_from_config faults fs config =
     foldR (\<lambda>options path.
         bindR (load_transaction_file faults fs path) (\<lambda>tx.
         Inr (options\<lparr>txs_after_sync := txs_after_sync options @ [tx]\<rparr>)))
       \<lparr>txs_after_sync = [], blocks_after_tx = cfg_relay_blocks_after_tx config\<rparr>
       (cfg_announce_tx_files config)"

end
