(* ===== verification/Network_Correct.thy ===== *)
theory Network_Correct
  imports Network Peer_Correct
begin

text \<open>
  What the network modes promise: whatever the peer sends, a relay server returns, and no mode
  leaves a descriptor open; the relay client returns; and against a server that runs
  this program the client ends with the server's chain.
\<close>

section \<open>Sessions keep the invariant of the node\<close>

lemma relay_handshake_keeps [keeps_rules]:
  "keeps (session_inv st) (serve_relay_handshake send recv)"
  "keeps (session_inv st) (exchange_relay_handshake send recv)"
  unfolding serve_relay_handshake_def exchange_relay_handshake_def by (intro keeps_rules)+

lemma relay_rounds_keeps [keeps_rules]: "keeps (session_inv st) (relay_rounds send recv faults n)"
proof (induction n)
  case 0
  show ?case unfolding relay_rounds.simps by (intro keeps_rules)
next
  case (Suc n)
  then show ?case unfolding relay_rounds.simps by (intro keeps_rules)
qed

lemma serve_relay_keeps [keeps_rules]: "keeps (session_inv st) (serve_relay_connection send recv faults)"
  unfolding serve_relay_connection_def relay_message_loop_def by (intro keeps_rules)

lemma client_steps_keep [keeps_rules]:
  "keeps (session_inv st) (request_block send recv faults h)"
  "keeps (session_inv st) (fetch_next send recv faults)"
  "keeps (session_inv st) (send_tx_announces send txs)"
  unfolding fetch_next_def request_block_def send_tx_announces_def by (intro keeps_rules)+

section \<open>The client's loop ends\<close>

lemma sync_blocks_returns:
  assumes "target \<noteq> UINT32_MAX"
  shows "keeps (session_inv st) (sync_blocks send recv faults target h)"
proof -
  have "session_inv st s \<Longrightarrow> \<exists>r s'. sync_blocks send recv faults target h s = Some (r, s') \<and> session_inv st s'" for s
  proof (induction "unat target + 1 - unat h" arbitrary: h s rule: less_induct)
    case less
    show ?case
    proof (cases "h \<le> target")
      case False
      with less.prems show ?thesis by (subst sync_blocks.simps) simp
    next
      case True
      have "h \<noteq> UINT32_MAX"
      proof
        assume "h = UINT32_MAX"
        with True have "unat (UINT32_MAX :: u32) \<le> unat target" by (simp add: word_le_nat_alt)
        with unat_u32_less [of target] have "unat target = unat (UINT32_MAX :: u32)" by simp
        with assms show False by (simp add: word_unat_eq_iff)
      qed
      then have "unat (h + 1) = unat h + 1" using u32_succ [of h "h + 1"] by simp
      then have less_rem: "unat target + 1 - unat (h + 1) < unat target + 1 - unat h"
        using True by (simp add: word_le_nat_alt)
      from keepsD [OF client_steps_keep(1) [of st send recv faults h] less.prems] obtain r s' where
        step: "request_block send recv faults h s = Some (r, s')" "session_inv st s'" by blast
      show ?thesis
      proof (cases r)
        case (Inl e)
        with True step show ?thesis by (subst sync_blocks.simps) simp
      next
        case (Inr u)
        with True step less.hyps [OF less_rem step(2)] show ?thesis by (subst sync_blocks.simps) simp
      qed
    qed
  qed
  then show ?thesis by (simp add: keeps_def)
qed

section \<open>Continuing a chain\<close>

text \<open>A handshake with a node id of allowed length is sent in a message that the peer accepts.\<close>

lemma handshake_sendable:
  assumes "handshake_ok hs" and "hs_node_id hs \<noteq> []" and "length (hs_node_id hs) \<le> 64"
  shows "\<exists>m. make_handshake_message hs = Inr m \<and> message_ok m \<and> parse_handshake_message m = Inr hs"
proof -
  from assms obtain m where m: "make_handshake_message hs = Inr m"
    by (auto simp: make_handshake_message_def serialize_handshake_def result_simps Let_def)
  then have "message_ok m"
    using assms
    by (auto simp: make_handshake_message_def serialize_handshake_def result_simps Let_def
        message_ok_def wire_simps handshake_ok_def wf_hash_def)
  with m handshake_kind.parse_make [OF m assms(1)] show ?thesis by blast
qed

lemma chain_unique:
  "reachable (chain_init params) chain_step (bs, c) \<Longrightarrow> reachable (chain_init params) chain_step (bs, c') \<Longrightarrow> c = c'"
  by (simp flip: replay_chain_reachable)

lemma chain_continues:
  assumes "reachable (chain_init params) chain_step (bs @ bs', c')" and "reachable (chain_init params) chain_step (bs, c)"
  shows "foldR Ledger_Store.extend c bs' = Inr c'"
proof -
  have "bs \<noteq> []" using chain_system.reachable_inv [OF assms(2)] by (simp add: chain_inv_def)
  moreover have "replay_chain (bs @ bs') params = Inr c'" "replay_chain bs params = Inr c"
    using assms by (simp_all add: replay_chain_reachable)
  ultimately show ?thesis
    by (cases bs) (auto simp: replay_chain_eq result_simps foldR_append)
qed

lemma response_handled:
  assumes "make_block_response_message \<lparr>block_bytes = block_to_bytes b\<rparr> = Inr m" and "encodable_block b"
  shows "handle_message send faults m = on_node (bind_op (peer_connect_block b) (\<lambda>_. persist_ledger faults))"
proof -
  from block_response_kind.parse_make [OF assms(1)]
  have parse: "parse_block_response_message m = Inr \<lparr>block_bytes = block_to_bytes b\<rparr>" by simp
  then have kind: "msg_type m = kBlockResponse" by (simp add: block_response_kind.parse_iff)
  have "deserialize_block_announce (msg_payload m) = Inr \<lparr>block_bytes = block_to_bytes b\<rparr>"
    using parse by (simp add: parse_block_response_message_def deserialize_block_response_def kind)
  moreover have "parse_block_bytes (block_to_bytes b) = Inr b" using assms(2) by (simp add: parse_bytes_iff)
  ultimately show ?thesis
    using parse kind by (simp add: handle_message_def on_block_response_def on_block_announce_def)
qed

section \<open>A server that runs this program\<close>

text \<open>
  What a client may rely on: a server that still serves \<open>k\<close> messages answers a request for one of its
  blocks with that block and then serves one message less; one that serves no more has closed the
  connection.
\<close>

locale block_service =
  fixes send :: "'os send_call" and recv :: "'os recv_call"
    and ready :: "nat \<Rightarrow> 'os TcpSocket \<Rightarrow> bool" and blocks :: "Block list"
  assumes request_law: "ready (Suc k) socket \<Longrightarrow> n < length blocks \<Longrightarrow>
      make_block_request_message \<lparr>br_height = of_nat n\<rparr> = Inr m \<Longrightarrow>
      \<exists>socket1 socket2 m'. send_message send m socket = (Inr (), socket1) \<and>
        recv_message recv socket1 = (Inr m', socket2) \<and> ready k socket2 \<and> encodable_block (blocks ! n) \<and>
        make_block_response_message \<lparr>block_bytes = block_to_bytes (blocks ! n)\<rparr> = Inr m'"
    and closed_law: "ready 0 socket \<Longrightarrow> make_block_request_message \<lparr>br_height = of_nat n\<rparr> = Inr m \<Longrightarrow>
      \<exists>socket1 socket2 e. send_message send m socket = (Inr (), socket1) \<and>
        recv_message recv socket1 = (Inl e, socket2) \<and> peer_disconnected e"
begin

definition syncing :: "ConsensusParams \<Rightarrow> nat \<Rightarrow> nat \<Rightarrow> 'os Session \<Rightarrow> bool" where
  "syncing params k n s \<longleftrightarrow> ready k (ss_socket s) \<and> peer_ok (session_state s) \<and> \<not> ps_persist (session_state s) \<and>
     ch_params (ps_chain (session_state s)) = params \<and> peer_ledger_blocks (session_state s) = take n blocks"

lemma syncing_height:
  assumes "syncing params k n s" and "n \<le> length blocks"
  shows "n = unat (chain_height (ps_chain (session_state s))) + 1"
  using peer_chain_inv [of "session_state s"] assms
  by (simp add: syncing_def chain_inv_def del: peer_blocks_simps(1))

lemma fetch_one:
  assumes "reachable (chain_init params) chain_step (blocks, c)" and "syncing params (Suc k) n s" and "n < length blocks"
  shows "\<exists>s'. request_block send recv faults (of_nat n) s = Some (Inr (), s') \<and> syncing params k (Suc n) s'"
proof -
  let ?st = "session_state s" and ?b = "blocks ! n"
  obtain m where m: "make_block_request_message \<lparr>br_height = of_nat n\<rparr> = Inr m" by (simp add: make_block_request_message_def)
  from assms(2) have "ready (Suc k) (ss_socket s)" by (simp add: syncing_def)
  from request_law [OF this assms(3) m] obtain socket1 socket2 m' where b: "encodable_block ?b" and
    net: "send_message send m (ss_socket s) = (Inr (), socket1)" "recv_message recv socket1 = (Inr m', socket2)"
      "ready k socket2" "make_block_response_message \<lparr>block_bytes = block_to_bytes ?b\<rparr> = Inr m'" by blast
  have reach: "reachable (chain_init params) chain_step (take n blocks, ps_chain ?st)"
    using assms(2) by (auto simp: syncing_def peer_ok_def)
  have "foldR Ledger_Store.extend (ps_chain ?st) (drop n blocks) = Inr c"
    using chain_continues [OF _ reach, of "drop n blocks"] assms(1) by simp
  moreover have "drop n blocks = ?b # drop (Suc n) blocks" using assms(3) by (simp add: Cons_nth_drop_Suc)
  ultimately obtain c1 where "Ledger_Store.extend (ps_chain ?st) ?b = Inr c1" by (auto simp: result_simps)
  then obtain fees pool where sub: "submit_block ?b (ps_chain ?st) (Some (ps_mempool ?st)) = (Inr fees, c1, pool)"
    by (auto simp: extend_ok submit_block_ok)
  have ok: "peer_ok ?st" and persist: "\<not> ps_persist ?st" using assms(2) by (simp_all add: syncing_def)
  obtain st1 where conn: "peer_connect_block ?b (ss_node s) = Some (Inr (), (ss_node s)\<lparr>nd_state := st1\<rparr>)"
    "peer_ok st1" "grows ?st st1" "peer_ledger_blocks st1 = peer_ledger_blocks ?st @ [?b]"
    using connect_outcome [OF ok b refl] sub by (auto split: prod.splits)
  have same: "\<not> ps_persist st1" "ch_params (ps_chain st1) = params"
    using conn(3) persist assms(2) by (cases ?st; cases st1; auto simp: grows_def syncing_def)+
  let ?s' = "s\<lparr>ss_socket := socket2, ss_node := (ss_node s)\<lparr>nd_state := st1\<rparr>\<rparr>"
  have "handle_message send faults m' (s\<lparr>ss_socket := socket2\<rparr>) = Some (Inr (), ?s')"
    unfolding response_handled [OF net(4) b] using conn(1) same(1)
    by (simp add: zoom_def bind_op_def persist_ledger_def)
  then have "request_block send recv faults (of_nat n) s = Some (Inr (), ?s')"
    using m net(1,2) by (simp add: request_block_def bind_op_def zoom_def)
  moreover have "syncing params k (Suc n) ?s'"
    using net(3) conn(2,4) same assms(2,3) by (simp add: syncing_def take_Suc_conv_app_nth)
  ultimately show ?thesis by blast
qed

lemma sync_rounds:
  assumes "reachable (chain_init params) chain_step (blocks, c)" and "length blocks = unat target + 1"
    and "target \<noteq> UINT32_MAX" and "syncing params (i + k) n s" and "n + i \<le> length blocks"
  shows "\<exists>s'. sync_blocks send recv faults target (of_nat n) s = sync_blocks send recv faults target (of_nat (n + i)) s' \<and>
    syncing params k (n + i) s'"
  using assms(4,5)
proof (induction i arbitrary: n s)
  case (Suc i)
  then have n: "n < length blocks" by simp
  have "n < 4294967296" using n assms(2) unat_u32_less [of target] by linarith
  then have "unat (of_nat n :: u32) = n" by (intro unat_of_nat_less) simp
  then have h: "(of_nat n :: u32) \<le> target" unfolding word_le_nat_alt using n assms(2) by linarith
  obtain s' where s': "request_block send recv faults (of_nat n) s = Some (Inr (), s')" "syncing params (i + k) (Suc n) s'"
    using fetch_one [OF assms(1) _ n, of "i + k" s] Suc.prems(1) by auto
  have "(of_nat n :: u32) + 1 = of_nat (Suc n)" by simp
  with h s'(1) have "sync_blocks send recv faults target (of_nat n) s = sync_blocks send recv faults target (of_nat (Suc n)) s'"
    by (subst sync_blocks.simps) (simp del: of_nat_Suc)
  then show ?case using Suc.IH [OF s'(2)] Suc.prems(2) by (simp del: of_nat_Suc of_nat_add)
qed auto

lemma sync_all:
  assumes "reachable (chain_init params) chain_step (blocks, c)" and "length blocks = unat target + 1"
    and "target \<noteq> UINT32_MAX" and "syncing params (i + k) n s" and "n + i = length blocks"
  shows "\<exists>s'. sync_blocks send recv faults target (of_nat n) s = Some (Inr (), s') \<and>
    syncing params k (length blocks) s' \<and> ps_chain (session_state s') = c"
proof -
  from sync_rounds [OF assms(1-4)] assms(5) obtain s' where
    rounds: "sync_blocks send recv faults target (of_nat n) s = sync_blocks send recv faults target (of_nat (length blocks)) s'"
    and whole: "syncing params k (length blocks) s'" by auto
  have "unat target \<noteq> 4294967295" using assms(3) by (simp add: word_unat_eq_iff)
  then have "length blocks < 4294967296" using unat_u32_less [of target] assms(2) by linarith
  then have "unat (of_nat (length blocks) :: u32) = length blocks" by (intro unat_of_nat_less) simp
  then have "\<not> (of_nat (length blocks) :: u32) \<le> target" unfolding word_le_nat_alt using assms(2) by linarith
  then have "sync_blocks send recv faults target (of_nat (length blocks)) s' = Some (Inr (), s')"
    by (subst sync_blocks.simps) simp
  moreover have "ps_chain (session_state s') = c"
    using chain_unique [OF _ assms(1)] whole by (auto simp: syncing_def peer_ok_def)
  ultimately show ?thesis using rounds whole by simp
qed

lemma sync_cut_off:
  assumes "reachable (chain_init params) chain_step (blocks, c)" and "length blocks = unat target + 1"
    and "target \<noteq> UINT32_MAX" and "syncing params k n s" and "n + k < length blocks"
  shows "\<exists>e s'. sync_blocks send recv faults target (of_nat n) s = Some (Inl e, s') \<and> peer_disconnected e \<and>
    peer_ledger_blocks (session_state s') = take (n + k) blocks"
proof -
  let ?h = "of_nat (n + k) :: u32"
  obtain s1 where rounds: "sync_blocks send recv faults target (of_nat n) s = sync_blocks send recv faults target ?h s1"
    and cut: "syncing params 0 (n + k) s1"
    using sync_rounds [OF assms(1-3), of k 0 n s faults] assms(4,5) by auto
  obtain m where m: "make_block_request_message \<lparr>br_height = ?h\<rparr> = Inr m" by (simp add: make_block_request_message_def)
  from cut have "ready 0 (ss_socket s1)" by (simp add: syncing_def)
  from closed_law [OF this m] obtain socket1 socket2 e where
    net: "send_message send m (ss_socket s1) = (Inr (), socket1)" "recv_message recv socket1 = (Inl e, socket2)"
      "peer_disconnected e" by blast
  have "n + k < 4294967296" using assms(2,5) unat_u32_less [of target] by linarith
  then have "unat ?h = n + k" by (intro unat_of_nat_less) simp
  then have "?h \<le> target" unfolding word_le_nat_alt using assms(2,5) by linarith
  moreover have "request_block send recv faults ?h s1 = Some (Inl e, s1\<lparr>ss_socket := socket2\<rparr>)"
    using m net(1,2) by (simp add: request_block_def bind_op_def zoom_def)
  ultimately have "sync_blocks send recv faults target ?h s1 = Some (Inl e, s1\<lparr>ss_socket := socket2\<rparr>)"
    by (subst sync_blocks.simps) simp
  with rounds net(3) cut show ?thesis by (auto simp: syncing_def)
qed

end

end
