(* ===== verification/Network_Runs.thy ===== *)
theory Network_Runs
  imports Network_Correct
begin

text \<open>
  Runs of the relay programs as a whole: the server returns whatever its peers send and however its
  files and sockets fail, and the client's loop over the missing blocks ends unless the peer claims
  the largest height.
\<close>

section \<open>Sessions of the server\<close>

lemma accept_peer_keeps [keeps_rules]: "keeps (session_inv st) (accept_peer sys listener)"
  by (auto simp: keeps_def accept_peer_def session_inv_def split: prod.split sum.split)

lemma closing_keeps:
  assumes "keeps I op" and "\<And>s. I s \<Longrightarrow> I (cleanup s)"
  shows "keeps I (closing op cleanup)"
  using assms by (fastforce simp: keeps_def closing_def)

lemma relay_session_keeps [keeps_rules]: "keeps (session_inv st) (relay_session sys faults listener)"
  unfolding relay_session_def
  by (intro keeps_bind accept_peer_keeps closing_keeps serve_relay_keeps) (simp add: session_inv_def)

lemma relay_sessions_return:
  assumes "session_inv st s"
  shows "\<exists>r s'. relay_sessions sys faults listener n result s = Some (r, s') \<and>
    (\<forall>result'. r = Inr result' \<longrightarrow> sessions_completed result' = sessions_completed result + of_nat n)"
  using assms
proof (induction n arbitrary: result s)
  case (Suc n)
  from keepsD [OF relay_session_keeps Suc.prems] obtain r s1
    where one: "relay_session sys (faults n) listener s = Some (r, s1)" and inv: "session_inv st s1" by blast
  show ?case
  proof (cases r)
    case (Inl e)
    with one show ?thesis by (simp add: bind_op_run)
  next
    case (Inr session)
    let ?result = "result\<lparr>last_session := session, sessions_completed := sessions_completed result + 1\<rparr>"
    from Suc.IH [OF inv, of ?result] one Inr show ?thesis
      by (auto simp: bind_op_run add.assoc)
  qed
qed simp

section \<open>Programs that return\<close>

lemma returns_bind:
  assumes "\<And>s. \<exists>r s'. op s = Some (r, s') \<and> (\<forall>x. r = Inr x \<longrightarrow> Q x)"
    and "\<And>x s. Q x \<Longrightarrow> \<exists>r s'. f x s = Some (r, s') \<and> (\<forall>y. r = Inr y \<longrightarrow> R y)"
  shows "\<exists>r s'. bind_op op f s = Some (r, s') \<and> (\<forall>y. r = Inr y \<longrightarrow> R y)"
proof -
  obtain r s' where op: "op s = Some (r, s')" and Q: "\<forall>x. r = Inr x \<longrightarrow> Q x" using assms(1) by blast
  show ?thesis
  proof (cases r)
    case (Inr x)
    with Q assms(2) [of x s'] op show ?thesis by (auto simp: bind_op_run)
  qed (simp add: op bind_op_run)
qed

lemma on_files_returns:
  "(\<And>fs. \<exists>r fs'. op fs = Some (r, fs') \<and> (\<forall>x. r = Inr x \<longrightarrow> Q x)) \<Longrightarrow>
     \<exists>r host'. on_files op host = Some (r, host') \<and> (\<forall>x. r = Inr x \<longrightarrow> Q x)"
  by (force simp: zoom_def)

lemma publish_returns: "\<exists>r host'. publish_listen_port faults config options port host = Some (r, host')"
  by (auto simp: publish_listen_port_def bind_op_def zoom_def write_port_file_def Let_def make_error_def split: option.split)

lemma from_config_returns:
  "\<exists>r fs'. from_config faults config fs = Some (r, fs') \<and> (\<forall>st. r = Inr st \<longrightarrow> peer_ok st)"
proof -
  from from_config_ok [of faults config fs] obtain r fs' where "from_config faults config fs = Some (r, fs')"
    and "case r of Inl e \<Rightarrow> True | Inr st \<Rightarrow> peer_ok st \<and> (cfg_restore config \<or> ps_consensus st = ch_params (ps_chain st))"
    by blast
  then show ?thesis by (cases r) auto
qed

lemma with_handle_returns:
  assumes "\<And>h host. \<exists>r host'. body h host = Some (r, host') \<and> (\<forall>y. r = Inr y \<longrightarrow> R y)"
  shows "\<exists>r host'. with_handle open_it close_it body host = Some (r, host') \<and> (\<forall>y. r = Inr y \<longrightarrow> R y)"
  unfolding with_handle_def
proof (rule returns_bind [where Q = "\<lambda>_. True"])
  show "\<exists>r host'. on_os open_it host = Some (r, host') \<and> (\<forall>x. r = Inr x \<longrightarrow> True)" for host
    by (auto simp: zoom_def split: prod.split)
  show "\<exists>r s'. closing (body h) (\<lambda>host. host\<lparr>hst_os := close_it h (hst_os host)\<rparr>) host = Some (r, s') \<and>
      (\<forall>y. r = Inr y \<longrightarrow> R y)" for h host
    using assms [of h host] by (auto simp: closing_def)
qed

lemma relay_sessions_host_return:
  assumes "peer_ok st"
  shows "\<exists>r host'. in_session h st (relay_sessions sys faults listener n result) host = Some (r, host') \<and>
    (\<forall>result'. r = Inr result' \<longrightarrow> sessions_completed result' = sessions_completed result + of_nat n)"
proof -
  let ?s = "\<lparr>ss_node = \<lparr>nd_state = st, nd_files = hst_files host\<rparr>, ss_socket = \<lparr>sock_handle = h, sock_os = hst_os host\<rparr>\<rparr>"
  have "session_inv st ?s" using assms by (simp add: session_inv_def node_inv_def)
  from relay_sessions_return [OF this, of sys faults listener n result] obtain r s'
    where run: "relay_sessions sys faults listener n result ?s = Some (r, s')"
      and completed: "\<forall>result'. r = Inr result' \<longrightarrow> sessions_completed result' = sessions_completed result + of_nat n" by blast
  from run have "in_session h st (relay_sessions sys faults listener n result) host =
      Some (r, host\<lparr>hst_files := nd_files (ss_node s'), hst_os := sock_os (ss_socket s')\<rparr>)" by (simp add: zoom_def)
  with completed show ?thesis by blast
qed

lemma relay_server_run:
  "\<exists>r host'. run_relay_server sys faults config options host = Some (r, host') \<and>
     (\<forall>result. r = Inr result \<longrightarrow>
        sessions_completed result \<noteq> 0 \<and>
        sessions_completed result = (if max_sessions options \<noteq> 0 then max_sessions options else cfg_relay_max_sessions config))"
proof -
  define limit where "limit = (if max_sessions options \<noteq> 0 then max_sessions options else cfg_relay_max_sessions config)"
  show ?thesis
  proof (cases "limit = 0")
    case True
    then show ?thesis by (simp add: run_relay_server_def Let_def limit_def [symmetric] make_error_def)
  next
    case False
    have port: "\<exists>r host'. on_os (bound_port sys l) host = Some (r, host') \<and> (\<forall>x. r = Inr x \<longrightarrow> True)" for l host
      by (auto simp: zoom_def split: prod.split)
    show ?thesis
      unfolding run_relay_server_def Let_def limit_def [symmetric] if_not_P [OF False]
    proof (intro with_handle_returns returns_bind [OF port])
      fix l p host
      show "\<exists>r host'. bind_op (publish_listen_port (faults (unat limit) 0) config options p) (\<lambda>_.
          bind_op (on_files (from_config (faults (unat limit) 1) config)) (\<lambda>st.
          in_session (-1) st (relay_sessions sys faults l (unat limit)
            \<lparr>sessions_completed = 0, listen_port = p, last_session = \<lparr>rs_height = 0, rs_mempool_size = 0\<rparr>\<rparr>))) host
          = Some (r, host') \<and> (\<forall>result. r = Inr result \<longrightarrow> sessions_completed result \<noteq> 0 \<and> sessions_completed result = limit)"
      proof (rule returns_bind [where Q = "\<lambda>_. True"], goal_cases)
        case (1 host)
        show ?case using publish_returns by simp
      next
        case (2 x host)
        show ?case
        proof (rule returns_bind [OF on_files_returns [OF from_config_returns]])
          fix st and host :: "'a Host"
          assume "peer_ok st"
          from relay_sessions_host_return [OF this, of "-1" sys faults l "unat limit"
              "\<lparr>sessions_completed = 0, listen_port = p, last_session = \<lparr>rs_height = 0, rs_mempool_size = 0\<rparr>\<rparr>" host] False
          show "\<exists>r host'. in_session (-1) st (relay_sessions sys faults l (unat limit)
              \<lparr>sessions_completed = 0, listen_port = p, last_session = \<lparr>rs_height = 0, rs_mempool_size = 0\<rparr>\<rparr>) host =
              Some (r, host') \<and> (\<forall>result. r = Inr result \<longrightarrow> sessions_completed result \<noteq> 0 \<and> sessions_completed result = limit)"
            by simp blast
        qed
      qed
    qed
  qed
qed


section \<open>The client's loop\<close>

text \<open>C33. The relay client's loop over the missing heights returns whatever the peer answers, and keeps
the client's node consistent, provided the peer did not claim the height \<^verbatim>\<open>UINT32_MAX\<close>.\<close>

theorem sync_loop_terminates:
  assumes "target \<noteq> UINT32_MAX" and "session_inv st s"
  shows "\<exists>r s'. sync_blocks send recv faults target h s = Some (r, s') \<and> session_inv st s'"
  using keepsD [OF sync_blocks_returns [OF assms(1)] assms(2)] .

theorem sync_loop_terminates_witness:
  "\<exists>r s'. sync_blocks pipe_send pipe_recv no_faults 5 1 (example_session example_peer) = Some (r, s') \<and>
     session_inv example_peer s'"
proof (rule sync_loop_terminates)
  show "session_inv example_peer (example_session example_peer)"
    using example_peer_ok by (simp add: session_inv_def node_inv_def example_session_def)
qed simp

text \<open>
  A peer that claims the height \<^verbatim>\<open>UINT32_MAX\<close>: every height is at most the target, so the loop has no
  successful end; as long as the peer answers, the client asks on.
\<close>

lemma u32_le_max: "h \<le> (UINT32_MAX :: u32)"
  by (simp add: word_le_nat_alt) (use unat_u32_less [of h] in simp)

theorem sync_largest_height_never_succeeds: "sync_blocks send recv faults UINT32_MAX h s \<noteq> Some (Inr (), s')"
proof
  assume "sync_blocks send recv faults UINT32_MAX h s = Some (Inr (), s')"
  then have "UINT32_MAX = (UINT32_MAX :: u32) \<longrightarrow> (\<forall>s''. (Inr (), s') \<noteq> (Inr () :: unit Result, s''))"
  proof (rule sync_blocks.raw_induct [where P = "\<lambda>send recv faults target h s y.
      target = UINT32_MAX \<longrightarrow> (\<forall>s'. y \<noteq> (Inr (), s'))", rotated])
    fix f send recv faults target h s y
    assume "\<And>send recv faults target h s y. f send recv faults target h s = Some y \<Longrightarrow>
        target = UINT32_MAX \<longrightarrow> (\<forall>s'. y \<noteq> (Inr (), s'))"
      and "(if h \<le> target
        then case request_block send recv faults h s of None \<Rightarrow> None
             | Some (Inl e, s) \<Rightarrow> Some (Inl e, s)
             | Some (Inr _, s) \<Rightarrow> f send recv faults target (h + 1) s
        else Some (Inr (), s)) = Some y"
    then show "target = UINT32_MAX \<longrightarrow> (\<forall>s'. y \<noteq> (Inr (), s'))"
      using u32_le_max [of h] by (fastforce split: option.splits sum.splits)
  qed
  then show False by simp
qed

section \<open>Transaction files\<close>

text \<open>
  A file that starts with a transaction is accepted as that transaction, whatever follows it within
  the size limit.
\<close>

lemma trailing_bytes_accepted:
  assumes "fs path = Some (tx_to_bytes tx @ junk)" and "encodable_tx tx" and "\<not> read_fails faults"
    and "length (tx_to_bytes tx @ junk) \<le> unat kMaxTransactionSizeBytes"
  shows "load_transaction_file faults fs path = Inr tx"
proof -
  have "tx_deserialize (reader_of (tx_to_bytes tx @ junk)) = Inr (tx, \<lparr>rd_data = tx_to_bytes tx @ junk, rd_pos = length (tx_to_bytes tx)\<rparr>)"
    using tx_codec.round_trip [OF assms(2), of junk] by (simp add: tx_to_bytes_enc)
  with assms(1,3,4) tx_bytes_nonempty [of tx] show ?thesis by (simp add: load_transaction_file_def)
qed

section \<open>Handshake, ping and pong\<close>

text \<open>
  The two programs of the ping mode on connected sockets. The bytes that one sends are what the other
  finds incoming; since both only alternate between sending and receiving, their runs on the whole
  streams are their runs on the connection.
\<close>

context byte_stream
begin

lemma ping_server_run:
  assumes hello: "message_ok hi" "parse_handshake_message hi = Inr hs" "message_ok hi'"
      "make_handshake_message (config_handshake config) = Inr hi'"
    and ping: "message_ok m" "parse_ping_message m = Inr pl" "message_ok m'" "make_pong_message \<lparr>nonce = nonce pl\<rparr> = Inr m'"
    and b: "sock_valid b" "incoming (sock_os b) = enc_var_bytes (p2p_to_bytes hi) @ enc_var_bytes (p2p_to_bytes m)"
  shows "\<exists>b'. serve_ping_connection send recv config b = Some (Inr (), b') \<and>
    sent (sock_os b') = sent (sock_os b) @ enc_var_bytes (p2p_to_bytes hi') @ enc_var_bytes (p2p_to_bytes m')"
proof -
  from message_transfer(2) [OF hello(1) b] obtain b1 where b1: "recv_message recv b = (Inr hi, b1)" "sock_valid b1"
    "incoming (sock_os b1) = enc_var_bytes (p2p_to_bytes m) @ []" "sent (sock_os b1) = sent (sock_os b)" by auto
  from message_transfer(1) [OF hello(3) b1(2)] obtain b2 where b2: "send_message send hi' b1 = (Inr (), b2)" "sock_valid b2"
    "sent (sock_os b2) = sent (sock_os b1) @ enc_var_bytes (p2p_to_bytes hi')"
    "incoming (sock_os b2) = enc_var_bytes (p2p_to_bytes m) @ []" using b1(3) by auto
  from message_transfer(2) [OF ping(1) b2(2,4)] obtain b3 where b3: "recv_message recv b2 = (Inr m, b3)" "sock_valid b3"
    "sent (sock_os b3) = sent (sock_os b2)" by blast
  from message_transfer(1) [OF ping(3) b3(2)] obtain b4 where b4: "send_message send m' b3 = (Inr (), b4)"
    "sent (sock_os b4) = sent (sock_os b3) @ enc_var_bytes (p2p_to_bytes m')" by blast
  have "serve_ping_connection send recv config b = Some (Inr (), b4)"
    using b1(1) b2(1) b3(1) b4(1) hello(2,4) ping(2,4)
    by (simp add: serve_ping_connection_def serve_handshake_def expect_handshake_def bind_op_def)
  with b1(4) b2(3) b3(3) b4(2) show ?thesis by simp
qed

lemma ping_client_run:
  assumes hello: "message_ok hi" "make_handshake_message (config_handshake config) = Inr hi" "message_ok hi'"
      "parse_handshake_message hi' = Inr hs"
    and ping: "message_ok m" "make_ping_message \<lparr>nonce = ping_nonce config\<rparr> = Inr m" "message_ok m'"
      "parse_pong_message m' = Inr pl"
    and a: "sock_valid a" "incoming (sock_os a) = enc_var_bytes (p2p_to_bytes hi') @ enc_var_bytes (p2p_to_bytes m')"
  shows "\<exists>a'. ping_client send recv config a =
      Some (if nonce pl = ping_nonce config then Inr () else make_error kInvalidMessage ''pong nonce does not match ping'', a') \<and>
    sent (sock_os a') = sent (sock_os a) @ enc_var_bytes (p2p_to_bytes hi) @ enc_var_bytes (p2p_to_bytes m)"
proof -
  from message_transfer(1) [OF hello(1) a(1)] obtain a1 where a1: "send_message send hi a = (Inr (), a1)" "sock_valid a1"
    "incoming (sock_os a1) = enc_var_bytes (p2p_to_bytes hi') @ enc_var_bytes (p2p_to_bytes m')"
    "sent (sock_os a1) = sent (sock_os a) @ enc_var_bytes (p2p_to_bytes hi)" using a(2) by auto
  from message_transfer(2) [OF hello(3) a1(2,3)] obtain a2 where a2: "recv_message recv a1 = (Inr hi', a2)" "sock_valid a2"
    "incoming (sock_os a2) = enc_var_bytes (p2p_to_bytes m') @ []" "sent (sock_os a2) = sent (sock_os a1)" by auto
  from message_transfer(1) [OF ping(1) a2(2)] obtain a3 where a3: "send_message send m a2 = (Inr (), a3)" "sock_valid a3"
    "incoming (sock_os a3) = enc_var_bytes (p2p_to_bytes m') @ []"
    "sent (sock_os a3) = sent (sock_os a2) @ enc_var_bytes (p2p_to_bytes m)" using a2(3) by auto
  from message_transfer(2) [OF ping(3) a3(2,3)] obtain a4 where a4: "recv_message recv a3 = (Inr m', a4)"
    "sent (sock_os a4) = sent (sock_os a3)" by blast
  have "ping_client send recv config a =
      Some (if nonce pl = ping_nonce config then Inr () else make_error kInvalidMessage ''pong nonce does not match ping'', a4)"
    using a1(1) a2(1) a3(1) a4(1) hello(2,4) ping(2,4)
    by (simp add: ping_client_def exchange_handshake_def expect_handshake_def bind_op_def)
  with a1(4) a2(4) a3(4) a4(2) show ?thesis by simp
qed

end

lemma ping_sendable:
  "\<exists>m. make_ping_message pl = Inr m \<and> message_ok m \<and> parse_ping_message m = Inr pl"
  "\<exists>m. make_pong_message pl = Inr m \<and> message_ok m \<and> parse_pong_message m = Inr pl"
proof -
  have "make_ping_message pl = Inr \<lparr>msg_version = kProtocolVersion, msg_type = kPing, msg_payload = serialize_ping pl\<rparr>"
    "make_pong_message pl = Inr \<lparr>msg_version = kProtocolVersion, msg_type = kPong, msg_payload = serialize_pong pl\<rparr>"
    by (simp_all add: make_ping_message_def make_pong_message_def)
  moreover have "length (serialize_ping pl) = 8" "length (serialize_pong pl) = 8"
    by (simp_all add: serialize_ping_def serialize_pong_def wire_simps)
  ultimately show "\<exists>m. make_ping_message pl = Inr m \<and> message_ok m \<and> parse_ping_message m = Inr pl"
    "\<exists>m. make_pong_message pl = Inr m \<and> message_ok m \<and> parse_pong_message m = Inr pl"
    using ping_kind.parse_make [of pl] pong_kind.parse_make [of pl] by (auto simp: message_ok_def)
qed



end
