(* ===== verification/Cli.thy ===== *)
theory Cli
  imports Command_Line Simulator Network_Runs
begin

text \<open>
  The command-line program of \<^verbatim>\<open>src/cli/main.cpp\<close>: it reads the arguments, runs the mode that they
  select and reports on the standard output or the standard error. Its state is the host and the two
  streams; its value is the exit status. The \<^verbatim>\<open>catch\<close> clauses of \<^verbatim>\<open>main\<close> are not modelled, since the
  operations below them return their errors as values.
\<close>

section \<open>The program\<close>

record 'os Process =
  pr_host :: "'os Host"
  pr_out :: string
  pr_err :: string

abbreviation nl :: string where "nl \<equiv> [CHR 0x0A]"

definition usage :: "string \<Rightarrow> string" where
  "usage program = concat [
     ''Usage: '', program, '' [options]'', nl, nl,
     ''Options:'', nl,
     ''  --config <path>            Load JSON config (CLI flags override file)'', nl,
     ''  --node-id <id>             Node identifier (default: node-0)'', nl,
     ''  --data-dir <path>          Data directory (default: ./data)'', nl,
     ''  --persist                  Write ledger.bin after simulator run'', nl,
     ''  --restore                  Load ledger.bin instead of mining (simulator)'', nl,
     ''  --log-level <level>        error|warn|info|debug|trace (default: info)'', nl,
     ''  --genesis-timestamp <n>    Deterministic genesis timestamp (default: 0)'', nl,
     ''  --max-block-size <bytes>   Override max block size (default: protocol limit)'', nl,
     ''  --mine-blocks <n>          Mine n blocks after genesis (default: 0)'', nl,
     ''  --mine-after-tx <n>        Relay: mine n blocks after each tx announce (default: 0)'', nl,
     ''  --relay-max-sessions <n>   Relay server: serve n sequential peers (default: 1)'', nl,
     ''  --announce-tx-file <path>  Relay client: announce tx from file (repeatable)'', nl,
     ''  --relay-blocks-after-tx <n> Relay client: pull n blocks after tx announce (default: 0)'', nl,
     ''  --mempool-max-transactions <n> Mempool tx count limit (default: documented default)'', nl,
     ''  --mempool-max-bytes <n>    Mempool total byte limit (default: documented default)'', nl,
     ''  --min-relay-feerate <n>    Minimum fee per serialized byte (default: 0)'', nl,
     ''  --block-subsidy <amount>   Coinbase subsidy per block (default: protocol)'', nl,
     ''  --coinbase-maturity <n>    Blocks before a coinbase may be spent (default: protocol)'', nl,
     ''  --coinbase-recipient <hex> 64-char hex payout address (default: zero)'', nl,
     ''  --network-mode <mode>      ping|relay when using TCP (default: ping)'', nl,
     ''  --listen-host <ipv4>        Bind address for TCP server (default: 127.0.0.1)'', nl,
     ''  --listen-port <port>        Run TCP server (0 = ephemeral port)'', nl,
     ''  --port-file <path>           Write bound listen port to this file after bind'', nl,
     ''  --peer <host:port>         Connect as TCP client to host:port'', nl,
     ''  -h, --help                 Show this help and exit'', nl]"

text \<open>Running a mode on the host, and then reporting its result.\<close>

definition report ::
    "('os Host, 'a) op \<Rightarrow> (Error \<Rightarrow> string) \<Rightarrow> nat \<Rightarrow> ('a \<Rightarrow> string) \<Rightarrow> 'os Process \<Rightarrow> (nat \<times> 'os Process) option" where
  "report op complaint status message p =
     (case op (pr_host p) of
        None \<Rightarrow> None
      | Some (Inl e, host) \<Rightarrow> Some (status, p\<lparr>pr_host := host, pr_err := pr_err p @ complaint e\<rparr>)
      | Some (Inr x, host) \<Rightarrow> Some (0, p\<lparr>pr_host := host, pr_out := pr_out p @ message x\<rparr>))"

definition network_complaint :: "Error \<Rightarrow> string" where
  "network_complaint e = ''network error: '' @ err_message e @ nl"

definition relay_server_message :: "NodeConfig \<Rightarrow> RelayServerResult \<Rightarrow> string" where
  "relay_server_message config ok =
     ''relay server completed on '' @ cfg_listen_host config @ '':'' @ to_string_nat (unat (listen_port ok)) @
     (if cfg_restore config then '' (restored from '' @ cfg_data_dir config @ '')'' else []) @ nl @
     (if sessions_completed ok > 1 then ''  sessions served: '' @ to_string_nat (unat (sessions_completed ok)) @ nl else []) @
     ''  chain height:   '' @ to_string_nat (unat (rs_height (last_session ok))) @ nl"

definition ping_server_message :: "NodeConfig \<Rightarrow> string" where
  "ping_server_message config =
     ''ping server completed on '' @ cfg_listen_host config @
     (if cfg_listen_port config \<noteq> 0 then '':'' @ to_string_nat (unat (cfg_listen_port config)) else []) @ nl"

definition relay_client_message :: "NodeConfig \<Rightarrow> RelayClientResult \<Rightarrow> string" where
  "relay_client_message config ok =
     ''relay client completed ('' @ cfg_peer_host config @ '':'' @ to_string_nat (unat (cfg_peer_port config)) @ '')'' @ nl @
     ''  chain height:   '' @ to_string_nat (unat (rc_height ok)) @ nl @
     ''  tip hash:       '' @ to_hex (rc_tip_hash ok) @ nl"

definition ping_client_message :: "NodeConfig \<Rightarrow> string" where
  "ping_client_message config =
     ''ping client completed ('' @ cfg_peer_host config @ '':'' @ to_string_nat (unat (cfg_peer_port config)) @ '')'' @ nl"

definition simulator_message :: "NodeConfig \<Rightarrow> SimulatorSummary \<Rightarrow> string" where
  "simulator_message config summary = concat [
     ''blockchain simulator (stage 1)'', nl,
     ''  node id:        '', cfg_node_id config, nl,
     ''  data dir:       '', cfg_data_dir config, nl,
     ''  log level:      '', log_level_to_string (cfg_log_level config), nl,
     ''  restored:       '', (if sum_restored_from_disk summary then ''yes'' else ''no''), nl,
     ''  genesis time:   '', to_string_nat (unat (cfg_genesis_timestamp config)), nl,
     ''  genesis hash:   '', to_hex (sum_genesis_hash summary), nl,
     ''  blocks mined:   '', to_string_nat (unat (sum_blocks_mined summary)), nl,
     ''  chain height:   '', to_string_nat (unat (sum_height summary)), nl,
     ''  tip hash:       '', to_hex (sum_tip_hash summary), nl,
     ''  utxo set size:  '', to_string_nat (sum_utxo_count summary), nl,
     ''  txs admitted:   '', to_string_nat (unat (sum_txs_admitted summary)), nl,
     ''  txs included:   '', to_string_nat (unat (sum_txs_included summary)), nl,
     ''  total fees:     '', to_string_nat (unat (sum_total_fees summary)), nl,
     (if cfg_persist config then ''  ledger saved:   '' @ cfg_data_dir config @ ''/ledger.bin'' @ nl else [])]"

definition run ::
    "'os Sys \<Rightarrow> (nat \<Rightarrow> nat \<Rightarrow> Faults) \<Rightarrow> string list \<Rightarrow> string \<Rightarrow> 'os Process \<Rightarrow> (nat \<times> 'os Process) option" where
  "run sys faults args program p =
     (case parse_args (faults 0 0) (hst_files (pr_host p)) args of
        Inl e \<Rightarrow>
          if err_message e = ''help requested'' then Some (0, p\<lparr>pr_out := pr_out p @ usage program\<rparr>)
          else Some (2, p\<lparr>pr_err := pr_err p @ ''configuration error: '' @ err_message e @ nl @ nl @ usage program\<rparr>)
      | Inr config \<Rightarrow>
          if network_mode_enabled config
          then let relay = (cfg_network_mode config = NetworkMode_kRelay)
               in if is_network_server config
                  then if relay
                       then report (run_relay_server sys faults config \<lparr>max_sessions = 0, port_ready = False\<rparr>)
                              network_complaint 1 (relay_server_message config) p
                       else report (run_ping_server sys (faults 0 0) config)
                              network_complaint 1 (\<lambda>_. ping_server_message config) p
                  else if relay
                  then case relay_client_options_from_config (faults 0 0) (hst_files (pr_host p)) config of
                         Inl e \<Rightarrow> Some (2, p\<lparr>pr_err := pr_err p @ ''configuration error: '' @ err_message e @ nl\<rparr>)
                       | Inr options \<Rightarrow>
                           report (run_relay_client sys (faults 0 0) config options)
                             network_complaint 1 (relay_client_message config) p
                  else report (run_ping_client sys config) network_complaint 1 (\<lambda>_. ping_client_message config) p
          else report (on_files (run_simulator (faults 0 0) config default_options))
                 (\<lambda>e. ''simulator error: '' @ err_message e @ nl) 1 (simulator_message config) p)"

definition cli_main :: "'os Sys \<Rightarrow> (nat \<Rightarrow> nat \<Rightarrow> Faults) \<Rightarrow> string list \<Rightarrow> 'os Process \<Rightarrow> (nat \<times> 'os Process) option" where
  "cli_main sys faults argv p =
     (let program = (case argv of [] \<Rightarrow> ''blockchain_node'' | name # _ \<Rightarrow> name)
      in run sys faults (tl argv) program p)"

section \<open>Modes that return\<close>

lemma keeps_total: "keeps (\<lambda>_. True) (\<lambda>s. Some (f s))"
  by (auto simp: keeps_def)

lemma keeps_total_zoom: "keeps (\<lambda>_. True) op \<Longrightarrow> keeps (\<lambda>_. True) (zoom get put op)"
  by (erule keeps_zoom) simp_all

lemma with_handle_total: "(\<And>h. keeps (\<lambda>_. True) (body h)) \<Longrightarrow> keeps (\<lambda>_. True) (with_handle open_it close_it body)"
  unfolding with_handle_def by (intro keeps_bind keeps_total_zoom keeps_total closing_keeps) simp_all

lemma publish_total: "keeps (\<lambda>_. True) (publish_listen_port faults config options port)"
  using publish_returns by (auto simp: keeps_def)

lemmas total_rules = keeps_rules keeps_total keeps_total_zoom with_handle_total publish_total

lemma ping_returns:
  "keeps (\<lambda>_. True) (run_ping_server sys faults config)" "keeps (\<lambda>_. True) (run_ping_client sys config)"
  unfolding run_ping_server_def run_ping_client_def serve_ping_connection_def ping_client_def
    serve_handshake_def exchange_handshake_def Let_def
  by (intro total_rules)+

lemma simulator_total: "keeps (\<lambda>_. True) (run_simulator faults config options)"
  using simulator_outcome [of faults config options] unfolding keeps_def by blast

lemma relay_server_total: "keeps (\<lambda>_. True) (run_relay_server sys faults config options)"
  using relay_server_run [of sys faults config options] unfolding keeps_def by blast

section \<open>The exit status\<close>

definition proper_exit :: "'os Process \<Rightarrow> nat \<times> 'os Process \<Rightarrow> bool" where
  "proper_exit p = (\<lambda>(status, p').
     if status = 0
     then pr_err p' = pr_err p \<and> (\<exists>text. text \<noteq> [] \<and> pr_out p' = pr_out p @ text)
     else (status = 1 \<or> status = 2) \<and> pr_out p' = pr_out p \<and> (\<exists>text. text \<noteq> [] \<and> pr_err p' = pr_err p @ text))"

definition exits :: "'os Process \<Rightarrow> (nat \<times> 'os Process) option \<Rightarrow> bool" where
  "exits p outcome \<longleftrightarrow> (case outcome of None \<Rightarrow> True | Some res \<Rightarrow> proper_exit p res)"

lemma exits_cases:
  "(c \<Longrightarrow> exits p x) \<Longrightarrow> (\<not> c \<Longrightarrow> exits p y) \<Longrightarrow> exits p (if c then x else y)"
  "(\<And>e. r = Inl e \<Longrightarrow> exits p (f e)) \<Longrightarrow> (\<And>v. r = Inr v \<Longrightarrow> exits p (g v)) \<Longrightarrow>
     exits p (case r of Inl e \<Rightarrow> f e | Inr v \<Rightarrow> g v)"
  "text \<noteq> [] \<Longrightarrow> exits p (Some (0, p\<lparr>pr_out := pr_out p @ text\<rparr>))"
  "text \<noteq> [] \<Longrightarrow> exits p (Some (2, p\<lparr>pr_err := pr_err p @ text\<rparr>))"
  by (auto simp: exits_def proper_exit_def split: sum.split)

lemma exits_report: "(\<And>e. complaint e \<noteq> []) \<Longrightarrow> (\<And>x. message x \<noteq> []) \<Longrightarrow> exits p (report op complaint 1 message p)"
  by (auto simp: exits_def report_def proper_exit_def split: option.split sum.split)

lemma report_returns: "keeps (\<lambda>_. True) op \<Longrightarrow> report op complaint status message p \<noteq> None"
  by (auto simp: keeps_def report_def split: option.splits sum.splits)

lemma messages_nonempty [simp]:
  "network_complaint e \<noteq> []" "relay_server_message config ok \<noteq> []" "ping_server_message config \<noteq> []"
  "relay_client_message config res \<noteq> []" "ping_client_message config \<noteq> []" "simulator_message config summary \<noteq> []"
  "usage program \<noteq> []"
  by (simp_all add: network_complaint_def relay_server_message_def ping_server_message_def relay_client_message_def
      ping_client_message_def simulator_message_def usage_def)

lemma run_exits: "exits p (run sys faults args program p)"
  unfolding run_def Let_def by (intro exits_cases exits_report) simp_all

lemma run_None:
  assumes "run sys faults args program p = None"
  shows "\<exists>config. parse_args (faults 0 0) (hst_files (pr_host p)) args = Inr config \<and>
    \<not> is_network_server config \<and> is_network_client config \<and> cfg_network_mode config = NetworkMode_kRelay"
proof -
  note totals = report_returns [OF ping_returns(1)] report_returns [OF ping_returns(2)]
    report_returns [OF relay_server_total] report_returns [OF keeps_total_zoom [OF simulator_total]]
  from assms show ?thesis
    by (auto simp: totals run_def Let_def network_mode_enabled_def split: sum.splits if_splits)
qed

section \<open>Simulator runs\<close>

lemma mine_blocks_flag:
  assumes "n < 2 ^ 32"
  shows "parse_u32 (to_string_nat n) flag = Inr (of_nat n)" "to_string_nat n \<noteq> ''--config''"
  using assms to_string_nat_digits [of n] by (auto simp: parse_u32_ok to_string_nat_not_empty isdigit_def)

lemma simulator_args:
  assumes "n < 2 ^ 32"
  shows "parse_args faults fs [''--persist'', ''--mine-blocks'', to_string_nat n] =
      Inr (default_config\<lparr>cfg_restore := False, cfg_persist := True, cfg_mine_blocks := of_nat n\<rparr>)"
    "parse_args faults fs [''--restore'', ''--mine-blocks'', to_string_nat n] =
      Inr (default_config\<lparr>cfg_restore := True, cfg_persist := False, cfg_mine_blocks := of_nat n\<rparr>)"
    "parse_args faults fs [''--mine-blocks'', to_string_nat n] =
      Inr (default_config\<lparr>cfg_restore := False, cfg_persist := False, cfg_mine_blocks := of_nat n\<rparr>)"
  using mine_blocks_flag [OF assms]
  by (simp_all add: parse_args_def apply_flag_def valued_flags_def config_validate_def default_config_def)

lemma cli_simulator:
  assumes "parse_args (faults 0 0) (hst_files (pr_host p)) args = Inr config" and "\<not> network_mode_enabled config"
  shows "cli_main sys faults (program # args) p =
    (case run_simulator (faults 0 0) config default_options (hst_files (pr_host p)) of
       None \<Rightarrow> None
     | Some (Inl e, fs) \<Rightarrow>
         Some (1, p\<lparr>pr_host := (pr_host p)\<lparr>hst_files := fs\<rparr>, pr_err := pr_err p @ ''simulator error: '' @ err_message e @ nl\<rparr>)
     | Some (Inr summary, fs) \<Rightarrow>
         Some (0, p\<lparr>pr_host := (pr_host p)\<lparr>hst_files := fs\<rparr>, pr_out := pr_out p @ simulator_message config summary\<rparr>))"
  using assms by (auto simp: cli_main_def run_def report_def zoom_def split: option.split sum.split)

section \<open>Property\<close>


end
