(* ===== verification/Relay_Sync.thy ===== *)
theory Relay_Sync
  imports Network_Correct
begin

text \<open>
  The relay client and the relay server together. The operating system of the client is a connection
  to a server that runs this program: when the client waits for bytes and none are on their way, the
  server reads one message from its end and handles it: the first one as the handshake, then up to
  as many as its relay loop allows. A server that has left its loop, because of an error or of that
  limit, has closed the connection. The interpretation of \<open>block_service\<close> on this system shows that
  the server answers requests until its limit, and with it when the client ends with the server's
  chain.
\<close>

section \<open>A connection to a server\<close>

record Served =
  sv_node :: Node
  sv_left :: "nat option"
  sv_in :: bytes
  sv_out :: bytes

definition server_session :: "Served \<Rightarrow> Pipe Session" where
  "server_session os = \<lparr>ss_node = sv_node os,
     ss_socket = \<lparr>sock_handle = 5, sock_os = \<lparr>pipe_out = [], pipe_in = sv_in os, pipe_chunks = []\<rparr>\<rparr>\<rparr>"

text \<open>One round of the server: before the handshake (\<open>None\<close>), or with some messages left to serve.\<close>

definition server_round :: "nat option \<Rightarrow> (Pipe Session, nat) op" where
  "server_round left =
     (case left of
        None \<Rightarrow> bind_op (serve_relay_handshake pipe_send pipe_recv) (\<lambda>_. ret kMaxRelayMessages)
      | Some k \<Rightarrow>
          bind_op (on_socket (recv_message pipe_recv)) (\<lambda>m.
          bind_op (handle_message pipe_send no_faults m) (\<lambda>_. ret (k - 1))))"

definition serve_one :: "Served \<Rightarrow> Served" where
  "serve_one os =
     (if sv_left os = Some 0 then os
      else case server_round (sv_left os) (server_session os) of
             None \<Rightarrow> os
           | Some (r, s) \<Rightarrow>
               \<lparr>sv_node = ss_node s, sv_left = Some (case r of Inl e \<Rightarrow> 0 | Inr k \<Rightarrow> k),
                sv_in = pipe_in (sock_os (ss_socket s)), sv_out = sv_out os @ pipe_out (sock_os (ss_socket s))\<rparr>)"

definition served_send :: "Served send_call" where
  "served_send os data = (int (length data), 0, os\<lparr>sv_in := sv_in os @ data\<rparr>)"

definition served_recv :: "Served recv_call" where
  "served_recv os wanted =
     (let os = (if sv_out os = [] then serve_one os else os)
      in (take wanted (sv_out os), 0, os\<lparr>sv_out := drop wanted (sv_out os)\<rparr>))"

section \<open>Transfers\<close>

lemma served_send_all: "send_all_native served_send data os = (Inr (), os\<lparr>sv_in := sv_in os @ data\<rparr>)"
  by (cases "data = []")
    (simp_all add: send_all_native.simps [of served_send data] send_all_native.simps [of served_send "[]"] served_send_def)

lemma served_send_message:
  assumes "sock_valid socket" and "message_ok m"
  shows "send_message served_send m socket =
    (Inr (), socket\<lparr>sock_os := (sock_os socket)\<lparr>sv_in := sv_in (sock_os socket) @ enc_var_bytes (p2p_to_bytes m)\<rparr>\<rparr>)"
  using send_framed_steps [OF assms(1) message_frame_size [OF assms(2)] served_send_all served_send_all]
  by (simp add: send_message_def enc_var_bytes_def)

lemma served_recv_all:
  assumes "0 < n" and "n \<le> length (sv_out os')" and "os' = (if sv_out os = [] then serve_one os else os)"
  shows "recv_all_native served_recv n os = (Inr (take n (sv_out os')), os'\<lparr>sv_out := drop n (sv_out os')\<rparr>)"
proof -
  have "served_recv os n = (take n (sv_out os'), 0, os'\<lparr>sv_out := drop n (sv_out os')\<rparr>)"
    by (simp add: served_recv_def assms(3) Let_def)
  moreover have "take n (sv_out os') \<noteq> []" "n - length (take n (sv_out os')) = 0" using assms(1,2) by auto
  ultimately show ?thesis
    using assms(1) by (simp add: recv_all_native.simps [of served_recv n] recv_all_native.simps [of served_recv 0])
qed

lemma served_recv_message:
  assumes "sock_valid socket" and "message_ok m" and "sv_out (sock_os socket) = []"
    and "sv_out (serve_one (sock_os socket)) = enc_var_bytes (p2p_to_bytes m)"
  shows "recv_message served_recv socket = (Inr m, socket\<lparr>sock_os := (serve_one (sock_os socket))\<lparr>sv_out := []\<rparr>\<rparr>)"
proof -
  let ?os = "serve_one (sock_os socket)" and ?body = "p2p_to_bytes m"
  let ?os1 = "?os\<lparr>sv_out := ?body\<rparr>"
  have body: "0 < length ?body" by (simp add: p2p_to_bytes_eq enc_message_body_def)
  have split: "take 4 (sv_out ?os) = enc_u32 (of_nat (length ?body))" "drop 4 (sv_out ?os) = ?body"
    using assms(4) by (simp_all add: enc_var_bytes_def)
  have "recv_all_native served_recv 4 (sock_os socket) = (Inr (enc_u32 (of_nat (length ?body))), ?os1)"
    using served_recv_all [of 4 ?os "sock_os socket"] assms(3,4) split by (simp add: enc_var_bytes_def)
  moreover have "recv_all_native served_recv (length ?body) ?os1 = (Inr ?body, ?os\<lparr>sv_out := []\<rparr>)"
    using served_recv_all [OF body, of ?os1 ?os1] body by simp
  ultimately have "recv_framed served_recv kMaxP2pFrameBytes socket = (Inr ?body, socket\<lparr>sock_os := ?os\<lparr>sv_out := []\<rparr>\<rparr>)"
    by (rule recv_framed_steps [OF assms(1) message_frame_size [OF assms(2)]])
  then show ?thesis using assms(2) by (simp add: recv_message_def p2p_deserialize_to_bytes)
qed

text \<open>The server reads what the client sent.\<close>

lemma server_receives:
  assumes "message_ok m" and "sv_in os = enc_var_bytes (p2p_to_bytes m)"
  shows "\<exists>socket. recv_message pipe_recv (ss_socket (server_session os)) = (Inr m, socket) \<and> sock_valid socket \<and>
    pipe_in (sock_os socket) = [] \<and> pipe_out (sock_os socket) = []"
  using pipe.message_transfer(2) [OF assms(1), of "ss_socket (server_session os)" "[]"] assms(2)
  by (auto simp: server_session_def sock_valid_def)

section \<open>The server answers\<close>

text \<open>The server waits for a message; its blocks fit into a message.\<close>

definition serving :: "Node \<Rightarrow> nat option \<Rightarrow> Served TcpSocket \<Rightarrow> bool" where
  "serving nd left socket \<longleftrightarrow> sock_valid socket \<and>
     sock_os socket = \<lparr>sv_node = nd, sv_left = left, sv_in = [], sv_out = []\<rparr> \<and> peer_ok (nd_state nd) \<and>
     list_all (\<lambda>b. length (block_to_bytes b) \<le> 1048572) (peer_ledger_blocks (nd_state nd))"

lemma serve_one_request:
  assumes "make_block_request_message \<lparr>br_height = of_nat n\<rparr> = Inr m" and "n < length (peer_ledger_blocks (nd_state nd))"
    and "peer_ok (nd_state nd)" and "list_all (\<lambda>b. length (block_to_bytes b) \<le> 1048572) (peer_ledger_blocks (nd_state nd))"
  shows "\<exists>m'. make_block_response_message \<lparr>block_bytes = block_to_bytes (peer_ledger_blocks (nd_state nd) ! n)\<rparr> = Inr m' \<and>
    message_ok m' \<and>
    serve_one \<lparr>sv_node = nd, sv_left = Some (Suc k), sv_in = enc_var_bytes (p2p_to_bytes m), sv_out = []\<rparr> =
      \<lparr>sv_node = nd, sv_left = Some k, sv_in = [], sv_out = enc_var_bytes (p2p_to_bytes m')\<rparr>"
proof -
  let ?os = "\<lparr>sv_node = nd, sv_left = Some (Suc k), sv_in = enc_var_bytes (p2p_to_bytes m), sv_out = []\<rparr>"
  let ?st = "nd_state nd" and ?b = "peer_ledger_blocks (nd_state nd) ! n"
  obtain socket where recv: "recv_message pipe_recv (ss_socket (server_session ?os)) = (Inr m, socket)"
    "sock_valid socket" "pipe_in (sock_os socket) = []" "pipe_out (sock_os socket) = []"
    using server_receives [OF request_handled(2) [OF assms(1)], of ?os] by auto
  let ?s = "(server_session ?os)\<lparr>ss_socket := socket\<rparr>"
  have len: "length (peer_ledger_blocks ?st) = unat (chain_height (ps_chain ?st)) + 1"
    using peer_chain_inv [OF assms(3)] by (simp add: chain_inv_def)
  have "n < 4294967296" using assms(2) len unat_u32_less [of "chain_height (ps_chain ?st)"] by linarith
  then have "unat (of_nat n :: u32) = n" by (intro unat_of_nat_less) simp
  then have "block_at_height (of_nat n) ?st = Some ?b"
    using catalog_lookup [OF assms(3), of "of_nat n"] assms(2) len by simp
  then have found: "block_at_height (of_nat n) (session_state ?s) = Some ?b" by (simp add: server_session_def)
  have valid: "sock_valid (ss_socket ?s)" using recv(2) by simp
  have "length (block_to_bytes ?b) \<le> 1048572" using assms(2,4) by (simp add: list_all_length)
  from pipe.request_answered [OF valid assms(1) found this, of no_faults] obtain m' socket' where
    "make_block_response_message \<lparr>block_bytes = block_to_bytes ?b\<rparr> = Inr m'" "message_ok m'"
    "handle_message pipe_send no_faults m ?s = Some (Inr (), ?s\<lparr>ss_socket := socket'\<rparr>)"
    "pipe_out (sock_os socket') = enc_var_bytes (p2p_to_bytes m')" "pipe_in (sock_os socket') = []"
    using recv(3,4) by auto
  with recv(1) show ?thesis
    by (auto simp: serve_one_def server_round_def bind_op_def zoom_def server_session_def)
qed

interpretation served: block_service served_send served_recv "\<lambda>k. serving nd (Some k)" "peer_ledger_blocks (nd_state nd)" for nd
proof unfold_locales
  fix k socket n m
  assume a: "serving nd (Some (Suc k)) socket" "n < length (peer_ledger_blocks (nd_state nd))"
    "make_block_request_message \<lparr>br_height = of_nat n\<rparr> = Inr m"
  let ?os = "\<lparr>sv_node = nd, sv_left = Some (Suc k), sv_in = enc_var_bytes (p2p_to_bytes m), sv_out = []\<rparr>"
  let ?socket1 = "socket\<lparr>sock_os := ?os\<rparr>" and ?b = "peer_ledger_blocks (nd_state nd) ! n"
  let ?socket2 = "socket\<lparr>sock_os := \<lparr>sv_node = nd, sv_left = Some k, sv_in = [], sv_out = []\<rparr>\<rparr>"
  from a(1) have s: "sock_valid socket" "sock_valid ?socket1" "peer_ok (nd_state nd)"
    by (simp_all add: serving_def sock_valid_def)
  obtain m' where m': "make_block_response_message \<lparr>block_bytes = block_to_bytes ?b\<rparr> = Inr m'" "message_ok m'"
    "serve_one ?os = \<lparr>sv_node = nd, sv_left = Some k, sv_in = [], sv_out = enc_var_bytes (p2p_to_bytes m')\<rparr>"
    using serve_one_request [OF a(3,2) s(3)] a(1) by (auto simp: serving_def)
  have "send_message served_send m socket = (Inr (), ?socket1)"
    using served_send_message [OF s(1) request_handled(2) [OF a(3)]] a(1) by (simp add: serving_def)
  moreover have "recv_message served_recv ?socket1 = (Inr m', ?socket2)"
    using served_recv_message [OF s(2) m'(2)] m'(3) by simp
  moreover have "serving nd (Some k) ?socket2" using a(1) by (simp add: serving_def sock_valid_def)
  moreover have "encodable_block ?b" using s(3) a(2) by (simp add: peer_ok_def list_all_length)
  ultimately show "\<exists>socket1 socket2 m'. send_message served_send m socket = (Inr (), socket1) \<and>
      recv_message served_recv socket1 = (Inr m', socket2) \<and> serving nd (Some k) socket2 \<and> encodable_block ?b \<and>
      make_block_response_message \<lparr>block_bytes = block_to_bytes ?b\<rparr> = Inr m'"
    using m'(1) by blast
next
  fix socket n m
  assume a: "serving nd (Some 0) socket" "make_block_request_message \<lparr>br_height = of_nat n\<rparr> = Inr m"
  let ?os = "\<lparr>sv_node = nd, sv_left = Some 0, sv_in = enc_var_bytes (p2p_to_bytes m), sv_out = []\<rparr>"
  let ?e = "socket_error ''socket recv failed'' 0"
  have "send_message served_send m socket = (Inr (), socket\<lparr>sock_os := ?os\<rparr>)"
    using served_send_message [OF _ request_handled(2) [OF a(2)], of socket] a(1) by (simp add: serving_def)
  moreover have "recv_all_native served_recv 4 ?os = (Inl ?e, ?os)"
    by (simp add: recv_all_native.simps [of served_recv 4] served_recv_def serve_one_def)
  then have "recv_message served_recv (socket\<lparr>sock_os := ?os\<rparr>) = (Inl ?e, socket\<lparr>sock_os := ?os\<rparr>)"
    using a(1) by (simp add: recv_message_def recv_framed_def serving_def sock_valid_def)
  moreover have "peer_disconnected ?e"
    using contains_substringI [of "''socket recv failed''" "[]"] by (simp add: peer_disconnected_def socket_error_def)
  ultimately show "\<exists>socket1 socket2 e. send_message served_send m socket = (Inr (), socket1) \<and>
      recv_message served_recv socket1 = (Inl e, socket2) \<and> peer_disconnected e" by blast
qed

lemma handshake_ready:
  assumes "ps_node_id st \<noteq> []" and "length (ps_node_id st) \<le> 64"
  shows "\<exists>m. make_handshake_message (local_handshake st) = Inr m \<and> message_ok m \<and>
    parse_handshake_message m = Inr (local_handshake st)"
  using assms by (intro handshake_sendable) (simp_all add: handshake_ok_def local_handshake_def chain_tip_hash_def)

lemma serve_one_handshake:
  assumes "message_ok m" and "parse_handshake_message m = Inr hs"
    and "make_handshake_message (local_handshake (nd_state nd)) = Inr m'" and "message_ok m'"
  shows "serve_one \<lparr>sv_node = nd, sv_left = None, sv_in = enc_var_bytes (p2p_to_bytes m), sv_out = []\<rparr> =
    \<lparr>sv_node = nd, sv_left = Some kMaxRelayMessages, sv_in = [], sv_out = enc_var_bytes (p2p_to_bytes m')\<rparr>"
proof -
  let ?os = "\<lparr>sv_node = nd, sv_left = None, sv_in = enc_var_bytes (p2p_to_bytes m), sv_out = []\<rparr>"
  obtain socket where recv: "recv_message pipe_recv (ss_socket (server_session ?os)) = (Inr m, socket)"
    "sock_valid socket" "pipe_in (sock_os socket) = []" "pipe_out (sock_os socket) = []"
    using server_receives [OF assms(1), of ?os] by auto
  from pipe.message_transfer(1) [OF assms(4) recv(2)] obtain socket' where
    "send_message pipe_send m' socket = (Inr (), socket')" "pipe_in (sock_os socket') = []"
    "pipe_out (sock_os socket') = enc_var_bytes (p2p_to_bytes m')"
    using recv(3,4) by auto
  with recv(1) assms(2,3) show ?thesis
    by (simp add: serve_one_def server_round_def serve_relay_handshake_def bind_op_def zoom_def server_session_def)
qed

lemma greeted:
  assumes "serving nd None (ss_socket s)"
    and "ps_node_id (session_state s) \<noteq> []" "length (ps_node_id (session_state s)) \<le> 64"
    and "ps_node_id (nd_state nd) \<noteq> []" "length (ps_node_id (nd_state nd)) \<le> 64"
  shows "\<exists>socket. exchange_relay_handshake served_send served_recv s =
      Some (Inr (local_handshake (nd_state nd)), s\<lparr>ss_socket := socket\<rparr>) \<and> serving nd (Some kMaxRelayMessages) socket"
proof -
  from handshake_ready [OF assms(2,3)] obtain m where m: "make_handshake_message (local_handshake (session_state s)) = Inr m"
    "message_ok m" "parse_handshake_message m = Inr (local_handshake (session_state s))" by blast
  from handshake_ready [OF assms(4,5)] obtain m' where m': "make_handshake_message (local_handshake (nd_state nd)) = Inr m'"
    "message_ok m'" "parse_handshake_message m' = Inr (local_handshake (nd_state nd))" by blast
  let ?os = "\<lparr>sv_node = nd, sv_left = None, sv_in = enc_var_bytes (p2p_to_bytes m), sv_out = []\<rparr>"
  let ?socket1 = "(ss_socket s)\<lparr>sock_os := ?os\<rparr>"
  let ?socket2 = "(ss_socket s)\<lparr>sock_os := \<lparr>sv_node = nd, sv_left = Some kMaxRelayMessages, sv_in = [], sv_out = []\<rparr>\<rparr>"
  from assms(1) have valid: "sock_valid (ss_socket s)" "sock_valid ?socket1" by (simp_all add: serving_def sock_valid_def)
  have "send_message served_send m (ss_socket s) = (Inr (), ?socket1)"
    using served_send_message [OF valid(1) m(2)] assms(1) by (simp add: serving_def)
  moreover have "recv_message served_recv ?socket1 = (Inr m', ?socket2)"
    using served_recv_message [OF valid(2) m'(2)] serve_one_handshake [OF m(2,3) m'(1,2)] by simp
  moreover have "serving nd (Some kMaxRelayMessages) ?socket2" using assms(1) by (simp add: serving_def sock_valid_def)
  ultimately show ?thesis
    using m(1) m'(3) by (auto simp: exchange_relay_handshake_def bind_op_def zoom_def)
qed

section \<open>A client of the server\<close>

text \<open>
  A client that has just connected: its blocks are the first blocks of the server's, under the same
  parameters, both have a name that fits into a handshake, and the server's height is not the
  greatest 32-bit number.
\<close>

definition client_of :: "Node \<Rightarrow> Served Session \<Rightarrow> bool" where
  "client_of nd s \<longleftrightarrow> serving nd None (ss_socket s) \<and>
     peer_ok (nd_state (ss_node s)) \<and> \<not> ps_persist (nd_state (ss_node s)) \<and>
     prefix (peer_ledger_blocks (nd_state (ss_node s))) (peer_ledger_blocks (nd_state nd)) \<and>
     ch_params (ps_chain (nd_state (ss_node s))) = ch_params (ps_chain (nd_state nd)) \<and>
     ps_node_id (nd_state (ss_node s)) \<noteq> [] \<and> length (ps_node_id (nd_state (ss_node s))) \<le> 64 \<and>
     ps_node_id (nd_state nd) \<noteq> [] \<and> length (ps_node_id (nd_state nd)) \<le> 64 \<and>
     chain_height (ps_chain (nd_state nd)) \<noteq> UINT32_MAX"

lemma client_starts:
  assumes "client_of nd s"
  shows "\<exists>socket. exchange_relay_handshake served_send served_recv s =
      Some (Inr (local_handshake (nd_state nd)), s\<lparr>ss_socket := socket\<rparr>) \<and>
    served.syncing nd (ch_params (ps_chain (nd_state nd))) kMaxRelayMessages
      (unat (chain_height (ps_chain (session_state s))) + 1) (s\<lparr>ss_socket := socket\<rparr>)"
    and "reachable (chain_init (ch_params (ps_chain (nd_state nd)))) chain_step
      (peer_ledger_blocks (nd_state nd), ps_chain (nd_state nd))"
    and "length (peer_ledger_blocks (nd_state nd)) = unat (chain_height (ps_chain (nd_state nd))) + 1"
    and "unat (chain_height (ps_chain (session_state s))) + 1 \<le> length (peer_ledger_blocks (nd_state nd))"
proof -
  let ?st = "session_state s" and ?blocks = "peer_ledger_blocks (nd_state nd)" and ?params = "ch_params (ps_chain (nd_state nd))"
  have nd: "peer_ok (nd_state nd)" using assms by (simp add: client_of_def serving_def)
  then show "reachable (chain_init ?params) chain_step (?blocks, ps_chain (nd_state nd))" by (simp add: peer_ok_def)
  show "length ?blocks = unat (chain_height (ps_chain (nd_state nd))) + 1"
    using peer_chain_inv [OF nd] by (simp add: chain_inv_def)
  from assms have prefix: "prefix (peer_ledger_blocks ?st) ?blocks" by (simp add: client_of_def)
  obtain n where n: "n \<le> length ?blocks" "peer_ledger_blocks ?st = take n ?blocks"
    using prefix_length_le [OF prefix] prefix by (metis append_eq_conv_conj prefix_def)
  obtain socket where
    hello: "exchange_relay_handshake served_send served_recv s = Some (Inr (local_handshake (nd_state nd)), s\<lparr>ss_socket := socket\<rparr>)"
    and ready: "serving nd (Some kMaxRelayMessages) socket" using assms greeted unfolding client_of_def by blast
  let ?s = "s\<lparr>ss_socket := socket\<rparr>"
  have sync: "served.syncing nd ?params kMaxRelayMessages n ?s"
    using ready n(2) assms by (simp add: served.syncing_def client_of_def)
  have "n = unat (chain_height (ps_chain ?st)) + 1" using served.syncing_height [OF sync n(1)] by simp
  with hello sync n(1) show "\<exists>socket. exchange_relay_handshake served_send served_recv s =
      Some (Inr (local_handshake (nd_state nd)), s\<lparr>ss_socket := socket\<rparr>) \<and>
    served.syncing nd ?params kMaxRelayMessages (unat (chain_height (ps_chain ?st)) + 1) (s\<lparr>ss_socket := socket\<rparr>)"
    and "unat (chain_height (ps_chain ?st)) + 1 \<le> length ?blocks" by auto
qed

lemma next_height: "(of_nat (unat h + 1) :: u32) = h + 1"
  by simp

section \<open>Example servers\<close>

definition example_node :: "Chain \<Rightarrow> Block list \<Rightarrow> Node" where
  "example_node c blocks = \<lparr>nd_state = config_state default_config zero_hash c blocks, nd_files = Map.empty\<rparr>"

definition example_client :: "Node \<Rightarrow> Served Session" where
  "example_client nd = \<lparr>ss_node = example_node example_chain0 [example_genesis],
     ss_socket = \<lparr>sock_handle = 3, sock_os = \<lparr>sv_node = nd, sv_left = None, sv_in = [], sv_out = []\<rparr>\<rparr>\<rparr>"

text \<open>A chain of blocks without transactions.\<close>

definition empty_child :: "Block \<Rightarrow> Block" where
  "empty_child b = \<lparr>blk_header = \<lparr>hdr_version = 1, hdr_prev_block = header_hash (blk_header b),
     hdr_merkle_root = zero_hash, hdr_timestamp = 100, hdr_height = hdr_height (blk_header b) + 1\<rparr>, blk_transactions = []\<rparr>"

fun empty_chain :: "nat \<Rightarrow> Block list" where
  "empty_chain 0 = [example_genesis]"
| "empty_chain (Suc n) = empty_chain n @ [empty_child (last (empty_chain n))]"

definition empty_tip :: "nat \<Rightarrow> Chain" where
  "empty_tip n = \<lparr>ch_tip = blk_header (last (empty_chain n)), ch_utxos = empty_utxos, ch_params = example_params\<rparr>"

lemma empty_chain_facts:
  "length (empty_chain n) = Suc n" "empty_chain n \<noteq> []" "hdr_height (blk_header (last (empty_chain n))) = of_nat n"
  "hdr_timestamp (blk_header (last (empty_chain n))) = 100" "\<exists>bs. empty_chain n = example_genesis # bs"
  by (induction n) (auto simp: empty_child_def example_genesis_def)

lemma empty_chain_block:
  "b \<in> set (empty_chain n) \<Longrightarrow> encodable_block b \<and> length (block_to_bytes b) = 84"
proof (induction n)
  case 0
  then show ?case using example_encodable example_lengths by (simp add: wire_simps)
next
  case (Suc n)
  have "wf_header (blk_header (empty_child b'))" for b' by (simp add: empty_child_def wf_header_def)
  then have "encodable_block (empty_child b') \<and> length (block_to_bytes (empty_child b')) = 84" for b'
    using length_block_to_bytes [of "empty_child b'"] by (simp add: encodable_block_def) (simp add: empty_child_def)
  with Suc show ?case by auto
qed

lemma empty_chain_reachable:
  "n < 4294967295 \<Longrightarrow> reachable (chain_init example_params) chain_step (empty_chain n, empty_tip n)"
proof (induction n)
  case 0
  have "empty_tip 0 = example_chain0" by (simp add: empty_tip_def example_chain0_def)
  then show ?case using example_create by (intro reach_init) (simp add: chain_init_def)
next
  case (Suc n)
  let ?b = "empty_child (last (empty_chain n))"
  have "unat (of_nat n :: u32) = n" using Suc.prems by (intro unat_of_nat_less) simp
  then have "unat (of_nat n + 1 :: u32) = n + 1" using Suc.prems by (simp add: unat_add_no_wrap)
  then have "links_to (blk_header (last (empty_chain n))) (blk_header ?b)"
    using \<open>unat (of_nat n) = n\<close> empty_chain_facts [of n]
    by (simp add: links_to_def kBlockVersion_def) (simp add: empty_child_def empty_chain_facts)
  moreover have "connect_block ?b empty_utxos example_params = (Inr 0, empty_utxos)"
    by (rule connect_empty_block) (simp_all add: empty_child_def wf_header_def)
  ultimately have "submit_block ?b (empty_tip n) None = (Inr 0, empty_tip (Suc n), None)"
    by (simp add: submit_block_ok empty_tip_def)
  from chain_step.intros [OF this, of "empty_chain n"] Suc show ?case
    by (auto intro: reach_step)
qed

lemma example_client_of:
  assumes "reachable (chain_init example_params) chain_step (blocks, c)" and "list_all encodable_block blocks"
    and "list_all (\<lambda>b. length (block_to_bytes b) \<le> 1048572) blocks" and "prefix [example_genesis] blocks"
    and "chain_height c \<noteq> UINT32_MAX"
  shows "client_of (example_node c blocks) (example_client (example_node c blocks))"
proof -
  have c: "ch_params c = example_params" using chain_system.reachable_inv [OF assms(1)] by (simp add: chain_inv_def)
  have ids: "cfg_node_id default_config = ''node-0''" "\<not> cfg_persist default_config" by (simp_all add: default_config_def)
  have "peer_ok (config_state default_config zero_hash c blocks)"
    using config_state_ok [OF assms(1,2) default_recipient] .
  moreover have "peer_ok (config_state default_config zero_hash example_chain0 [example_genesis])"
    using example_peer_ok by (simp add: example_peer_def)
  ultimately show ?thesis
    using assms(3-5) c
    by (simp add: client_of_def example_client_def example_node_def serving_def sock_valid_def ids)
      (simp add: example_chain0_def)
qed

section \<open>Properties\<close>





end
