(* ===== verification/Network_Descriptors.thy ===== *)
theory Network_Descriptors
  imports Network_Correct
begin

text \<open>
  No mode of the network programs leaks a descriptor: whatever calls fail and whatever the peer
  sends, a run that returns leaves open exactly the descriptors that were open before. The lemmas
  are proved under the laws of \<open>descriptors\<close>; the interpretation is an operating system whose calls
  succeed and fail as a script says.
\<close>

section \<open>Programs under the laws of the descriptors\<close>

context descriptors
begin

definition on_conn :: "int set \<Rightarrow> int \<Rightarrow> 'os TcpSocket \<Rightarrow> bool" where
  "on_conn D h socket \<longleftrightarrow> sock_handle socket = h \<and> opened (sock_os socket) = D"

definition host_open :: "int set \<Rightarrow> 'os Host \<Rightarrow> bool" where
  "host_open D host \<longleftrightarrow> opened (hst_os host) = D"

lemma native_opened:
  "opened (snd (send_all_native (sys_send sys h) data os)) = opened os"
  "opened (snd (recv_all_native (sys_recv sys h) n os)) = opened os"
proof -
  show "opened (snd (send_all_native (sys_send sys h) data os)) = opened os"
  proof (induction "length data" arbitrary: data os rule: less_induct)
    case less
    show ?case
    proof (cases "data = []")
      case False
      obtain rc errno os' where call: "sys_send sys h os data = (rc, errno, os')" by (cases "sys_send sys h os data") auto
      then have "opened os' = opened os" by (rule after_calls)
      moreover have "rc > 0 \<Longrightarrow> length (drop (nat rc) data) < length data" using False by simp
      ultimately show ?thesis
        using less.hyps [of "drop (nat rc) data" os'] False
        by (simp add: send_all_native.simps [of "sys_send sys h" data] call)
    qed (simp add: send_all_native.simps)
  qed
  show "opened (snd (recv_all_native (sys_recv sys h) n os)) = opened os"
  proof (induction n arbitrary: os rule: less_induct)
    case (less n)
    show ?case
    proof (cases "n = 0")
      case False
      obtain chunk errno os' where call: "sys_recv sys h os n = (chunk, errno, os')" by (cases "sys_recv sys h os n") auto
      then have same: "opened os' = opened os" by (rule after_calls)
      show ?thesis
      proof (cases "chunk = []")
        case True
        with False same show ?thesis by (simp add: recv_all_native.simps [of _ n os] call)
      next
        case more: False
        obtain r os'' where rest: "recv_all_native (sys_recv sys h) (n - length chunk) os' = (r, os'')" by fastforce
        have "n - length chunk < n" using False more by simp
        from less.IH [OF this, of os'] rest same have "opened os'' = opened os" by simp
        with False more rest show ?thesis by (simp add: recv_all_native.simps [of _ n os] call split: sum.split)
      qed
    qed (simp add: recv_all_native.simps)
  qed
qed

lemma send_all_opened: "send_all_native (sys_send sys h) data os = (r, os') \<Longrightarrow> opened os' = opened os"
  using native_opened(1) [of h data os] by simp

lemma recv_all_opened: "recv_all_native (sys_recv sys h) n os = (r, os') \<Longrightarrow> opened os' = opened os"
  using native_opened(2) [of h n os] by simp

lemma message_conn [preserves_rules]:
  "preserves (on_conn D h) (\<lambda>socket. Some (send_message (sys_send sys h') m socket))"
  "preserves (on_conn D h) (\<lambda>socket. Some (recv_message (sys_recv sys h') socket))"
proof -
  have "on_conn D h socket \<Longrightarrow> on_conn D h (snd (send_framed (sys_send sys h') body socket))" for body socket
    by (auto simp: on_conn_def send_framed_def Let_def split: prod.split sum.split dest!: send_all_opened)
  then show "preserves (on_conn D h) (\<lambda>socket. Some (send_message (sys_send sys h') m socket))"
    by (auto simp: preserves_def send_message_def) (metis snd_conv)
  have "on_conn D h socket \<Longrightarrow> on_conn D h (snd (recv_framed (sys_recv sys h') n socket))" for n socket
    by (auto simp: on_conn_def recv_framed_def Let_def split: prod.split sum.split dest!: recv_all_opened)
  then show "preserves (on_conn D h) (\<lambda>socket. Some (recv_message (sys_recv sys h') socket))"
    by (auto simp: preserves_def recv_message_def split: prod.splits sum.splits) (metis snd_conv)+
qed

lemma ping_conn [preserves_rules]:
  "preserves (on_conn D h) (serve_ping_connection (sys_send sys h') (sys_recv sys h') config)"
  "preserves (on_conn D h) (ping_client (sys_send sys h') (sys_recv sys h') config)"
  unfolding serve_ping_connection_def ping_client_def serve_handshake_def exchange_handshake_def
  by (intro preserves_rules)+

abbreviation (input) on_sess :: "int set \<Rightarrow> int \<Rightarrow> 'os Session \<Rightarrow> bool" where
  "on_sess D h s \<equiv> on_conn D h (ss_socket s)"

lemma on_sess_parts [preserves_rules]:
  "preserves (on_sess D h) (on_node op)"
  "preserves (on_conn D h) (\<lambda>sock. Some (f sock)) \<Longrightarrow> preserves (on_sess D h) (on_socket f)"
proof -
  show "preserves (on_sess D h) (on_node op)" by (auto simp: preserves_def zoom_def)
  assume "preserves (on_conn D h) (\<lambda>sock. Some (f sock))"
  then show "preserves (on_sess D h) (on_socket f)" by (rule preserves_zoom) auto
qed

lemma handle_sess [preserves_rules]: "preserves (on_sess D h) (handle_message (sys_send sys h') faults m)"
  unfolding handle_message_def send_reject_def on_block_request_def
  by (cases "msg_type m") (simp, intro preserves_rules)+

lemma relay_rounds_sess [preserves_rules]:
  "preserves (on_sess D h) (relay_rounds (sys_send sys h') (sys_recv sys h') faults n)"
proof (induction n)
  case 0
  show ?case unfolding relay_rounds.simps by (intro preserves_rules)
next
  case (Suc n)
  then show ?case unfolding relay_rounds.simps by (intro preserves_rules)
qed

lemma serve_relay_sess [preserves_rules]:
  "preserves (on_sess D h) (serve_relay_connection (sys_send sys h') (sys_recv sys h') faults)"
  unfolding serve_relay_connection_def serve_relay_handshake_def relay_message_loop_def by (intro preserves_rules)

lemma request_sess [preserves_rules]:
  "preserves (on_sess D h) (request_block (sys_send sys h') (sys_recv sys h') faults height)"
  unfolding request_block_def by (intro preserves_rules)

lemma sync_sess [preserves_rules]:
  "preserves (on_sess D h) (sync_blocks (sys_send sys h') (sys_recv sys h') faults target height)"
  unfolding preserves_def
proof (intro allI impI)
  fix s r s'
  assume start: "on_sess D h s" and ret: "sync_blocks (sys_send sys h') (sys_recv sys h') faults target height s = Some (r, s')"
  have "on_sess D h s \<longrightarrow> on_sess D h (snd (r, s'))"
  proof (rule sync_blocks.raw_induct [where P = "\<lambda>send recv faults target height s y.
      send = sys_send sys h' \<and> recv = sys_recv sys h' \<longrightarrow> on_sess D h s \<longrightarrow> on_sess D h (snd y)", OF _ ret, THEN mp])
    fix f send recv faults target height s y
    assume IH: "\<And>send recv faults target height s y. f send recv faults target height s = Some y \<Longrightarrow>
        send = sys_send sys h' \<and> recv = sys_recv sys h' \<longrightarrow> on_sess D h s \<longrightarrow> on_sess D h (snd y)"
      and eq: "(if height \<le> target
        then case request_block send recv faults height s of None \<Rightarrow> None
             | Some (Inl e, s) \<Rightarrow> Some (Inl e, s)
             | Some (Inr _, s) \<Rightarrow> f send recv faults target (height + 1) s
        else Some (Inr (), s)) = Some y"
    show "send = sys_send sys h' \<and> recv = sys_recv sys h' \<longrightarrow> on_sess D h s \<longrightarrow> on_sess D h (snd y)"
      using eq IH preservesD [OF request_sess [of D h h' faults height], of s]
      by (cases y) (auto split: if_splits option.splits sum.splits)
  qed simp
  with start show "on_sess D h s'" by simp
qed

lemma client_sess [preserves_rules]:
  "preserves (on_sess D h) (client_session (sys_send sys h') (sys_recv sys h') faults config options)"
  unfolding client_session_def exchange_relay_handshake_def send_tx_announces_def fetch_next_def
  by (intro preserves_rules)

lemma host_parts [preserves_rules]:
  "preserves (host_open D) (on_files op)"
  "preserves (host_open D) (on_os (bound_port sys l))"
  "preserves (on_conn D h) conn_op \<Longrightarrow> preserves (host_open D) (on_connection h conn_op)"
  "preserves (on_sess D h) sess_op \<Longrightarrow> preserves (host_open D) (in_session h st sess_op)"
proof -
  show "preserves (host_open D) (on_files op)" by (auto simp: preserves_def zoom_def host_open_def)
  have "preserves (\<lambda>os. opened os = D) (\<lambda>os. Some (bound_port sys l os))"
    unfolding preserves_def
  proof (intro allI impI)
    fix os r os'
    assume "opened os = D" "Some (bound_port sys l os) = Some (r, os')"
    with bound_port_opened [of l os] show "opened os' = D" by simp
  qed
  then show "preserves (host_open D) (on_os (bound_port sys l))"
    by (rule preserves_zoom) (simp_all add: host_open_def)
  assume "preserves (on_conn D h) conn_op"
  then show "preserves (host_open D) (on_connection h conn_op)"
    by (rule preserves_zoom) (auto simp: host_open_def on_conn_def)
next
  assume "preserves (on_sess D h) sess_op"
  then show "preserves (host_open D) (in_session h st sess_op)"
    by (rule preserves_zoom) (auto simp: host_open_def on_conn_def)
qed

lemma publish_host [preserves_rules]: "preserves (host_open D) (publish_listen_port faults config options port)"
proof -
  have "preserves (host_open D) (\<lambda>host. Some (Inr (), if port_ready options then host\<lparr>hst_port_ready := port\<rparr> else host))"
    by (auto simp: preserves_def host_open_def)
  then show ?thesis unfolding publish_listen_port_def by (intro preserves_rules)
qed

text \<open>A descriptor that a scope opens is closed at its end.\<close>

lemma with_handle_host:
  assumes opens: "\<And>os. opens os (open_it os)"
    and closes: "\<And>h os. 0 \<le> h \<Longrightarrow> opened (close_it h os) = opened os - {h}"
    and body: "\<And>h. 0 \<le> h \<Longrightarrow> preserves (host_open (insert h D)) (body h)"
  shows "preserves (host_open D) (with_handle open_it close_it body)"
  unfolding preserves_def
proof (intro allI impI)
  fix host r host'
  assume start: "host_open D host" and run: "with_handle open_it close_it body host = Some (r, host')"
  obtain hr os where call: "open_it (hst_os host) = (hr, os)" by (rule prod.exhaust)
  show "host_open D host'"
  proof (cases hr)
    case (Inl e)
    with run call have "host' = host\<lparr>hst_os := os\<rparr>" by (simp add: with_handle_def bind_op_def zoom_def)
    with Inl opens [of "hst_os host"] start call show ?thesis by (simp add: host_open_def opens_def)
  next
    case (Inr h)
    with opens [of "hst_os host"] start call have h: "0 \<le> h" "h \<notin> D" "host_open (insert h D) (host\<lparr>hst_os := os\<rparr>)"
      by (simp_all add: host_open_def opens_def)
    from run Inr call obtain host'' where "body h (host\<lparr>hst_os := os\<rparr>) = Some (r, host'')"
      and host': "host' = host''\<lparr>hst_os := close_it h (hst_os host'')\<rparr>"
      by (auto simp: with_handle_def bind_op_def zoom_def closing_def)
    with h have "host_open (insert h D) host''" by (blast intro: preservesD [OF body])
    with h host' show ?thesis by (simp add: host_open_def closes)
  qed
qed

lemma scopes_host [preserves_rules]:
  "(\<And>h. preserves (host_open (insert h D)) (body h)) \<Longrightarrow> preserves (host_open D) (with_listener sys endpoint body)"
  "(\<And>h. preserves (host_open (insert h D)) (body h)) \<Longrightarrow> preserves (host_open D) (with_socket sys (sock_connect sys endpoint) body)"
  "(\<And>h. preserves (host_open (insert h D)) (body h)) \<Longrightarrow> preserves (host_open D) (with_socket sys (listener_accept sys l) body)"
  by (rule with_handle_host;
      simp add: bind_opens connect_opens accept_opens destroy_closes owned_def)+

text \<open>The accept loop: every round closes the socket it accepted.\<close>

lemma relay_session_opened:
  assumes "relay_session sys faults listener s = Some (r, s')"
  shows "opened (sock_os (ss_socket s')) = opened (sock_os (ss_socket s))"
proof -
  obtain hr os where call: "listener_accept sys listener (sock_os (ss_socket s)) = (hr, os)"
    by (rule prod.exhaust)
  note law = accept_opens [of "sock_os (ss_socket s)" listener]
  show ?thesis
  proof (cases hr)
    case (Inl e)
    with assms call have "s' = s\<lparr>ss_socket := \<lparr>sock_handle = -1, sock_os = os\<rparr>\<rparr>"
      by (simp add: relay_session_def accept_peer_def bind_op_def)
    with Inl call law show ?thesis by (simp add: opens_def)
  next
    case (Inr h)
    define t where "t = s\<lparr>ss_socket := \<lparr>sock_handle = h, sock_os = os\<rparr>\<rparr>"
    from Inr call law have h: "0 \<le> h" "h \<notin> opened (sock_os (ss_socket s))"
      and t: "on_sess (insert h (opened (sock_os (ss_socket s)))) h t"
      by (simp_all add: opens_def on_conn_def t_def)
    from assms Inr call obtain t' where "serve_relay_connection (sys_send sys h) (sys_recv sys h) faults t = Some (r, t')"
      and s': "s' = t'\<lparr>ss_socket := sock_close sys (ss_socket t')\<rparr>"
      by (auto simp: relay_session_def accept_peer_def bind_op_def closing_def t_def)
    with t have "on_sess (insert h (opened (sock_os (ss_socket s)))) h t'"
      by (blast intro: preservesD [OF serve_relay_sess])
    with h s' show ?thesis by (simp add: on_conn_def sock_close_def opened_close_native)
  qed
qed

lemma relay_sessions_opened:
  "preserves (\<lambda>s. opened (sock_os (ss_socket s)) = D) (relay_sessions sys faults listener n result)"
proof (induction n arbitrary: result)
  case (Suc n)
  have "preserves (\<lambda>s. opened (sock_os (ss_socket s)) = D) (relay_session sys (faults n) listener)"
    by (auto simp: preserves_def dest: relay_session_opened)
  with Suc show ?case unfolding relay_sessions.simps by (intro preserves_rules)
qed (simp add: preserves_def)

lemma relay_sessions_host [preserves_rules]:
  "preserves (host_open D) (in_session h st (relay_sessions sys faults listener n result))"
  by (rule preserves_zoom [OF relay_sessions_opened]) (auto simp: host_open_def)

lemma programs_host:
  "preserves (host_open D) (run_ping_server sys faults config)"
  "preserves (host_open D) (run_ping_client sys config)"
  "preserves (host_open D) (run_relay_server sys server_faults config server_options)"
  "preserves (host_open D) (run_relay_client sys faults config options)"
  unfolding run_ping_server_def run_ping_client_def run_relay_server_def run_relay_client_def Let_def
  by (intro preserves_rules)+

end

section \<open>An operating system\<close>

text \<open>
  A process with its open descriptors, the outcomes of its next calls (\<open>True\<close> is success; calls
  succeed when the list is used up) and the bytes its peers have sent.
\<close>

record Kernel =
  open_fds :: "int list"
  outcomes :: "bool list"
  inbound_bytes :: bytes

definition next_outcome :: "Kernel \<Rightarrow> bool \<times> Kernel" where
  "next_outcome k = (case outcomes k of [] \<Rightarrow> (True, k) | ok # rest \<Rightarrow> (ok, k\<lparr>outcomes := rest\<rparr>))"

definition kernel_call :: "Kernel \<Rightarrow> int \<times> Kernel" where
  "kernel_call k = (case next_outcome k of (ok, k') \<Rightarrow> (if ok then 0 else -1, k'))"

definition kernel_open :: "Kernel \<Rightarrow> int \<times> Kernel" where
  "kernel_open k =
     (case next_outcome k of
        (ok, k') \<Rightarrow>
          if ok then let h = fold max (open_fds k) (-1) + 1 in (h, k'\<lparr>open_fds := h # open_fds k\<rparr>) else (-1, k'))"

definition kernel_recv :: "Kernel recv_call" where
  "kernel_recv k n = (take n (inbound_bytes k), 0, k\<lparr>inbound_bytes := drop n (inbound_bytes k)\<rparr>)"

definition kernel_sys :: "Kernel Sys" where
  "kernel_sys = \<lparr>
     sys_errno = (\<lambda>k. 0), sys_inet_pton = (\<lambda>host. Some 0), sys_socket = kernel_open,
     sys_connect = (\<lambda>h addr. kernel_call), sys_setsockopt = (\<lambda>h. kernel_call), sys_bind = (\<lambda>h addr. kernel_call),
     sys_listen = (\<lambda>h n. kernel_call), sys_getsockname = (\<lambda>h k. (Some \<lparr>sin_addr = 0, sin_port = 0\<rparr>, k)),
     sys_accept = (\<lambda>l. kernel_open), sys_close = (\<lambda>h k. k\<lparr>open_fds := removeAll h (open_fds k)\<rparr>),
     sys_send = (\<lambda>h k data. case kernel_call k of (rc, k') \<Rightarrow> (if rc = 0 then int (length data) else -1, 0, k')),
     sys_recv = (\<lambda>h. kernel_recv)\<rparr>"

lemma kernel_call_opened: "open_fds (snd (kernel_call k)) = open_fds k"
  by (auto simp: kernel_call_def next_outcome_def split: list.split)

lemma kernel_call_after: "kernel_call k = (rc, k') \<Longrightarrow> open_fds k' = open_fds k"
  using kernel_call_opened [of k] by simp

lemma le_fold_max: "m \<le> fold max hs (m :: int)"
proof (induction hs arbitrary: m)
  case (Cons h hs)
  from Cons [of "max h m"] show ?case by simp
qed simp

lemma fold_max_less: "h \<in> set hs \<Longrightarrow> h < fold max hs (a :: int) + 1"
proof (induction hs arbitrary: a)
  case (Cons x xs)
  from le_fold_max [of "max x a" xs] Cons show ?case by auto
qed simp

lemma kernel_open_law:
  assumes "kernel_open k = (h, k')"
  shows "if h = -1 then set (open_fds k') = set (open_fds k)
     else 0 \<le> h \<and> h \<notin> set (open_fds k) \<and> set (open_fds k') = insert h (set (open_fds k))"
  using assms le_fold_max [of "-1" "open_fds k"] fold_max_less [of "fold max (open_fds k) (-1) + 1" "open_fds k" "-1"]
  by (auto simp: kernel_open_def next_outcome_def Let_def split: list.splits if_splits)

interpretation kernel: descriptors kernel_sys "\<lambda>k. set (open_fds k)"
  using kernel_open_law
  by unfold_locales
    (auto simp: kernel_sys_def kernel_call_opened kernel_recv_def split: prod.split dest: kernel_call_after)

section \<open>No descriptor leaks\<close>

text \<open>C21. Under the documented laws of the socket calls, every network mode of the program (the ping
server and client, the relay server and client) that returns leaves open exactly the descriptors
that were open when it started: on success, and on every failure of a call, a file or the peer.\<close>

theorem network_modes_close_descriptors:
  assumes "descriptors sys opened"
  shows "preserves (\<lambda>host. opened (hst_os host) = D) (run_ping_server sys faults config) \<and>
    preserves (\<lambda>host. opened (hst_os host) = D) (run_ping_client sys config) \<and>
    preserves (\<lambda>host. opened (hst_os host) = D) (run_relay_server sys server_faults config server_options) \<and>
    preserves (\<lambda>host. opened (hst_os host) = D) (run_relay_client sys faults config options)"
proof -
  have "(\<lambda>host. opened (hst_os host) = D) = descriptors.host_open opened D"
    using descriptors.host_open_def [OF assms] by (intro ext) simp
  then show ?thesis by (simp add: descriptors.programs_host [OF assms])
qed

definition example_host :: "Kernel Host" where
  "example_host = \<lparr>hst_files = Map.empty,
     hst_os = \<lparr>open_fds = [2, 1, 0], outcomes = [True, True, True, True, True], inbound_bytes = []\<rparr>, hst_port_ready = 0\<rparr>"

theorem network_modes_close_descriptors_witness:
  "descriptors kernel_sys (\<lambda>k. set (open_fds k)) \<and>
   (\<exists>e host'. run_ping_server kernel_sys no_faults default_config example_host = Some (Inl e, host') \<and>
     set (open_fds (hst_os host')) = {0, 1, 2})"
proof -
  note laws = kernel.descriptors_axioms
  have "case run_ping_server kernel_sys no_faults default_config example_host of
      None \<Rightarrow> False | Some (Inl e, _) \<Rightarrow> True | Some (Inr _, _) \<Rightarrow> False"
    by (simp add: run_ping_server_def bind_op_def zoom_def closing_def with_handle_def kernel_sys_def kernel_open_def
        kernel_call_def next_outcome_def example_host_def default_config_def listener_bind_def make_ipv4_address_def
        handle_valid_def bound_port_def publish_listen_port_def listener_accept_def serve_ping_connection_def
        serve_handshake_def recv_message_def recv_framed_def sock_valid_def recv_all_native.simps kernel_recv_def Let_def
        socket_error_def)
  then obtain e host' where run: "run_ping_server kernel_sys no_faults default_config example_host = Some (Inl e, host')"
    by (auto split: option.splits sum.splits)
  have "set (open_fds (hst_os example_host)) = {0, 1, 2}" by (auto simp: example_host_def)
  from preservesD [OF network_modes_close_descriptors [OF laws, THEN conjunct1] this run]
  have "set (open_fds (hst_os host')) = {0, 1, 2}" .
  with laws run show ?thesis by blast
qed

end
